(* ===== verification/Dmq_Prelude.thy ===== *)
theory Dmq_Prelude
  imports Main "HOL-Library.Word" "HOL-Library.Multiset"
    "HOL-Library.Char_ord" "HOL-Library.List_Lexorder" "HOL-Library.Product_Lexorder"
begin

text \<open>
  Shared vocabulary of the development: the machine types of the Go sources, the parts of
  Go's \<^verbatim>\<open>time\<close>, \<^verbatim>\<open>strconv\<close> and \<^verbatim>\<open>strings\<close> packages the sources use, finite Go maps
  as association lists with distinct keys, the reachable states of a step relation, and the
  list lemmas the components share.
\<close>

section \<open>Machine types\<close>

type_synonym byte = "8 word"
type_synonym bytes = "byte list"
type_synonym u16 = "16 word"
type_synonym u32 = "32 word"
type_synonym u64 = "64 word"

text \<open>
  A \<^verbatim>\<open>time.Time\<close> is the signed number of nanoseconds since the Unix epoch, a
  \<^verbatim>\<open>time.Duration\<close> a number of nanoseconds. Durations are 64-bit in Go: the places where
  an operation on them can leave that range use \<open>to_int64\<close> (wrap-around) or
  \<open>time_Sub\<close> (saturation).
\<close>

type_synonym gotime = int
type_synonym duration = int

definition minDuration :: duration where
  "minDuration = - (2 ^ 63)"

definition maxDuration :: duration where
  "maxDuration = 2 ^ 63 - 1"

definition to_int64 :: "int \<Rightarrow> int" where
  "to_int64 x = (x + 2 ^ 63) mod 2 ^ 64 - 2 ^ 63"

abbreviation Second :: duration where
  "Second \<equiv> 1000000000"

abbreviation Minute :: duration where
  "Minute \<equiv> 60 * Second"

abbreviation Hour :: duration where
  "Hour \<equiv> 60 * Minute"

definition time_Unix :: "gotime \<Rightarrow> int" where
  "time_Unix t = t div Second"

definition time_Add :: "gotime \<Rightarrow> duration \<Rightarrow> gotime" where
  "time_Add t d = t + d"

definition time_Sub :: "gotime \<Rightarrow> gotime \<Rightarrow> duration" where
  "time_Sub t u = max minDuration (min maxDuration (t - u))"

text \<open>Go's integer division truncates towards zero.\<close>

definition go_div :: "int \<Rightarrow> int \<Rightarrow> int" where
  "go_div a b = sgn a * sgn b * (\<bar>a\<bar> div \<bar>b\<bar>)"

section \<open>Decimal numerals and string search\<close>

definition dec_digit :: "nat \<Rightarrow> char" where
  "dec_digit n = char_of (48 + n)"

fun dec_of_nat :: "nat \<Rightarrow> string" where
  "dec_of_nat n = (if n < 10 then [dec_digit n] else dec_of_nat (n div 10) @ [dec_digit (n mod 10)])"

declare dec_of_nat.simps [simp del]

definition itoa :: "int \<Rightarrow> string" where
  "itoa i = (if i < 0 then CHR ''-'' # dec_of_nat (nat (- i)) else dec_of_nat (nat i))"

definition dec_value :: "string \<Rightarrow> nat" where
  "dec_value s = foldl (\<lambda>acc c. 10 * acc + (of_char c - 48)) 0 s"

fun is_prefix_of :: "string \<Rightarrow> string \<Rightarrow> bool" where
  "is_prefix_of [] t = True"
| "is_prefix_of (c # s) [] = False"
| "is_prefix_of (c # s) (d # t) = (c = d \<and> is_prefix_of s t)"

text \<open>\<^verbatim>\<open>strings.Contains(t, s)\<close>.\<close>

fun strings_Contains :: "string \<Rightarrow> string \<Rightarrow> bool" where
  "strings_Contains [] s = (s = [])"
| "strings_Contains (d # t) s = (is_prefix_of s (d # t) \<or> strings_Contains t s)"

section \<open>Finite Go maps that the sources iterate over\<close>

text \<open>
  A Go map that the code only looks up is a HOL map. A map the code ranges over is an
  association list with distinct keys, its order standing for the iteration order of one
  particular run; results that must not depend on that order are proved invariant under
  permutation.
\<close>

fun go_map_delete :: "'k \<Rightarrow> ('k \<times> 'v) list \<Rightarrow> ('k \<times> 'v) list" where
  "go_map_delete k [] = []"
| "go_map_delete k ((k', v) # m) = (if k = k' then m else (k', v) # go_map_delete k m)"

fun go_map_put :: "'k \<Rightarrow> 'v \<Rightarrow> ('k \<times> 'v) list \<Rightarrow> ('k \<times> 'v) list" where
  "go_map_put k v [] = [(k, v)]"
| "go_map_put k v ((k', v') # m) =
     (if k = k' then (k, v) # m else (k', v') # go_map_put k v m)"

section \<open>Reachable states of a step relation\<close>

inductive reach :: "('s \<Rightarrow> bool) \<Rightarrow> ('s \<Rightarrow> 's \<Rightarrow> bool) \<Rightarrow> 's \<Rightarrow> bool" for init step where
  reach_init: "init s \<Longrightarrow> reach init step s"
| reach_step: "reach init step s \<Longrightarrow> step s t \<Longrightarrow> reach init step t"

text \<open>
  An invariant of a component: the contract between its step relation and a predicate that
  holds at the start and that every step keeps.
\<close>

locale inductive_invariant =
  fixes init :: "'s \<Rightarrow> bool"
    and step :: "'s \<Rightarrow> 's \<Rightarrow> bool"
    and inv :: "'s \<Rightarrow> bool"
  assumes inv_init: "init s \<Longrightarrow> inv s"
    and inv_step: "inv s \<Longrightarrow> step s t \<Longrightarrow> inv t"
begin

lemma reach_inv: "reach init step s \<Longrightarrow> inv s"
  by (induction rule: reach.induct) (auto intro: inv_init inv_step)

lemma steps_inv: "step\<^sup>*\<^sup>* s t \<Longrightarrow> inv s \<Longrightarrow> inv t"
  by (induction rule: rtranclp_induct) (auto intro: inv_step)

end

section \<open>Lemma collections and shared lemmas\<close>

named_theorems go_time_defs "unfolding of the time operations"

declare time_Unix_def [go_time_defs] time_Add_def [go_time_defs] time_Sub_def [go_time_defs]
  minDuration_def [go_time_defs] maxDuration_def [go_time_defs]

lemma to_int64_range: "minDuration \<le> to_int64 x \<and> to_int64 x \<le> maxDuration"
proof -
  have "0 \<le> (x + 2 ^ 63) mod 2 ^ 64" and "(x + 2 ^ 63) mod 2 ^ 64 < (2::int) ^ 64"
    by simp_all
  then show ?thesis
    by (simp add: to_int64_def minDuration_def maxDuration_def)
qed

lemma to_int64_id: "minDuration \<le> x \<Longrightarrow> x \<le> maxDuration \<Longrightarrow> to_int64 x = x"
  by (simp add: to_int64_def minDuration_def maxDuration_def)

lemma time_Sub_exact:
  "minDuration \<le> t - u \<Longrightarrow> t - u \<le> maxDuration \<Longrightarrow> time_Sub t u = t - u"
  by (simp add: time_Sub_def)

lemma time_Sub_mono: "t \<le> t' \<Longrightarrow> time_Sub t u \<le> time_Sub t' u"
  by (auto simp: time_Sub_def)

lemma go_div_nonneg: "0 \<le> a \<Longrightarrow> 0 < b \<Longrightarrow> go_div a b = a div b"
  by (cases "a = 0") (auto simp: go_div_def)

text \<open>A quotient brackets its dividend.\<close>

lemma int_div_bracket:
  fixes a b :: int
  assumes "0 < b"
  shows "(a div b) * b \<le> a" "a < (a div b + 1) * b"
proof -
  have eq: "(a div b) * b + a mod b = a" by simp
  have m: "0 \<le> a mod b" "a mod b < b" using assms by simp_all
  show "(a div b) * b \<le> a" using eq m by linarith
  show "a < (a div b + 1) * b" using eq m unfolding distrib_right mult_1 by linarith
qed

lemma of_char_dec_digit [simp]: "n < 10 \<Longrightarrow> of_char (dec_digit n) = 48 + n"
  by (simp add: dec_digit_def)

lemma dec_value_snoc [simp]: "dec_value (s @ [c]) = 10 * dec_value s + (of_char c - 48)"
  by (simp add: dec_value_def)

text \<open>Reading back the decimal numeral gives the number: the rendering is injective.\<close>

lemma dec_value_dec_of_nat [simp]: "dec_value (dec_of_nat n) = n"
proof (induction n rule: dec_of_nat.induct)
  case (1 n)
  show ?case
  proof (cases "n < 10")
    case True
    then show ?thesis by (simp add: dec_of_nat.simps [of n] dec_value_def)
  next
    case False
    with 1 show ?thesis by (simp add: dec_of_nat.simps [of n])
  qed
qed

lemma dec_of_nat_inject [simp]: "dec_of_nat m = dec_of_nat n \<longleftrightarrow> m = n"
  by (metis dec_value_dec_of_nat)

lemma go_map_delete_subset: "set (go_map_delete k m) \<subseteq> set m"
  by (induction k m rule: go_map_delete.induct) auto

lemma go_map_delete_eq_filter:
  "distinct (map fst m) \<Longrightarrow> go_map_delete k m = filter (\<lambda>e. fst e \<noteq> k) m"
proof (induction k m rule: go_map_delete.induct)
  case (2 k k' v m)
  have "k = k' \<Longrightarrow> filter (\<lambda>e. fst e \<noteq> k) m = m"
    using 2 by (intro filter_True) (auto simp: image_iff)
  then show ?case using 2 by (cases "k = k'") auto
qed simp

lemma distinct_go_map_delete:
  "distinct (map f m) \<Longrightarrow> distinct (map f (go_map_delete k m))"
proof (induction k m rule: go_map_delete.induct)
  case (2 k k' v m)
  then show ?case using go_map_delete_subset [of k m] by auto
qed simp

lemma map_of_go_map_delete:
  "distinct (map fst m) \<Longrightarrow> map_of (go_map_delete k m) = (map_of m)(k := None)"
proof (induction k m rule: go_map_delete.induct)
  case (2 k k' v m)
  then show ?case
    by (auto simp: fun_upd_twist fun_eq_iff map_of_eq_None_iff)
qed simp

lemma map_of_go_map_put [simp]: "map_of (go_map_put k v m) = (map_of m)(k \<mapsto> v)"
  by (induction k v m rule: go_map_put.induct) (auto simp: fun_upd_twist)

lemma keys_go_map_put: "fst ` set (go_map_put k v m) = insert k (fst ` set m)"
  by (induction k v m rule: go_map_put.induct) auto

lemma set_go_map_put:
  "distinct (map fst m) \<Longrightarrow> set (go_map_put k v m) = insert (k, v) {e \<in> set m. fst e \<noteq> k}"
proof (induction k v m rule: go_map_put.induct)
  case (2 k v k' v' m)
  then show ?case by (auto simp: image_iff)
qed simp

lemma set_go_map_delete:
  "distinct (map fst m) \<Longrightarrow> set (go_map_delete k m) = {e \<in> set m. fst e \<noteq> k}"
  by (auto simp: go_map_delete_eq_filter)

lemma distinct_go_map_put:
  "distinct (map fst m) \<Longrightarrow> distinct (map fst (go_map_put k v m))"
proof (induction k v m rule: go_map_put.induct)
  case (2 k v k' v' m)
  then show ?case using keys_go_map_put [of k v m] by (auto simp: image_iff)
qed simp

lemmas go_map_simps = set_go_map_put set_go_map_delete distinct_go_map_put
  distinct_go_map_delete map_of_go_map_delete

end
