(* ===== verification/Stable_Sort.thy ===== *)
theory Stable_Sort
  imports Dmq_Prelude
begin

text \<open>
  Go's \<^verbatim>\<open>sort.SliceStable(xs, less)\<close>: the sorted permutation that keeps equivalent elements
  in their order. The model is the insertion sort \<open>sort_SliceStable\<close>; the lemma
  \<open>sort_unique\<close> shows that every list with that specification is its result, so the
  algorithm chosen does not matter. The contract of the \<^verbatim>\<open>less\<close> callback is the locale
  \<open>strict_weak_order\<close>; \<open>ordered_by_key\<close> gives it to callbacks that compare keys.
\<close>

section \<open>The sort\<close>

fun insert_by :: "('a \<Rightarrow> 'a \<Rightarrow> bool) \<Rightarrow> 'a \<Rightarrow> 'a list \<Rightarrow> 'a list" where
  "insert_by lt x [] = [x]"
| "insert_by lt x (y # ys) = (if lt y x then y # insert_by lt x ys else x # y # ys)"

fun sort_SliceStable :: "('a \<Rightarrow> 'a \<Rightarrow> bool) \<Rightarrow> 'a list \<Rightarrow> 'a list" where
  "sort_SliceStable lt [] = []"
| "sort_SliceStable lt (x # xs) = insert_by lt x (sort_SliceStable lt xs)"

definition sorted_by :: "('a \<Rightarrow> 'a \<Rightarrow> bool) \<Rightarrow> 'a list \<Rightarrow> bool" where
  "sorted_by lt xs = sorted_wrt (\<lambda>x y. \<not> lt y x) xs"

definition equiv_by :: "('a \<Rightarrow> 'a \<Rightarrow> bool) \<Rightarrow> 'a \<Rightarrow> 'a \<Rightarrow> bool" where
  "equiv_by lt x y = (\<not> lt x y \<and> \<not> lt y x)"

section \<open>Its contract\<close>

lemma mset_insert_by [simp]: "mset (insert_by lt x ys) = add_mset x (mset ys)"
  by (induction ys) auto

lemma mset_sort_SliceStable [simp]: "mset (sort_SliceStable lt xs) = mset xs"
  by (induction xs) auto

lemma set_sort_SliceStable [simp]: "set (sort_SliceStable lt xs) = set xs"
  by (metis mset_sort_SliceStable set_mset_mset)

lemma set_insert_by [simp]: "set (insert_by lt x ys) = insert x (set ys)"
  by (metis mset_insert_by set_mset_add_mset_insert set_mset_mset)

lemma length_sort_SliceStable [simp]: "length (sort_SliceStable lt xs) = length xs"
  by (metis mset_sort_SliceStable size_mset)

lemma filter_eq_replicate: "filter (\<lambda>y. y = b) xs = replicate (count (mset xs) b) b"
  by (induction xs) auto

lemma filter_all_equal:
  assumes "\<forall>y \<in> set xs. P y \<longrightarrow> y = b"
  shows "filter P xs = (if P b then replicate (count (mset xs) b) b else [])"
proof -
  have "filter P xs = filter (\<lambda>y. P b \<and> y = b) xs"
    using assms by (intro filter_cong) blast+
  then show ?thesis by (simp add: filter_eq_replicate)
qed

locale strict_weak_order =
  fixes lt :: "'a \<Rightarrow> 'a \<Rightarrow> bool"
  assumes irrefl: "\<not> lt x x"
    and trans: "lt x y \<Longrightarrow> lt y z \<Longrightarrow> lt x z"
    and incomparable_trans: "\<not> lt x y \<Longrightarrow> \<not> lt y z \<Longrightarrow> \<not> lt x z"
begin

lemma asym: "lt x y \<Longrightarrow> \<not> lt y x"
  using irrefl trans by blast

lemma sorted_insert_by: "sorted_by lt ys \<Longrightarrow> sorted_by lt (insert_by lt x ys)"
  by (induction ys)
     (auto simp: sorted_by_def dest: asym incomparable_trans)

lemma sorted_sort: "sorted_by lt (sort_SliceStable lt xs)"
  by (induction xs) (simp_all add: sorted_insert_by, simp add: sorted_by_def)

lemma equiv_trans: "equiv_by lt x y \<Longrightarrow> equiv_by lt y z \<Longrightarrow> equiv_by lt x z"
  unfolding equiv_by_def using incomparable_trans by blast

lemma equiv_refl: "equiv_by lt x x"
  by (simp add: equiv_by_def irrefl)

lemma filter_insert_by:
  "filter (equiv_by lt a) (insert_by lt x ys) = filter (equiv_by lt a) (x # ys)"
proof (induction ys)
  case (Cons y ys)
  have "lt y x \<Longrightarrow> equiv_by lt a x \<Longrightarrow> \<not> equiv_by lt a y"
    unfolding equiv_by_def using incomparable_trans by blast
  with Cons show ?case by auto
qed simp

lemma stable_sort: "filter (equiv_by lt a) (sort_SliceStable lt xs) = filter (equiv_by lt a) xs"
  by (induction xs) (auto simp: filter_insert_by)

lemma sorted_heads_equiv:
  assumes "sorted_by lt (x # xs)" "sorted_by lt (y # ys)" "mset (x # xs) = mset (y # ys)"
  shows "equiv_by lt x y"
proof -
  have "y \<in> set (x # xs)" "x \<in> set (y # ys)"
    using assms(3) by (metis list.set_intros(1) set_mset_mset)+
  then show ?thesis
    using assms(1,2) irrefl by (auto simp: sorted_by_def equiv_by_def)
qed

lemma sorted_stable_unique:
  assumes "sorted_by lt xs" "sorted_by lt ys" "mset xs = mset ys"
    and "\<And>a. filter (equiv_by lt a) xs = filter (equiv_by lt a) ys"
  shows "xs = ys"
  using assms
proof (induction xs arbitrary: ys)
  case (Cons x xs)
  then obtain y ys' where ys: "ys = y # ys'" by (cases ys) auto
  have eq: "equiv_by lt x y"
    using Cons.prems ys by (intro sorted_heads_equiv) auto
  have "filter (equiv_by lt x) (x # xs) = filter (equiv_by lt x) (y # ys')"
    using Cons.prems(4) ys by simp
  then have xy: "x = y" using eq equiv_refl [of x] by simp
  have "filter (equiv_by lt a) xs = filter (equiv_by lt a) ys'" for a
    using Cons.prems(4) [of a] ys xy by (simp split: if_splits)
  moreover have "sorted_by lt xs" "sorted_by lt ys'" "mset xs = mset ys'"
    using Cons.prems ys xy by (auto simp: sorted_by_def)
  ultimately have "xs = ys'" using Cons.IH by blast
  with ys xy show ?case by simp
qed simp

lemma sort_unique:
  assumes "sorted_by lt ys" "mset ys = mset xs"
    and "\<And>a. filter (equiv_by lt a) ys = filter (equiv_by lt a) xs"
  shows "ys = sort_SliceStable lt xs"
proof (rule sorted_stable_unique)
  show "filter (equiv_by lt a) ys = filter (equiv_by lt a) (sort_SliceStable lt xs)" for a
    by (simp only: stable_sort assms(3))
qed (simp_all add: sorted_sort assms(1,2))

text \<open>
  Where equivalent elements are equal, the result depends on the multiset of the elements
  only: the order in which a Go map was ranged over is invisible after the sort.
\<close>

lemma sort_perm_eq:
  assumes "mset xs = mset ys"
    and inj: "\<And>x y. x \<in> set xs \<Longrightarrow> y \<in> set xs \<Longrightarrow> equiv_by lt x y \<Longrightarrow> x = y"
  shows "sort_SliceStable lt xs = sort_SliceStable lt ys"
proof (rule sort_unique)
  have sets: "set xs = set ys" using assms(1) by (metis set_mset_mset)
  fix a
  show "filter (equiv_by lt a) (sort_SliceStable lt xs) = filter (equiv_by lt a) ys"
  proof (cases "\<exists>b \<in> set xs. equiv_by lt a b")
    case True
    then obtain b where b: "b \<in> set xs" "equiv_by lt a b" by blast
    have only: "\<forall>y \<in> set xs. equiv_by lt a y \<longrightarrow> y = b"
      using b inj equiv_trans by (metis equiv_by_def)
    have "filter (equiv_by lt a) xs = filter (equiv_by lt a) ys"
      using filter_all_equal [OF only] filter_all_equal [of ys "equiv_by lt a" b] only sets
        assms(1) by simp
    then show ?thesis by (simp add: stable_sort)
  next
    case False
    then have "filter (equiv_by lt a) xs = []" "filter (equiv_by lt a) ys = []"
      using sets by (auto simp: filter_empty_conv)
    then show ?thesis by (simp add: stable_sort)
  qed
qed (simp_all add: sorted_sort assms(1))

end

text \<open>A \<^verbatim>\<open>less\<close> callback that compares a key in a linear order meets the contract.\<close>

locale ordered_by_key =
  fixes lt :: "'a \<Rightarrow> 'a \<Rightarrow> bool" and key :: "'a \<Rightarrow> 'k::linorder"
  assumes less_key: "lt x y \<longleftrightarrow> key x < key y"

sublocale ordered_by_key \<subseteq> strict_weak_order lt
  by unfold_locales (auto simp: less_key)

context ordered_by_key
begin

lemma equiv_key: "equiv_by lt x y \<longleftrightarrow> key x = key y"
  by (auto simp: equiv_by_def less_key)

lemma sorted_key: "sorted (map key (sort_SliceStable lt xs))"
  using sorted_sort [of xs] by (simp add: sorted_by_def sorted_map less_key not_less)

lemma sort_det: "mset xs = mset ys \<Longrightarrow> inj_on key (set xs) \<Longrightarrow>
    sort_SliceStable lt xs = sort_SliceStable lt ys"
  by (rule sort_perm_eq) (auto simp: equiv_key inj_on_def)

end

end
