(* ===== verification/Go_Errors.thy ===== *)
theory Go_Errors
  imports Dmq_Prelude
begin

text \<open>
  \<^verbatim>\<open>errors.go\<close> and Go's error values. A sentinel of \<^verbatim>\<open>errors.go\<close> is a constructor of
  \<open>sentinel\<close>; \<^verbatim>\<open>errors.New(s)\<close> is \<open>ErrorNew s\<close>; \<^verbatim>\<open>fmt.Errorf(f, args...)\<close> is
  \<open>Errorf f args\<close> with the format string and its arguments kept as they are, so that the
  errors wrapped with \<^verbatim>\<open>%w\<close> are visible to \<open>errors_is\<close>. Where the sources take the text
  \<^verbatim>\<open>err.Error()\<close> of such an error, the model keeps the error. The last three sentinels
  are the standard library's \<^verbatim>\<open>context.Canceled\<close> and \<^verbatim>\<open>net.ErrClosed\<close> and the
  error of the local-state-query client for a protocol version without the snapshot query.
\<close>

datatype sentinel =
    ErrManagerClosed
  | ErrTopicExists
  | ErrTopicNotFound
  | ErrSignerRequired
  | ErrAuthenticatorRequired
  | ErrDuplicateMessage
  | ErrQueueFull
  | ErrSubscriptionClosed
  | ErrMessageExpired
  | ErrMessageTTLTooFar
  | ErrMessageBodyTooLarge
  | ErrMessageExpiryOutOfRange
  | ErrMessageIDMismatch
  | ErrNetworkMagicRequired
  | ErrAuthenticationRequired
  | ErrLedgerPeerSnapshotUnsupported
  | ErrLedgerPeerSnapshotProviderUnset
  | ErrKESKeyMismatch
  | ContextCanceled
  | NetErrClosed
  | ErrLedgerPeerSnapshotUnsupportedVersion

datatype go_error =
    Sentinel sentinel
  | ErrorNew string
  | Errorf string "fmt_arg list"
and fmt_arg =
    WrapArg go_error
  | IntArg int
  | StrArg string
  | HexArg bytes
  | DurArg duration
  | TimeArg gotime

type_synonym 'a result = "go_error + 'a"

text \<open>\<^verbatim>\<open>errors.Is(err, sentinel)\<close>: every error argument of the sources' formats is a \<^verbatim>\<open>%w\<close>.\<close>

primrec errors_is :: "go_error \<Rightarrow> sentinel \<Rightarrow> bool" and errors_is_arg :: "fmt_arg \<Rightarrow> sentinel \<Rightarrow> bool" where
  "errors_is (Sentinel s) t = (s = t)"
| "errors_is (ErrorNew m) t = False"
| "errors_is (Errorf f args) t = list_ex id (map (\<lambda>a. errors_is_arg a t) args)"
| "errors_is_arg (WrapArg e) t = errors_is e t"
| "errors_is_arg (IntArg i) t = False"
| "errors_is_arg (StrArg s) t = False"
| "errors_is_arg (HexArg b) t = False"
| "errors_is_arg (DurArg d) t = False"
| "errors_is_arg (TimeArg d) t = False"

abbreviation errors_is_opt :: "go_error option \<Rightarrow> sentinel \<Rightarrow> bool" where
  "errors_is_opt e t \<equiv> (case e of None \<Rightarrow> False | Some x \<Rightarrow> errors_is x t)"

text \<open>\<^verbatim>\<open>errors.Join\<close>: nil values are dropped, and nothing left is nil.\<close>

primrec join_args :: "go_error option list \<Rightarrow> fmt_arg list" where
  "join_args [] = []"
| "join_args (e # errs) = (case e of None \<Rightarrow> join_args errs | Some x \<Rightarrow> WrapArg x # join_args errs)"

definition errors_Join :: "go_error option list \<Rightarrow> go_error option" where
  "errors_Join errs = (let es = join_args errs in if es = [] then None else Some (Errorf ''join'' es))"

lemma errors_Join_None: "errors_Join errs = None \<longleftrightarrow> (\<forall>e \<in> set errs. e = None)"
  by (induction errs) (auto simp: errors_Join_def Let_def split: option.splits)

end
