(* ===== verification/Peer_Discovery.thy ===== *)
theory Peer_Discovery
  imports Stable_Sort Go_Errors
begin

text \<open>
  The data and the pure functions of \<^verbatim>\<open>discovery.go\<close>: peers, topology and ledger relays,
  their conversion to peers, and the big-ledger pool selection. The selector is
  in \<open>Peer_Selector\<close>.
\<close>

section \<open>Peers\<close>

type_synonym PeerSource = string

abbreviation PeerSourceStatic :: PeerSource where
  "PeerSourceStatic \<equiv> ''static''"
abbreviation PeerSourceTopologyLocalRoot :: PeerSource where
  "PeerSourceTopologyLocalRoot \<equiv> ''topology-local-root''"
abbreviation PeerSourceTopologyPublic :: PeerSource where
  "PeerSourceTopologyPublic \<equiv> ''topology-public-root''"
abbreviation PeerSourceTopologyBootstrap :: PeerSource where
  "PeerSourceTopologyBootstrap \<equiv> ''topology-bootstrap''"
abbreviation PeerSourcePeerSharing :: PeerSource where
  "PeerSourcePeerSharing \<equiv> ''peer-sharing''"
abbreviation PeerSourceLedger :: PeerSource where
  "PeerSourceLedger \<equiv> ''ledger''"
abbreviation PeerSourceBigLedger :: PeerSource where
  "PeerSourceBigLedger \<equiv> ''big-ledger''"

record Peer =
  p_Address :: string
  p_Host :: string
  p_Port :: u64
  p_Source :: PeerSource
  p_PoolID :: string
  p_Stake :: u64
  p_Valency :: u64
  p_WarmValency :: u64
  p_Advertise :: bool
  p_Trustable :: bool

definition zero_Peer :: Peer where
  "zero_Peer = \<lparr>p_Address = [], p_Host = [], p_Port = 0, p_Source = [], p_PoolID = [], p_Stake = 0,
     p_Valency = 0, p_WarmValency = 0, p_Advertise = False, p_Trustable = False\<rparr>"

text \<open>\<^verbatim>\<open>net.JoinHostPort\<close>: a host with a colon is bracketed.\<close>

definition net_JoinHostPort :: "string \<Rightarrow> string \<Rightarrow> string" where
  "net_JoinHostPort host port =
     (if CHR '':'' \<in> set host then CHR ''['' # host @ '']:'' @ port else host @ '':'' @ port)"

definition newPeer :: "string \<Rightarrow> u64 \<Rightarrow> Peer \<Rightarrow> Peer" where
  "newPeer host port base =
     (let base = base\<lparr>p_Host := host, p_Port := port\<rparr>
      in if port = 0 then base\<lparr>p_Address := host\<rparr>
         else base\<lparr>p_Address := net_JoinHostPort host (dec_of_nat (unat port))\<rparr>)"

definition clonePeerPtr :: "Peer option \<Rightarrow> Peer option" where
  "clonePeerPtr peer = (case peer of None \<Rightarrow> None | Some p \<Rightarrow> Some p)"

definition clonePeers :: "Peer list \<Rightarrow> Peer list" where
  "clonePeers peers = map (\<lambda>p. p) peers"

section \<open>Topology peers\<close>

text \<open>The parts of the parsed topology file (dingo's \<^verbatim>\<open>TopologyConfig\<close>) the sources read.\<close>

record AccessPoint =
  ap_Address :: string
  ap_Port :: u64

record TopologyRoot =
  root_AccessPoints :: "AccessPoint list"
  root_Valency :: u64
  root_WarmValency :: u64
  root_Advertise :: bool
  root_Trustable :: bool

record TopologyConfig =
  topo_LocalRoots :: "TopologyRoot list"
  topo_PublicRoots :: "TopologyRoot list"
  topo_BootstrapPeers :: "AccessPoint list"

definition TopologyPeers :: "TopologyConfig option \<Rightarrow> Peer list" where
  "TopologyPeers cfg = (case cfg of None \<Rightarrow> [] | Some c \<Rightarrow>
     concat (map (\<lambda>root. map (\<lambda>ap. newPeer (ap_Address ap) (ap_Port ap)
         (zero_Peer\<lparr>p_Source := PeerSourceTopologyLocalRoot, p_Valency := root_Valency root,
            p_WarmValency := root_WarmValency root, p_Advertise := root_Advertise root,
            p_Trustable := root_Trustable root\<rparr>)) (root_AccessPoints root)) (topo_LocalRoots c))
     @ concat (map (\<lambda>root. map (\<lambda>ap. newPeer (ap_Address ap) (ap_Port ap)
         (zero_Peer\<lparr>p_Source := PeerSourceTopologyPublic, p_Valency := root_Valency root,
            p_WarmValency := root_WarmValency root, p_Advertise := root_Advertise root\<rparr>))
         (root_AccessPoints root)) (topo_PublicRoots c))
     @ map (\<lambda>ap. newPeer (ap_Address ap) (ap_Port ap)
         (zero_Peer\<lparr>p_Source := PeerSourceTopologyBootstrap\<rparr>)) (topo_BootstrapPeers c))"

section \<open>Ledger relays\<close>

type_synonym LedgerRelayKind = string

abbreviation LedgerRelaySingleHostAddress :: LedgerRelayKind where
  "LedgerRelaySingleHostAddress \<equiv> ''single-host-address''"
abbreviation LedgerRelaySingleHostName :: LedgerRelayKind where
  "LedgerRelaySingleHostName \<equiv> ''single-host-name''"
abbreviation LedgerRelaySRV :: LedgerRelayKind where
  "LedgerRelaySRV \<equiv> ''srv''"

type_synonym net_IP = bytes

record LedgerRelay =
  lr_Kind :: LedgerRelayKind
  lr_Hostname :: string
  lr_SRVName :: string
  lr_Port :: u64
  lr_IPv4 :: net_IP
  lr_IPv6 :: net_IP

record LedgerPeer =
  lp_PoolID :: string
  lp_Stake :: u64
  lp_Relays :: "LedgerRelay list"

record LedgerPeerSnapshot =
  snap_Slot :: u64
  snap_Peers :: "LedgerPeer list"

record LedgerPeerPools =
  pools_All :: "Peer list"
  pools_Big :: "Peer list"

definition IsSRV :: "LedgerRelay \<Rightarrow> bool" where
  "IsSRV r = (lr_Kind r = LedgerRelaySRV \<or> lr_SRVName r \<noteq> [] \<or>
     (lr_Kind r = [] \<and> lr_Hostname r \<noteq> [] \<and> lr_Port r = 0))"

subsection \<open>\<^verbatim>\<open>net.IP.String\<close>\<close>

definition hex_digit :: "nat \<Rightarrow> char" where
  "hex_digit n = (if n < 10 then char_of (48 + n) else char_of (87 + n))"

fun hex_of_nat :: "nat \<Rightarrow> string" where
  "hex_of_nat n = (if n < 16 then [hex_digit n] else hex_of_nat (n div 16) @ [hex_digit (n mod 16)])"

declare hex_of_nat.simps [simp del]

definition hex_byte :: "byte \<Rightarrow> string" where
  "hex_byte b = [hex_digit (unat b div 16), hex_digit (unat b mod 16)]"

fun string_join :: "string \<Rightarrow> string list \<Rightarrow> string" where
  "string_join sep [] = []"
| "string_join sep [x] = x"
| "string_join sep (x # y # xs) = x @ sep @ string_join sep (y # xs)"

fun v6_groups :: "bytes \<Rightarrow> nat list" where
  "v6_groups (a # b # bs) = (256 * unat a + unat b) # v6_groups bs"
| "v6_groups bs = []"

definition leading_zeros :: "nat list \<Rightarrow> nat" where
  "leading_zeros gs = length (takeWhile (\<lambda>g. g = 0) gs)"

text \<open>The first longest run of at least two zero groups, as (start, end); (8, 8) when there is none.\<close>

definition zero_run :: "nat list \<Rightarrow> nat \<times> nat" where
  "zero_run gs = fold (\<lambda>i (s, e). let l = leading_zeros (drop i gs)
     in if 2 \<le> l \<and> e - s < l then (i, i + l) else (s, e)) [0..<8] (8, 8)"

definition v6_string :: "nat list \<Rightarrow> string" where
  "v6_string gs = (let (s, e) = zero_run gs
     in if e \<le> s then string_join '':'' (map hex_of_nat gs)
        else string_join '':'' (map hex_of_nat (take s gs)) @ ''::'' @
             string_join '':'' (map hex_of_nat (drop e gs)))"

definition To4 :: "net_IP \<Rightarrow> net_IP option" where
  "To4 ip = (if length ip = 4 then Some ip
     else if length ip = 16 \<and> take 10 ip = replicate 10 0 \<and> ip ! 10 = 255 \<and> ip ! 11 = 255
     then Some (drop 12 ip) else None)"

definition IP_String :: "net_IP \<Rightarrow> string" where
  "IP_String ip =
     (if length ip = 0 then ''<nil>''
      else if length ip \<noteq> 4 \<and> length ip \<noteq> 16 then CHR ''?'' # concat (map hex_byte ip)
      else case To4 ip of
        Some p4 \<Rightarrow> string_join ''.'' (map (\<lambda>b. dec_of_nat (unat b)) p4)
      | None \<Rightarrow> v6_string (v6_groups ip))"

subsection \<open>Relays to peers\<close>

definition ledgerRelayPeers :: "LedgerPeer \<Rightarrow> LedgerRelay \<Rightarrow> Peer list" where
  "ledgerRelayPeers lp relay =
     (let base = zero_Peer\<lparr>p_Source := PeerSourceLedger, p_PoolID := lp_PoolID lp, p_Stake := lp_Stake lp\<rparr>
      in if IsSRV relay then
           (let host = (if lr_SRVName relay = [] then lr_Hostname relay else lr_SRVName relay)
            in if host = [] then [] else [newPeer host (lr_Port relay) base])
         else
           (let port = (if lr_Port relay = 0 then 3001 else lr_Port relay)
            in (if lr_Hostname relay \<noteq> [] then [newPeer (lr_Hostname relay) port base] else [])
             @ (if lr_IPv4 relay \<noteq> [] then [newPeer (IP_String (lr_IPv4 relay)) port base] else [])
             @ (if lr_IPv6 relay \<noteq> [] then [newPeer (IP_String (lr_IPv6 relay)) port base] else [])))"

definition ledgerPeerPoolKey :: "LedgerPeer \<Rightarrow> nat \<Rightarrow> string" where
  "ledgerPeerPoolKey peer index =
     (if lp_PoolID peer \<noteq> [] then ''pool:'' @ lp_PoolID peer else ''idx:'' @ itoa (int index))"

definition stake_less :: "Peer \<Rightarrow> Peer \<Rightarrow> bool" where
  "stake_less a b = (if p_Stake a = p_Stake b then p_Address a < p_Address b
     else p_Stake a > p_Stake b)"

section \<open>Big-ledger pools\<close>

text \<open>The first loop: the best entry of every pool, the pools in order of appearance, and the
  total stake, a \<^verbatim>\<open>uint64\<close> that wraps.\<close>

fun collect_pools :: "nat \<Rightarrow> LedgerPeer list \<Rightarrow> (string \<rightharpoonup> LedgerPeer) \<Rightarrow> string list \<Rightarrow> u64 \<Rightarrow>
    (string \<rightharpoonup> LedgerPeer) \<times> string list \<times> u64" where
  "collect_pools i [] pools order tot = (pools, order, tot)"
| "collect_pools i (peer # peers) pools order tot =
     (if lp_Stake peer = 0 then collect_pools (Suc i) peers pools order tot
      else let key = ledgerPeerPoolKey peer i in
        case pools key of
          None \<Rightarrow> collect_pools (Suc i) peers (pools(key \<mapsto> peer)) (order @ [key]) (tot + lp_Stake peer)
        | Some current \<Rightarrow>
            if lp_Stake peer > lp_Stake current
            then collect_pools (Suc i) peers (pools(key \<mapsto> peer)) order
                   (tot + (lp_Stake peer - lp_Stake current))
            else collect_pools (Suc i) peers pools order tot)"

definition pool_stake :: "(string \<rightharpoonup> LedgerPeer) \<Rightarrow> string \<Rightarrow> u64" where
  "pool_stake pools key = (case pools key of None \<Rightarrow> 0 | Some p \<Rightarrow> lp_Stake p)"

definition pool_less :: "(string \<rightharpoonup> LedgerPeer) \<Rightarrow> string \<Rightarrow> string \<Rightarrow> bool" where
  "pool_less pools k l = (if pool_stake pools k = pool_stake pools l then k < l
     else pool_stake pools k > pool_stake pools l)"

text \<open>The selection loop: pools are added until the accumulated stake reaches the threshold.\<close>

fun select_pools :: "(string \<rightharpoonup> LedgerPeer) \<Rightarrow> u64 \<Rightarrow> u64 \<Rightarrow> string list \<Rightarrow> string list" where
  "select_pools pools threshold acc [] = []"
| "select_pools pools threshold acc (key # keys) =
     (let acc' = acc + pool_stake pools key
      in if acc' \<ge> threshold then [key] else key # select_pools pools threshold acc' keys)"

fun big_relays :: "string list \<Rightarrow> nat \<Rightarrow> LedgerPeer list \<Rightarrow> Peer list" where
  "big_relays selected i [] = []"
| "big_relays selected i (peer # peers) =
     (if ledgerPeerPoolKey peer i \<in> set selected
      then concat (map (\<lambda>relay. map (\<lambda>p. p\<lparr>p_Source := PeerSourceBigLedger\<rparr>)
             (ledgerRelayPeers peer relay)) (lp_Relays peer)) @ big_relays selected (Suc i) peers
      else big_relays selected (Suc i) peers)"

definition big_pool_keys :: "LedgerPeer list \<Rightarrow> string list" where
  "big_pool_keys peers =
     (let (pools, order, tot) = collect_pools 0 peers Map.empty [] 0
      in if tot = 0 \<or> order = [] then []
         else select_pools pools (tot - tot div 10) 0 (sort_SliceStable (pool_less pools) order))"

definition bigLedgerPeers :: "LedgerPeer list \<Rightarrow> Peer list" where
  "bigLedgerPeers peers =
     (let (pools, order, tot) = collect_pools 0 peers Map.empty [] 0
      in if tot = 0 \<or> order = [] then []
         else big_relays (big_pool_keys peers) 0 peers)"

definition BuildLedgerPeerPools :: "LedgerPeerSnapshot \<Rightarrow> LedgerPeerPools" where
  "BuildLedgerPeerPools snapshot =
     (let all = concat (map (\<lambda>lp. concat (map (ledgerRelayPeers lp) (lp_Relays lp))) (snap_Peers snapshot))
      in \<lparr>pools_All = sort_SliceStable stake_less all, pools_Big = bigLedgerPeers (snap_Peers snapshot)\<rparr>)"

section \<open>The sort callbacks meet their contract\<close>

interpretation all_order: ordered_by_key stake_less "\<lambda>p. (- uint (p_Stake p), p_Address p)"
  by unfold_locales (auto simp: stake_less_def word_less_def order_le_less word_uint_eq_iff)

interpretation pool_order: ordered_by_key "pool_less pools"
  "\<lambda>k. (- uint (pool_stake pools k), k)" for pools
  by unfold_locales (auto simp: pool_less_def word_less_def order_le_less word_uint_eq_iff)

section \<open>Pools, their stake and the ninety-percent selection\<close>

text \<open>
  The reference reading of a snapshot: its entries as (pool key, stake), the stake of a pool
  as the largest stake among its entries, the pools with stake, and their total. The loop
  invariant \<open>pools_inv\<close> ties the maps and the wrapping total of the code to it.
\<close>

definition pool_entries :: "nat \<Rightarrow> LedgerPeer list \<Rightarrow> (string \<times> nat) list" where
  "pool_entries i peers = map (\<lambda>(j, p). (ledgerPeerPoolKey p j, unat (lp_Stake p))) (enumerate i peers)"

definition best_stake :: "(string \<times> nat) list \<Rightarrow> string \<Rightarrow> nat" where
  "best_stake es k = Max (insert 0 (snd ` {e \<in> set es. fst e = k}))"

definition staked_pools :: "(string \<times> nat) list \<Rightarrow> string set" where
  "staked_pools es = fst ` {e \<in> set es. snd e \<noteq> 0}"

definition total_stake :: "(string \<times> nat) list \<Rightarrow> nat" where
  "total_stake es = (\<Sum>k\<in>staked_pools es. best_stake es k)"

definition pool_relays :: "LedgerPeer \<Rightarrow> Peer list" where
  "pool_relays lp = concat (map (ledgerRelayPeers lp) (lp_Relays lp))"

definition pools_inv :: "(string \<rightharpoonup> LedgerPeer) \<Rightarrow> string list \<Rightarrow> u64 \<Rightarrow> bool" where
  "pools_inv pools order tot =
     (distinct order \<and> set order = dom pools \<and> tot = (\<Sum>k\<in>set order. pool_stake pools k))"

lemma pool_entries_simps [simp]:
  "pool_entries i [] = []"
  "pool_entries i (p # ps) = (ledgerPeerPoolKey p i, unat (lp_Stake p)) # pool_entries (Suc i) ps"
  by (simp_all add: pool_entries_def)

lemma best_stake_simps [simp]:
  "best_stake [] k = 0"
  "best_stake ((k', s) # es) k = (if k' = k then max s (best_stake es k) else best_stake es k)"
proof -
  have *: "{e \<in> set ((k', s) # es). fst e = k} =
      (if k' = k then insert (k', s) {e \<in> set es. fst e = k} else {e \<in> set es. fst e = k})"
    by auto
  show "best_stake ((k', s) # es) k = (if k' = k then max s (best_stake es k) else best_stake es k)"
    unfolding best_stake_def * by (auto simp: insert_commute [of 0])
qed (simp add: best_stake_def)

lemma staked_pools_simps [simp]:
  "staked_pools [] = {}"
  "staked_pools ((k, s) # es) = (if s = 0 then staked_pools es else insert k (staked_pools es))"
  by (force simp: staked_pools_def)+

lemma pool_stake_upd [simp]:
  "pool_stake (pools(k \<mapsto> p)) l = (if l = k then lp_Stake p else pool_stake pools l)"
  by (simp add: pool_stake_def)

lemma pool_stake_None: "pools k = None \<Longrightarrow> pool_stake pools k = 0"
  by (simp add: pool_stake_def)

lemma pool_stake_Some: "pools k = Some p \<Longrightarrow> pool_stake pools k = lp_Stake p"
  by (simp add: pool_stake_def)

lemma sum_pool_stake_upd:
  "key \<notin> K \<Longrightarrow> (\<Sum>k\<in>K. pool_stake (pools(key \<mapsto> p)) k) = (\<Sum>k\<in>K. pool_stake pools k)"
  by (intro sum.cong) auto

lemma pools_inv_add:
  assumes "pools_inv pools order tot" "pools key = None"
  shows "pools_inv (pools(key \<mapsto> p)) (order @ [key]) (tot + lp_Stake p)"
proof -
  have key: "key \<notin> set order" using assms by (auto simp: pools_inv_def)
  have "(\<Sum>k\<in>insert key (set order). pool_stake (pools(key \<mapsto> p)) k)
      = lp_Stake p + (\<Sum>k\<in>set order. pool_stake pools k)"
    using key by (subst sum.insert) (simp_all add: sum_pool_stake_upd del: pool_stake_upd, simp)
  moreover have "key \<notin> dom pools" using assms(2) by auto
  ultimately show ?thesis
    using assms by (simp add: pools_inv_def add.commute del: pool_stake_upd)
qed

lemma pools_inv_raise:
  assumes "pools_inv pools order tot" "pools key = Some c"
  shows "pools_inv (pools(key \<mapsto> p)) order (tot + (lp_Stake p - lp_Stake c))"
proof -
  let ?rest = "\<Sum>k\<in>set order - {key}. pool_stake pools k"
  have key: "key \<in> set order" using assms by (auto simp: pools_inv_def)
  have "(\<Sum>k\<in>set order. pool_stake (pools(key \<mapsto> p)) k) = lp_Stake p + ?rest"
    using key by (subst sum.remove [of _ key]) (simp_all add: sum_pool_stake_upd del: pool_stake_upd, simp)
  moreover have "(\<Sum>k\<in>set order. pool_stake pools k) = lp_Stake c + ?rest"
    using key assms(2) by (subst sum.remove [of _ key]) (auto simp: pool_stake_Some)
  ultimately show ?thesis
    using assms key by (simp add: pools_inv_def del: pool_stake_upd) auto
qed

lemma collect_pools_inv:
  "pools_inv pools order tot \<Longrightarrow> collect_pools i peers pools order tot = (pools', order', tot') \<Longrightarrow>
   pools_inv pools' order' tot'"
proof (induction peers arbitrary: i pools order tot)
  case (Cons peer peers)
  from Cons.prems show ?case
    by (auto simp: Let_def split: if_splits option.splits
          intro: Cons.IH pools_inv_add pools_inv_raise)
qed simp

lemma collect_pools_stake:
  "unat (pool_stake (fst (collect_pools i peers pools order tot)) k)
   = max (unat (pool_stake pools k)) (best_stake (pool_entries i peers) k)"
  by (induction peers arbitrary: i pools order tot)
     (auto simp: Let_def pool_stake_None pool_stake_Some word_less_nat_alt split: option.splits)

lemma collect_pools_dom:
  "dom (fst (collect_pools i peers pools order tot)) = dom pools \<union> staked_pools (pool_entries i peers)"
  by (induction peers arbitrary: i pools order tot)
     (auto simp: Let_def unat_eq_0 split: option.splits)

lemma select_pools_prefix: "\<exists>rest. keys = select_pools pools thr acc keys @ rest"
  by (induction pools thr acc keys rule: select_pools.induct) (auto simp: Let_def)

lemma select_pools_reaches:
  assumes "keys \<noteq> []" "unat acc < unat thr" "unat thr \<le> unat acc + (\<Sum>k\<leftarrow>keys. unat (pool_stake pools k))"
    and "unat acc + (\<Sum>k\<leftarrow>keys. unat (pool_stake pools k)) < 2 ^ 64"
  defines "sel \<equiv> select_pools pools thr acc keys"
  shows "unat thr \<le> unat acc + (\<Sum>k\<leftarrow>sel. unat (pool_stake pools k))
    \<and> unat acc + (\<Sum>k\<leftarrow>butlast sel. unat (pool_stake pools k)) < unat thr \<and> sel \<noteq> []"
  using assms(1-4) unfolding sel_def
proof (induction keys arbitrary: acc)
  case (Cons key keys)
  let ?s = "pool_stake pools key"
  have sum: "unat (acc + ?s) = unat acc + unat ?s"
    using Cons.prems(4) by (subst unat_add_lem [THEN iffD1]) simp_all
  show ?case
  proof (cases "thr \<le> acc + ?s")
    case True
    then show ?thesis using Cons.prems sum by (simp add: word_le_nat_alt)
  next
    case False
    then have lt: "unat (acc + ?s) < unat thr" by (simp add: word_le_nat_alt)
    have "keys \<noteq> []" using lt Cons.prems(3) sum by (cases keys) auto
    then show ?thesis
      using Cons.IH [of "acc + ?s"] Cons.prems lt sum False by (simp add: Let_def)
  qed
qed simp

lemma sum_list_sort_pools:
  "distinct order \<Longrightarrow> (\<Sum>k\<leftarrow>sort_SliceStable lt order. f k) = (\<Sum>k\<in>set order. f k)"
proof -
  assume d: "distinct order"
  then have "distinct (sort_SliceStable lt order)"
    by (metis mset_sort_SliceStable mset_eq_imp_distinct_iff)
  then show ?thesis by (simp add: sum_list_distinct_conv_sum_set)
qed

lemma unat_sum_no_wrap:
  fixes f :: "'b \<Rightarrow> u64"
  assumes "finite K" "(\<Sum>k\<in>K. unat (f k)) < 2 ^ 64"
  shows "unat (\<Sum>k\<in>K. f k) = (\<Sum>k\<in>K. unat (f k))"
  using assms
proof (induction K rule: finite_induct)
  case (insert x K)
  then show ?case by (simp add: unat_word_ariths)
qed simp

text \<open>What the collecting loop has established when the pools are sorted.\<close>

lemma collected_pools:
  assumes "collect_pools 0 peers Map.empty [] 0 = (pools, order, tot)"
  shows "distinct order" "set order = staked_pools (pool_entries 0 peers)"
    and "tot = (\<Sum>k\<in>set order. pool_stake pools k)"
    and "unat (pool_stake pools k) = best_stake (pool_entries 0 peers) k"
proof -
  have "pools_inv pools order tot"
    using collect_pools_inv [OF _ assms] by (simp add: pools_inv_def)
  moreover have "dom pools = staked_pools (pool_entries 0 peers)"
    using collect_pools_dom [of 0 peers Map.empty "[]" 0] assms by simp
  ultimately show "distinct order" "set order = staked_pools (pool_entries 0 peers)"
    "tot = (\<Sum>k\<in>set order. pool_stake pools k)"
    by (simp_all add: pools_inv_def)
  show "unat (pool_stake pools k) = best_stake (pool_entries 0 peers) k"
    using collect_pools_stake [of 0 peers Map.empty "[]" 0 k] assms
    by (simp add: pool_stake_None)
qed

lemma best_stake_pos: "k \<in> staked_pools es \<Longrightarrow> 0 < best_stake es k"
  by (induction es) (auto split: if_splits)

lemma finite_staked_pools [simp]: "finite (staked_pools es)"
  by (simp add: staked_pools_def)

lemma total_stake_pos: "staked_pools es \<noteq> {} \<Longrightarrow> 0 < total_stake es"
  by (auto simp: total_stake_def sum_pos best_stake_pos)

lemma big_pool_keys_spec:
  fixes peers :: "LedgerPeer list"
  defines "es \<equiv> pool_entries 0 peers" and "S \<equiv> big_pool_keys peers"
  assumes "total_stake es < 2 ^ 64" and "staked_pools es \<noteq> {}"
  shows "distinct S \<and> set S \<subseteq> staked_pools es
    \<and> total_stake es - total_stake es div 10 \<le> (\<Sum>k\<in>set S. best_stake es k)
    \<and> (\<Sum>k\<in>set (butlast S). best_stake es k) < total_stake es - total_stake es div 10
    \<and> (\<forall>k\<in>set S. \<forall>l\<in>staked_pools es - set S. best_stake es l \<le> best_stake es k)"
proof -
  obtain pools order tot where c: "collect_pools 0 peers Map.empty [] 0 = (pools, order, tot)"
    by (metis prod_cases3)
  note cp = collected_pools [OF c, folded es_def]
  let ?keys = "sort_SliceStable (pool_less pools) order" and ?thr = "tot - tot div 10"
  have stakes: "unat (pool_stake pools k) = best_stake es k" for k by (rule cp(4))
  have tot: "unat tot = total_stake es"
    using assms(3) cp(2) by (simp add: cp(3) unat_sum_no_wrap stakes total_stake_def)
  have pos: "0 < unat tot" using tot total_stake_pos [OF assms(4)] by simp
  have thr: "unat ?thr = total_stake es - total_stake es div 10"
    by (simp add: unat_sub word_le_nat_alt unat_div tot)
  have sums: "(\<Sum>k\<leftarrow>?keys. unat (pool_stake pools k)) = total_stake es"
    using cp(1,2) by (simp add: sum_list_sort_pools total_stake_def stakes)
  have S: "S = select_pools pools ?thr 0 ?keys"
    using pos cp(2) assms(4) by (auto simp: S_def big_pool_keys_def c Let_def)
  have ne: "?keys \<noteq> []" using cp(2) assms(4) by (metis set_sort_SliceStable set_empty)
  have "unat (0::u64) < unat ?thr" using thr tot pos by (simp add: div_less_dividend)
  then have sel: "unat ?thr \<le> (\<Sum>k\<leftarrow>S. unat (pool_stake pools k))"
      "(\<Sum>k\<leftarrow>butlast S. unat (pool_stake pools k)) < unat ?thr"
    using select_pools_reaches [OF ne, of 0 ?thr pools] assms(3) sums thr unfolding S by simp_all
  obtain rest where rest: "?keys = S @ rest" using select_pools_prefix S by metis
  have dk: "distinct ?keys" using cp(1) by (metis mset_sort_SliceStable mset_eq_imp_distinct_iff)
  have dS: "distinct S" using dk rest by simp
  have setS: "set ?keys = staked_pools es" using cp(2) by simp
  have desc: "best_stake es l \<le> best_stake es k" if "k \<in> set S" "l \<in> staked_pools es - set S" for k l
  proof -
    have "l \<in> set rest" using that(2) setS rest by auto
    then have "\<not> pool_less pools l k"
      using pool_order.sorted_sort [of pools order] that(1) rest
      by (auto simp: sorted_by_def sorted_wrt_append)
    then show ?thesis
      unfolding stakes [symmetric] by (auto simp: pool_less_def word_less_nat_alt split: if_splits)
  qed
  show ?thesis
    using dS setS rest sel thr desc
    by (auto simp: stakes sum_list_distinct_conv_sum_set distinct_butlast)
qed

text \<open>
  C34: When the pools' stakes do not overflow a \<^verbatim>\<open>uint64\<close>, the pools that
  \<open>bigLedgerPeers\<close> selects are distinct staked pools that together hold at least the
  threshold \<open>total - total div 10\<close> (ninety percent), dropping the last one falls below it
  (the selection is the shortest prefix), and no unselected pool has more stake than a
  selected one.
\<close>

theorem big_pool_keys_ninety:
  fixes peers :: "LedgerPeer list"
  defines "es \<equiv> pool_entries 0 peers" and "S \<equiv> big_pool_keys peers"
  assumes "total_stake es < 2 ^ 64" and "staked_pools es \<noteq> {}"
  shows "distinct S \<and> set S \<subseteq> staked_pools es
    \<and> total_stake es - total_stake es div 10 \<le> (\<Sum>k\<in>set S. best_stake es k)
    \<and> (\<Sum>k\<in>set (butlast S). best_stake es k) < total_stake es - total_stake es div 10
    \<and> (\<forall>k\<in>set S. \<forall>l\<in>staked_pools es - set S. best_stake es l \<le> best_stake es k)"
  using assms(3,4) unfolding es_def S_def by (rule big_pool_keys_spec)

definition ex_ledger_peers :: "LedgerPeer list" where
  "ex_ledger_peers =
     [\<lparr>lp_PoolID = ''a'', lp_Stake = 35, lp_Relays = []\<rparr>, \<lparr>lp_PoolID = ''b'', lp_Stake = 5, lp_Relays = []\<rparr>,
      \<lparr>lp_PoolID = ''c'', lp_Stake = 60, lp_Relays = []\<rparr>, \<lparr>lp_PoolID = ''a'', lp_Stake = 20, lp_Relays = []\<rparr>]"

theorem big_pool_keys_ninety_witness:
  "total_stake (pool_entries 0 ex_ledger_peers) = 100 \<and> big_pool_keys ex_ledger_peers = [''pool:c'', ''pool:a'']
   \<and> 90 \<le> (\<Sum>k\<in>set (big_pool_keys ex_ledger_peers). best_stake (pool_entries 0 ex_ledger_peers) k)"
proof -
  have t: "total_stake (pool_entries 0 ex_ledger_peers) = 100" by code_simp
  have s: "staked_pools (pool_entries 0 ex_ledger_peers) \<noteq> {}" by code_simp
  have k: "big_pool_keys ex_ledger_peers = [''pool:c'', ''pool:a'']" by code_simp
  show ?thesis using big_pool_keys_ninety [of ex_ledger_peers] t s k by simp
qed

section \<open>The two pools of a snapshot\<close>

lemma map_retag_pool_relays:
  "concat (map (\<lambda>relay. map f (ledgerRelayPeers lp relay)) (lp_Relays lp)) = map f (pool_relays lp)"
  by (simp add: pool_relays_def map_concat comp_def)

lemma big_relays_eq:
  "big_relays sel i peers = map (\<lambda>p. p\<lparr>p_Source := PeerSourceBigLedger\<rparr>)
     (concat (map (\<lambda>(j, lp). pool_relays lp)
        (filter (\<lambda>(j, lp). ledgerPeerPoolKey lp j \<in> set sel) (enumerate i peers))))"
  by (induction peers arbitrary: i) (simp_all add: map_retag_pool_relays)

lemma bigLedgerPeers_eq: "bigLedgerPeers peers = big_relays (big_pool_keys peers) 0 peers"
proof (cases "big_pool_keys peers = []")
  case True
  have "big_relays [] i ps = []" for i ps by (induction ps arbitrary: i) auto
  with True show ?thesis by (auto simp: bigLedgerPeers_def split: prod.splits)
next
  case False
  then show ?thesis by (auto simp: bigLedgerPeers_def big_pool_keys_def split: prod.splits if_splits)
qed

text \<open>
  \<open>BuildLedgerPeerPools\<close> returns, as the full pool, exactly the relay peers of all the
  snapshot's pools, ordered by descending stake and then by address, and, as the big pool, the
  relay peers of exactly the entries whose pool key is selected, in snapshot order and
  retagged as big-ledger peers.
\<close>

theorem BuildLedgerPeerPools_pools:
  "mset (pools_All (BuildLedgerPeerPools s)) = mset (concat (map pool_relays (snap_Peers s)))
   \<and> sorted (map (\<lambda>p. (- uint (p_Stake p), p_Address p)) (pools_All (BuildLedgerPeerPools s)))
   \<and> pools_Big (BuildLedgerPeerPools s) = map (\<lambda>p. p\<lparr>p_Source := PeerSourceBigLedger\<rparr>)
       (concat (map (\<lambda>(j, lp). pool_relays lp)
          (filter (\<lambda>(j, lp). ledgerPeerPoolKey lp j \<in> set (big_pool_keys (snap_Peers s)))
             (enumerate 0 (snap_Peers s)))))"
proof -
  have "(\<lambda>lp. concat (map (ledgerRelayPeers lp) (lp_Relays lp))) = pool_relays"
    by (simp add: fun_eq_iff pool_relays_def)
  then show ?thesis
    by (simp add: BuildLedgerPeerPools_def Let_def bigLedgerPeers_eq big_relays_eq all_order.sorted_key)
qed

end
