(* ===== verification/Peer_Selector.thy ===== *)
theory Peer_Selector
  imports Peer_Discovery
begin

text \<open>
  \<^verbatim>\<open>PeerSelector\<close> of \<^verbatim>\<open>discovery.go\<close>: peers keyed by source and address, the sorted peer
  list, and the selection under per-class quotas. The Go map of peers is an association list
  (the order of one particular iteration); \<open>Peers_order_independent\<close> shows that the result
  of \<open>Peers\<close> does not depend on it.
\<close>

section \<open>The selector\<close>

record PeerSelectionConfig =
  psc_TopologyQuota :: int
  psc_PeerShareQuota :: int
  psc_LedgerQuota :: int
  psc_BigLedgerQuota :: int

record PeerSelector =
  ps_cfg :: PeerSelectionConfig
  ps_peers :: "(string \<times> Peer) list"

definition NewPeerSelector :: "PeerSelectionConfig \<Rightarrow> PeerSelector" where
  "NewPeerSelector cfg = \<lparr>ps_cfg = cfg, ps_peers = []\<rparr>"

definition peer_key :: "Peer \<Rightarrow> string" where
  "peer_key peer = p_Source peer @ ''/'' @ p_Address peer"

text \<open>The address a peer is stored under: \<open>None\<close> for a peer the code skips.\<close>

definition resolvePeer :: "Peer \<Rightarrow> Peer option" where
  "resolvePeer peer =
     (if p_Address peer = [] then
        (if p_Host peer = [] then None else Some (newPeer (p_Host peer) (p_Port peer) peer))
      else Some peer)"

fun addPeersLocked :: "(string \<times> Peer) list \<Rightarrow> Peer list \<Rightarrow> (string \<times> Peer) list" where
  "addPeersLocked m [] = m"
| "addPeersLocked m (peer # peers) =
     (case resolvePeer peer of
        None \<Rightarrow> addPeersLocked m peers
      | Some p \<Rightarrow> addPeersLocked (go_map_put (peer_key p) p m) peers)"

definition AddPeers :: "PeerSelector \<Rightarrow> Peer list \<Rightarrow> PeerSelector" where
  "AddPeers s peers = s\<lparr>ps_peers := addPeersLocked (ps_peers s) peers\<rparr>"

definition setPeersForSources :: "PeerSelector \<Rightarrow> PeerSource list \<Rightarrow> Peer list \<Rightarrow> PeerSelector" where
  "setPeersForSources s sources peers =
     s\<lparr>ps_peers := addPeersLocked (filter (\<lambda>(key, peer). p_Source peer \<notin> set sources) (ps_peers s)) peers\<rparr>"

definition peer_less :: "Peer \<Rightarrow> Peer \<Rightarrow> bool" where
  "peer_less a b = (if p_Source a = p_Source b then p_Address a < p_Address b
     else p_Source a < p_Source b)"

definition sortPeers :: "Peer list \<Rightarrow> Peer list" where
  "sortPeers peers = sort_SliceStable peer_less peers"

definition Peers :: "PeerSelector \<Rightarrow> Peer list" where
  "Peers s = sortPeers (map snd (ps_peers s))"

type_synonym peerQuotaClass = string

definition isTopologyQuotaSource :: "PeerSource \<Rightarrow> bool" where
  "isTopologyQuotaSource source =
     (source = PeerSourceTopologyLocalRoot \<or> source = PeerSourceTopologyPublic
      \<or> source = PeerSourceTopologyBootstrap \<or> source = PeerSourceStatic)"

definition quotaForSource :: "PeerSource \<Rightarrow> PeerSelectionConfig \<Rightarrow> peerQuotaClass \<times> int" where
  "quotaForSource source cfg =
     (if isTopologyQuotaSource source then (''topology'', psc_TopologyQuota cfg)
      else if source = PeerSourcePeerSharing then (''peer-sharing'', psc_PeerShareQuota cfg)
      else if source = PeerSourceLedger then (''ledger'', psc_LedgerQuota cfg)
      else if source = PeerSourceBigLedger then (''big-ledger'', psc_BigLedgerQuota cfg)
      else (source, 0))"

text \<open>The selection loop; \<open>counts\<close> is Go's map with its zero default, \<open>k\<close> the number selected so far.\<close>

fun Select_loop :: "PeerSelectionConfig \<Rightarrow> int \<Rightarrow> (peerQuotaClass \<Rightarrow> int) \<Rightarrow> int \<Rightarrow> Peer list \<Rightarrow> Peer list" where
  "Select_loop cfg n counts k [] = []"
| "Select_loop cfg n counts k (peer # peers) =
     (let (class, quota) = quotaForSource (p_Source peer) cfg
      in if quota > 0 \<and> counts class \<ge> quota then Select_loop cfg n counts k peers
         else if n > 0 \<and> k + 1 \<ge> n then [peer]
         else peer # Select_loop cfg n (counts(class := counts class + 1)) (k + 1) peers)"

definition Select :: "PeerSelector \<Rightarrow> int \<Rightarrow> Peer list" where
  "Select s n = Select_loop (ps_cfg s) n (\<lambda>_. 0) 0 (Peers s)"

section \<open>Keys, uniqueness and determinism\<close>

definition keyed :: "(string \<times> Peer) list \<Rightarrow> bool" where
  "keyed m = (distinct (map fst m) \<and> (\<forall>e \<in> set m. peer_key (snd e) = fst e \<and> p_Address (snd e) \<noteq> []))"

definition selector_inv :: "PeerSelector \<Rightarrow> bool" where
  "selector_inv s = keyed (ps_peers s)"

interpretation peer_order: ordered_by_key peer_less "\<lambda>p. (p_Source p, p_Address p)"
  by unfold_locales (auto simp: peer_less_def)

lemma JoinHostPort_nonempty [simp]: "net_JoinHostPort host port \<noteq> []"
  by (simp add: net_JoinHostPort_def)

lemma resolvePeer_address: "resolvePeer peer = Some p \<Longrightarrow> p_Address p \<noteq> [] \<and> p_Source p = p_Source peer"
  by (auto simp: resolvePeer_def newPeer_def Let_def split: if_splits)

lemma keyed_put: "keyed m \<Longrightarrow> p_Address p \<noteq> [] \<Longrightarrow> keyed (go_map_put (peer_key p) p m)"
  by (auto simp: keyed_def set_go_map_put distinct_go_map_put)

lemma keyed_filter: "keyed m \<Longrightarrow> keyed (filter P m)"
  by (simp add: keyed_def distinct_map_filter)

lemma keyed_addPeersLocked: "keyed m \<Longrightarrow> keyed (addPeersLocked m peers)"
  by (induction m peers rule: addPeersLocked.induct)
     (fastforce intro: keyed_put dest: resolvePeer_address split: option.splits)+

lemma selector_inv_New [simp]: "selector_inv (NewPeerSelector cfg)"
  by (simp add: selector_inv_def keyed_def NewPeerSelector_def)

lemma selector_inv_AddPeers: "selector_inv s \<Longrightarrow> selector_inv (AddPeers s peers)"
  by (simp add: selector_inv_def AddPeers_def keyed_addPeersLocked)

lemma selector_inv_setPeersForSources:
  "selector_inv s \<Longrightarrow> selector_inv (setPeersForSources s sources peers)"
  by (simp add: selector_inv_def setPeersForSources_def keyed_addPeersLocked keyed_filter)

lemmas selector_inv_intros = selector_inv_New selector_inv_AddPeers selector_inv_setPeersForSources

lemma selector_inv_inj:
  assumes "selector_inv s"
  shows "inj_on (\<lambda>p. (p_Source p, p_Address p)) (set (map snd (ps_peers s)))"
proof (rule inj_onI)
  fix p q
  assume "p \<in> set (map snd (ps_peers s))" "q \<in> set (map snd (ps_peers s))"
    and eq: "(p_Source p, p_Address p) = (p_Source q, p_Address q)"
  then have "(peer_key p, p) \<in> set (ps_peers s)" "(peer_key q, q) \<in> set (ps_peers s)"
    using assms by (force simp: selector_inv_def keyed_def)+
  moreover have "peer_key p = peer_key q" using eq by (simp add: peer_key_def)
  ultimately show "p = q"
    using assms by (auto simp: selector_inv_def keyed_def eq_key_imp_eq_value)
qed

text \<open>
  \<open>Peers\<close> is deterministic: whatever order the runtime ranges over the selector's map
  in, the sorted result is the same list, because no two stored peers share source and address.
\<close>

theorem Peers_order_independent:
  assumes "selector_inv s" and "mset m = mset (ps_peers s)"
  shows "Peers (s\<lparr>ps_peers := m\<rparr>) = Peers s"
proof -
  have "mset (map snd m) = mset (map snd (ps_peers s))"
    using assms(2) by (simp add: mset_map)
  moreover have "set (map snd m) = set (map snd (ps_peers s))"
    using calculation by (metis set_mset_mset)
  ultimately show ?thesis
    using peer_order.sort_det [of "map snd m"] selector_inv_inj [OF assms(1)]
    by (simp add: Peers_def sortPeers_def)
qed

definition ex_selector :: PeerSelector where
  "ex_selector = AddPeers (NewPeerSelector \<lparr>psc_TopologyQuota = 1, psc_PeerShareQuota = 0,
     psc_LedgerQuota = 0, psc_BigLedgerQuota = 0\<rparr>)
     [zero_Peer\<lparr>p_Address := ''b'', p_Source := PeerSourceStatic\<rparr>,
      zero_Peer\<lparr>p_Host := ''a'', p_Source := PeerSourceStatic\<rparr>,
      zero_Peer\<lparr>p_Address := ''c'', p_Source := PeerSourceLedger\<rparr>]"

lemma ex_selector_inv: "selector_inv ex_selector"
  by (simp add: ex_selector_def selector_inv_AddPeers)

theorem Peers_order_independent_witness:
  "Peers (ex_selector\<lparr>ps_peers := rev (ps_peers ex_selector)\<rparr>) = Peers ex_selector
   \<and> ps_peers ex_selector \<noteq> rev (ps_peers ex_selector)"
  by (intro conjI Peers_order_independent ex_selector_inv) (simp, code_simp)

section \<open>What the updates store\<close>

definition resolved :: "Peer list \<Rightarrow> (string \<times> Peer) list" where
  "resolved peers = map (\<lambda>p. (peer_key p, p)) (List.map_filter resolvePeer peers)"

lemma resolved_simps [simp]:
  "resolved [] = []"
  "resolved (peer # peers) = (case resolvePeer peer of None \<Rightarrow> resolved peers
     | Some p \<Rightarrow> (peer_key p, p) # resolved peers)"
  by (simp_all add: resolved_def map_filter_simps split: option.splits)

lemma map_of_addPeersLocked:
  "map_of (addPeersLocked m peers) = map_of m ++ map_of (rev (resolved peers))"
  by (induction m peers rule: addPeersLocked.induct)
     (auto simp: map_add_def fun_eq_iff split: option.splits)

lemma map_of_filter_distinct:
  "distinct (map fst m) \<Longrightarrow>
   map_of (filter P m) k = (case map_of m k of None \<Rightarrow> None | Some v \<Rightarrow> if P (k, v) then Some v else None)"
proof (induction m)
  case (Cons e m)
  then show ?case
    by (cases e) (auto split: option.splits simp: map_of_eq_None_iff image_iff)
qed simp

text \<open>
  Replacing the peers of some sources stores, under each key, the last new peer resolved
  to it, and otherwise keeps exactly the old peers of the other sources: no stale peer of a
  refreshed source survives, and no peer of another source is lost.
\<close>

theorem setPeersForSources_exact:
  assumes "selector_inv s"
  shows "map_of (ps_peers (setPeersForSources s sources peers)) k =
    (case map_of (rev (resolved peers)) k of Some p \<Rightarrow> Some p
     | None \<Rightarrow> (case map_of (ps_peers s) k of None \<Rightarrow> None
         | Some p \<Rightarrow> if p_Source p \<in> set sources then None else Some p))"
  using assms
  by (auto simp: setPeersForSources_def map_of_addPeersLocked map_add_def map_of_filter_distinct
      selector_inv_def keyed_def split: option.splits)

theorem setPeersForSources_exact_witness:
  "map_of (ps_peers ex_selector) ''ledger/c'' \<noteq> None
   \<and> map_of (ps_peers (setPeersForSources ex_selector [PeerSourceLedger] [])) ''ledger/c'' = None"
proof -
  have "map_option p_Source (map_of (ps_peers ex_selector) ''ledger/c'') = Some PeerSourceLedger" by code_simp
  then show ?thesis
    using setPeersForSources_exact [OF ex_selector_inv, of "[PeerSourceLedger]" "[]" "''ledger/c''"] by auto
qed

section \<open>Selection under quotas\<close>

definition quota_class :: "PeerSelectionConfig \<Rightarrow> Peer \<Rightarrow> peerQuotaClass \<times> int" where
  "quota_class cfg p = quotaForSource (p_Source p) cfg"

definition quota_by_class :: "PeerSelectionConfig \<Rightarrow> peerQuotaClass \<Rightarrow> int" where
  "quota_by_class cfg c = (if c = ''topology'' then psc_TopologyQuota cfg
     else if c = ''peer-sharing'' then psc_PeerShareQuota cfg
     else if c = ''ledger'' then psc_LedgerQuota cfg
     else if c = ''big-ledger'' then psc_BigLedgerQuota cfg else 0)"

lemma quota_of_class:
  "src \<noteq> ''topology'' \<Longrightarrow> quotaForSource src cfg = (c, q) \<Longrightarrow> q = quota_by_class cfg c"
  by (auto simp: quotaForSource_def quota_by_class_def split: if_splits)

lemma Select_loop_class:
  assumes "\<forall>p \<in> set peers. p_Source p \<noteq> ''topology''"
    and "\<exists>src. src \<noteq> ''topology'' \<and> quotaForSource src cfg = (c, q)" and "n \<le> 0"
  shows "filter (\<lambda>p. quota_class cfg p = (c, q)) (Select_loop cfg n counts k peers) =
    (if q > 0 then take (nat (q - counts c)) else id) (filter (\<lambda>p. quota_class cfg p = (c, q)) peers)"
  using assms(1)
proof (induction peers arbitrary: counts k)
  case (Cons p peers)
  obtain c' q' where cq: "quotaForSource (p_Source p) cfg = (c', q')" by fastforce
  have "q' = quota_by_class cfg c'" and "q = quota_by_class cfg c"
    using Cons.prems assms(2) cq quota_of_class by (metis list.set_intros(1))+
  then have same: "c' = c \<Longrightarrow> q' = q" by simp
  have step: "nat (q - counts c) = Suc (nat (q - (counts c + 1)))" if "\<not> counts c \<ge> q"
    using that by simp
  show ?case
    using Cons assms(3) cq same by (auto simp: quota_class_def step)
qed simp

text \<open>
  Without an overall limit, \<open>Select\<close> keeps, of every quota class, exactly its first
  \<open>quota\<close> peers in \<open>Peers\<close> order, and all of them where the quota is not positive. A
  peer whose source is the unreserved string \<open>topology\<close> is excluded: the code files it under
  the topology class with no quota of its own.
\<close>

theorem Select_quota:
  assumes "\<forall>p \<in> set (Peers s). p_Source p \<noteq> ''topology''"
    and "src \<noteq> ''topology''" and "quotaForSource src (ps_cfg s) = (c, q)"
  shows "filter (\<lambda>p. quota_class (ps_cfg s) p = (c, q)) (Select s 0) =
    (if q > 0 then take (nat q) else id) (filter (\<lambda>p. quota_class (ps_cfg s) p = (c, q)) (Peers s))"
proof -
  have "\<exists>src. src \<noteq> ''topology'' \<and> quotaForSource src (ps_cfg s) = (c, q)"
    using assms(2,3) by blast
  from Select_loop_class [OF assms(1) this, of 0 "\<lambda>_. 0" 0] show ?thesis
    by (simp add: Select_def)
qed

theorem Select_quota_witness:
  "filter (\<lambda>p. quota_class (ps_cfg ex_selector) p = (''topology'', 1)) (Select ex_selector 0) =
     take 1 (filter (\<lambda>p. quota_class (ps_cfg ex_selector) p = (''topology'', 1)) (Peers ex_selector))
   \<and> map p_Address (Select ex_selector 0) = [''c'', ''a'']"
proof -
  have "\<forall>p \<in> set (Peers ex_selector). p_Source p \<noteq> ''topology''" by code_simp
  moreover have "quotaForSource PeerSourceStatic (ps_cfg ex_selector) = (''topology'', 1)" by code_simp
  moreover have "map p_Address (Select ex_selector 0) = [''c'', ''a'']" by code_simp
  ultimately show ?thesis
    using Select_quota [of ex_selector PeerSourceStatic "''topology''" 1] by simp
qed

lemma Select_loop_limit:
  assumes "n > 0" "k < n"
  shows "Select_loop cfg n counts k peers = take (nat (n - k)) (Select_loop cfg 0 counts k peers)"
  using assms(2)
proof (induction peers arbitrary: counts k)
  case (Cons p peers)
  obtain c q where cq: "quotaForSource (p_Source p) cfg = (c, q)" by fastforce
  have step: "nat (n - k) = Suc (nat (n - (k + 1)))" using Cons.prems by simp
  show ?case
    using Cons assms(1) cq by (auto simp: step simp del: fun_upd_apply)
qed simp

text \<open>A positive limit \<open>n\<close> returns the first \<open>n\<close> peers of the unlimited selection.\<close>

theorem Select_limit: "n > 0 \<Longrightarrow> Select s n = take (nat n) (Select s 0)"
  using Select_loop_limit [of n 0] by (simp add: Select_def)

theorem Select_limit_witness:
  "Select ex_selector 1 = take 1 (Select ex_selector 0) \<and> map p_Address (Select ex_selector 1) = [''c'']"
proof -
  have "map p_Address (Select ex_selector 1) = [''c'']" by code_simp
  then show ?thesis using Select_limit [of 1 ex_selector] by simp
qed

end
