(* ===== verification/Dmq_Types.thy ===== *)
theory Dmq_Types
  imports Peer_Selector
begin

text \<open>
  \<^verbatim>\<open>types.go\<close> and the configuration structs of \<^verbatim>\<open>discovery.go\<close>: the DMQ wire types the
  package aliases, envelopes, reject reasons, hooks, configurations and their defaults. Code of
  the gOuroboros library that the package calls on messages is the record \<open>gouroboros\<close>,
  a parameter of every definition that uses it; what the package relies on is
  \<open>message_id_laws\<close>.
\<close>

section \<open>DMQ messages\<close>

record DmqMessagePayload =
  pl_MessageID :: bytes
  pl_MessageBody :: bytes
  pl_KESPeriod :: u64
  pl_ExpiresAt :: u32

record OperationalCertificate =
  oc_KESVerificationKey :: bytes
  oc_IssueNumber :: u64
  oc_KESPeriod :: u64
  oc_ColdSignature :: bytes

record DmqMessage =
  m_Payload :: DmqMessagePayload
  m_KESSignature :: bytes
  m_OperationalCertificate :: OperationalCertificate
  m_ColdVerificationKey :: bytes

record MessageIDAndSize =
  ms_MessageID :: bytes
  ms_SizeInBytes :: u32

text \<open>The reject reasons; \<^verbatim>\<open>Message: err.Error()\<close> keeps the error whose text it is.\<close>

datatype RejectReason =
    InvalidReason go_error
  | AlreadyReceivedReason
  | ExpiredReason
  | OtherReason go_error

datatype MessageSource = MessageSourceLocal | MessageSourceRemote

record Message =
  env_Topic :: string
  env_Message :: DmqMessage
  env_ID :: bytes
  env_Body :: bytes
  env_Source :: MessageSource
  env_Peer :: "Peer option"
  env_ReceivedAt :: gotime

text \<open>
  The gOuroboros operations on messages. \<open>g_ValidateMessageTTLAt\<close> is
  \<^verbatim>\<open>NewTTLValidator(maxTTL, nil).ValidateMessageTTLAt(msg, now)\<close>, with the text of its error;
  \<open>g_CborEncode\<close> is \<^verbatim>\<open>cbor.Encode\<close> of a message.
\<close>

record gouroboros =
  g_ID :: "DmqMessage \<Rightarrow> bytes"
  g_SetMessageID :: "bytes \<Rightarrow> DmqMessage \<Rightarrow> DmqMessage"
  g_ComputeDmqMessageID :: "DmqMessagePayload \<Rightarrow> bytes result"
  g_ValidateMessageTTLAt :: "duration \<Rightarrow> DmqMessage \<Rightarrow> gotime \<Rightarrow> string option"
  g_CborEncode :: "DmqMessage \<Rightarrow> bytes result"

text \<open>
  What the package relies on: the message ID is a settable attribute that leaves the rest of
  the message alone, and the computed ID does not depend on it.
\<close>

definition strip_id :: "DmqMessage \<Rightarrow> DmqMessage" where
  "strip_id m = m\<lparr>m_Payload := (m_Payload m)\<lparr>pl_MessageID := []\<rparr>\<rparr>"

definition message_id_laws :: "gouroboros \<Rightarrow> bool" where
  "message_id_laws g =
     ((\<forall>i m. g_ID g (g_SetMessageID g i m) = i)
      \<and> (\<forall>i m. strip_id (g_SetMessageID g i m) = strip_id m)
      \<and> (\<forall>p i. g_ComputeDmqMessageID g (p\<lparr>pl_MessageID := i\<rparr>) = g_ComputeDmqMessageID g p))"

section \<open>Contexts, signers, providers and hooks\<close>

text \<open>A context, with the error \<^verbatim>\<open>ctx.Err()\<close> once it is done.\<close>

record gocontext =
  ctx_id :: nat
  ctx_Err :: "go_error option"

type_synonym Signer = "gocontext \<Rightarrow> string \<Rightarrow> DmqMessagePayload \<Rightarrow> DmqMessage option result"
type_synonym MessageAuthenticator = "DmqMessage \<Rightarrow> go_error option"
type_synonym LedgerPeerSnapshotKind = string
type_synonym LedgerPeerSnapshotProvider = "gocontext \<Rightarrow> LedgerPeerSnapshotKind \<Rightarrow> LedgerPeerSnapshot result"

abbreviation LedgerPeerSnapshotAll :: LedgerPeerSnapshotKind where
  "LedgerPeerSnapshotAll \<equiv> ''all-ledger-peers''"
abbreviation LedgerPeerSnapshotBig :: LedgerPeerSnapshotKind where
  "LedgerPeerSnapshotBig \<equiv> ''big-ledger-peers''"

text \<open>Which hooks are set, and the calls made to them.\<close>

record Hooks =
  hk_OnMessageAccepted :: bool
  hk_OnMessageRejected :: bool
  hk_OnPeerDiscovered :: bool
  hk_OnError :: bool

datatype hook_call =
    OnMessageAccepted Message
  | OnMessageRejected string DmqMessage RejectReason
  | OnPeerDiscovered string "Peer list"
  | OnError string go_error

record NodeToNodeHooks =
  nh_OnPeerConnected :: bool
  nh_OnPeerDisconnected :: bool
  nh_OnError :: bool

section \<open>Configuration\<close>

record LedgerPeerDiscoveryConfig =
  ld_Enabled :: bool
  ld_UseLedgerAfterSlot :: int
  ld_RefreshInterval :: duration
  ld_Target :: int
  ld_BigLedgerTarget :: int
  ld_Provider :: "LedgerPeerSnapshotProvider option"
  ld_AllowUnsupported :: bool

record DiscoveryConfig =
  dc_Topology :: "TopologyConfig option"
  dc_StaticPeers :: "Peer list"
  dc_PeerSharing :: bool
  dc_PeerSharingQuota :: int
  dc_TopologyQuota :: int
  dc_LedgerPeers :: LedgerPeerDiscoveryConfig

record QueueConfig =
  qc_MaxMessages :: int
  qc_SubscriberBuffer :: int
  qc_DuplicateTTL :: duration

record TTLPolicy =
  tp_DefaultTTL :: duration
  tp_MaxTTL :: duration
  tp_Disable :: bool

record AuthenticationConfig =
  ac_Required :: bool
  ac_Authenticator :: "MessageAuthenticator option"
  ac_AllowUnauthenticated :: bool

record ReconnectConfig =
  rc_InitialBackoff :: duration
  rc_MaxBackoff :: duration

record TopicConfig =
  tc_NetworkMagic :: u32
  tc_Discovery :: DiscoveryConfig
  tc_Queue :: QueueConfig
  tc_TTL :: TTLPolicy
  tc_Reconnect :: ReconnectConfig
  tc_Authentication :: AuthenticationConfig
  tc_Hooks :: Hooks
  tc_Signer :: "Signer option"

record ManagerConfig =
  mc_Signer :: "Signer option"
  mc_Authenticator :: "MessageAuthenticator option"

record NodeToNodeConfig =
  nc_ListenAddress :: string
  nc_Peers :: "Peer list"
  nc_RequestInterval :: duration
  nc_RequestCount :: u16
  nc_DialTimeout :: duration
  nc_Reconnect :: ReconnectConfig
  nc_Hooks :: NodeToNodeHooks

abbreviation DefaultMessageTTL :: duration where
  "DefaultMessageTTL \<equiv> 30 * Minute"
abbreviation MaxMessageTTL :: duration where
  "MaxMessageTTL \<equiv> 30 * Minute"

definition defaultReconnectConfig :: "ReconnectConfig \<Rightarrow> ReconnectConfig" where
  "defaultReconnectConfig cfg =
     (let cfg = (if rc_InitialBackoff cfg \<le> 0 then cfg\<lparr>rc_InitialBackoff := Second\<rparr> else cfg);
          cfg = (if rc_MaxBackoff cfg \<le> 0 then cfg\<lparr>rc_MaxBackoff := 2 * Minute\<rparr> else cfg);
          cfg = (if rc_MaxBackoff cfg < rc_InitialBackoff cfg
                 then cfg\<lparr>rc_MaxBackoff := rc_InitialBackoff cfg\<rparr> else cfg)
      in cfg)"

definition defaultLedgerPeers :: "LedgerPeerDiscoveryConfig \<Rightarrow> LedgerPeerDiscoveryConfig" where
  "defaultLedgerPeers cfg =
     (let cfg = (if ld_RefreshInterval cfg \<le> 0 then cfg\<lparr>ld_RefreshInterval := Hour\<rparr> else cfg);
          cfg = (if ld_Target cfg = 0 then cfg\<lparr>ld_Target := 20\<rparr> else cfg);
          cfg = (if ld_BigLedgerTarget cfg = 0 then cfg\<lparr>ld_BigLedgerTarget := 5\<rparr> else cfg)
      in cfg)"

definition defaultDiscoveryConfig :: "DiscoveryConfig \<Rightarrow> DiscoveryConfig" where
  "defaultDiscoveryConfig cfg =
     (let cfg = (if dc_TopologyQuota cfg \<le> 0 then cfg\<lparr>dc_TopologyQuota := 20\<rparr> else cfg);
          cfg = (if dc_PeerSharingQuota cfg \<le> 0 then cfg\<lparr>dc_PeerSharingQuota := 20\<rparr> else cfg)
      in cfg\<lparr>dc_LedgerPeers := defaultLedgerPeers (dc_LedgerPeers cfg)\<rparr>)"

definition defaultQueue :: "QueueConfig \<Rightarrow> QueueConfig" where
  "defaultQueue q =
     (let q = (if qc_MaxMessages q \<le> 0 then q\<lparr>qc_MaxMessages := 100\<rparr> else q);
          q = (if qc_SubscriberBuffer q \<le> 0 then q\<lparr>qc_SubscriberBuffer := 16\<rparr> else q);
          q = (if qc_DuplicateTTL q \<le> 0 then q\<lparr>qc_DuplicateTTL := 10 * Minute\<rparr> else q)
      in q)"

definition defaultTTL :: "TTLPolicy \<Rightarrow> TTLPolicy" where
  "defaultTTL t =
     (let t = (if tp_DefaultTTL t \<le> 0 then t\<lparr>tp_DefaultTTL := DefaultMessageTTL\<rparr> else t);
          t = (if tp_MaxTTL t \<le> 0 then t\<lparr>tp_MaxTTL := MaxMessageTTL\<rparr> else t);
          t = (if tp_MaxTTL t < tp_DefaultTTL t then t\<lparr>tp_MaxTTL := tp_DefaultTTL t\<rparr> else t)
      in t)"

definition defaultTopicConfig :: "TopicConfig \<Rightarrow> TopicConfig" where
  "defaultTopicConfig cfg =
     cfg\<lparr>tc_Queue := defaultQueue (tc_Queue cfg), tc_TTL := defaultTTL (tc_TTL cfg),
       tc_Reconnect := defaultReconnectConfig (tc_Reconnect cfg),
       tc_Discovery := defaultDiscoveryConfig (tc_Discovery cfg)\<rparr>"

section \<open>The defaults are sane\<close>

text \<open>The limits every other component relies on, as they hold after the defaults.\<close>

definition sane_queue :: "QueueConfig \<Rightarrow> bool" where
  "sane_queue q = (0 < qc_MaxMessages q \<and> 0 < qc_SubscriberBuffer q \<and> 0 < qc_DuplicateTTL q)"

definition sane_ttl :: "TTLPolicy \<Rightarrow> bool" where
  "sane_ttl t = (0 < tp_DefaultTTL t \<and> tp_DefaultTTL t \<le> tp_MaxTTL t)"

definition sane_reconnect :: "ReconnectConfig \<Rightarrow> bool" where
  "sane_reconnect r = (0 < rc_InitialBackoff r \<and> rc_InitialBackoff r \<le> rc_MaxBackoff r)"

definition sane_discovery :: "DiscoveryConfig \<Rightarrow> bool" where
  "sane_discovery d = (0 < dc_TopologyQuota d \<and> 0 < dc_PeerSharingQuota d
     \<and> 0 < ld_RefreshInterval (dc_LedgerPeers d) \<and> ld_Target (dc_LedgerPeers d) \<noteq> 0
     \<and> ld_BigLedgerTarget (dc_LedgerPeers d) \<noteq> 0)"

definition sane_topic_config :: "TopicConfig \<Rightarrow> bool" where
  "sane_topic_config c = (sane_queue (tc_Queue c) \<and> sane_ttl (tc_TTL c)
     \<and> sane_reconnect (tc_Reconnect c) \<and> sane_discovery (tc_Discovery c))"

lemma defaultQueue_sane [simp]: "sane_queue (defaultQueue q)"
  by (simp add: sane_queue_def defaultQueue_def Let_def)

lemma defaultTTL_sane [simp]: "sane_ttl (defaultTTL t)"
  by (simp add: sane_ttl_def defaultTTL_def Let_def)

lemma defaultReconnectConfig_sane [simp]: "sane_reconnect (defaultReconnectConfig r)"
  by (simp add: sane_reconnect_def defaultReconnectConfig_def Let_def)

lemma defaultDiscoveryConfig_sane [simp]: "sane_discovery (defaultDiscoveryConfig d)"
  by (simp add: sane_discovery_def defaultDiscoveryConfig_def defaultLedgerPeers_def Let_def)

lemma sane_queue_fixed: "sane_queue q \<Longrightarrow> defaultQueue q = q"
  by (simp add: sane_queue_def defaultQueue_def)

lemma sane_ttl_fixed: "sane_ttl t \<Longrightarrow> defaultTTL t = t"
  by (simp add: sane_ttl_def defaultTTL_def)

lemma sane_reconnect_fixed: "sane_reconnect r \<Longrightarrow> defaultReconnectConfig r = r"
  by (simp add: sane_reconnect_def defaultReconnectConfig_def)

lemma sane_discovery_fixed: "sane_discovery d \<Longrightarrow> defaultDiscoveryConfig d = d"
  by (simp add: sane_discovery_def defaultDiscoveryConfig_def defaultLedgerPeers_def)

text \<open>
  C40: Defaulting a topic configuration yields positive queue bounds, a positive TTL within its
  maximum, a positive backoff within its maximum and non-zero discovery targets, and a
  configuration that already has them is left exactly as it is (so defaulting is idempotent).
\<close>

theorem defaultTopicConfig_sane:
  "sane_topic_config (defaultTopicConfig c)
   \<and> (sane_topic_config c \<longrightarrow> defaultTopicConfig c = c)
   \<and> defaultTopicConfig (defaultTopicConfig c) = defaultTopicConfig c"
  by (simp add: sane_topic_config_def defaultTopicConfig_def sane_queue_fixed sane_ttl_fixed
      sane_reconnect_fixed sane_discovery_fixed)

definition ex_topic_config :: TopicConfig where
  "ex_topic_config = \<lparr>tc_NetworkMagic = 2,
     tc_Discovery = \<lparr>dc_Topology = None, dc_StaticPeers = [], dc_PeerSharing = False, dc_PeerSharingQuota = 1,
       dc_TopologyQuota = 1, dc_LedgerPeers = \<lparr>ld_Enabled = False, ld_UseLedgerAfterSlot = 0,
         ld_RefreshInterval = Hour, ld_Target = 1, ld_BigLedgerTarget = 1, ld_Provider = None,
         ld_AllowUnsupported = False\<rparr>\<rparr>,
     tc_Queue = \<lparr>qc_MaxMessages = 2, qc_SubscriberBuffer = 1, qc_DuplicateTTL = Minute\<rparr>,
     tc_TTL = \<lparr>tp_DefaultTTL = Minute, tp_MaxTTL = Hour, tp_Disable = False\<rparr>,
     tc_Reconnect = \<lparr>rc_InitialBackoff = Second, rc_MaxBackoff = Minute\<rparr>,
     tc_Authentication = \<lparr>ac_Required = False, ac_Authenticator = None, ac_AllowUnauthenticated = False\<rparr>,
     tc_Hooks = \<lparr>hk_OnMessageAccepted = True, hk_OnMessageRejected = True, hk_OnPeerDiscovered = False,
       hk_OnError = True\<rparr>,
     tc_Signer = None\<rparr>"

theorem defaultTopicConfig_sane_witness:
  "sane_topic_config ex_topic_config \<and> defaultTopicConfig ex_topic_config = ex_topic_config"
proof -
  have "sane_topic_config ex_topic_config"
    by (simp add: ex_topic_config_def sane_topic_config_def sane_queue_def sane_ttl_def
        sane_reconnect_def sane_discovery_def)
  with defaultTopicConfig_sane [of ex_topic_config] show ?thesis by simp
qed

section \<open>Message identity\<close>

lemma message_id_lawsD:
  assumes "message_id_laws g"
  shows "g_ID g (g_SetMessageID g i m) = i"
    and "strip_id (g_SetMessageID g i m) = strip_id m"
    and "g_ComputeDmqMessageID g (p\<lparr>pl_MessageID := i\<rparr>) = g_ComputeDmqMessageID g p"
  using assms by (simp_all add: message_id_laws_def)

text \<open>Messages with the same stripped form agree on everything but the ID.\<close>

lemma strip_id_body: "strip_id m = strip_id m' \<Longrightarrow> pl_MessageBody (m_Payload m) = pl_MessageBody (m_Payload m')"
  by (cases m; cases m'; cases "m_Payload m"; cases "m_Payload m'") (simp add: strip_id_def)

lemma compute_strip_id:
  assumes "message_id_laws g" "strip_id m = strip_id m'"
  shows "g_ComputeDmqMessageID g (m_Payload m) = g_ComputeDmqMessageID g (m_Payload m')"
proof -
  have "(m_Payload m)\<lparr>pl_MessageID := []\<rparr> = (m_Payload m')\<lparr>pl_MessageID := []\<rparr>"
    using assms(2) by (metis DmqMessage.select_convs(1) DmqMessage.surjective DmqMessage.update_convs(1) strip_id_def)
  then show ?thesis using message_id_lawsD(3) [OF assms(1)] by metis
qed

lemmas SetMessageID_simps = message_id_lawsD(1) message_id_lawsD(2) [THEN strip_id_body]
  compute_strip_id [OF _ message_id_lawsD(2)]

end
