(* ===== verification/Dmq_Payload.thy ===== *)
theory Dmq_Payload
  imports Dmq_Types
begin

text \<open>\<^verbatim>\<open>payload.go\<close>: body size, wire expiry and payload construction.\<close>

abbreviation MaxMessageBodyBytes :: int where
  "MaxMessageBodyBytes \<equiv> 2000"

definition MaxMessageExpiresAtUnix :: int where
  "MaxMessageExpiresAtUnix = 2 ^ 32 - 1"

definition cloneBytes :: "bytes \<Rightarrow> bytes" where
  "cloneBytes src = map (\<lambda>b. b) src"

definition ValidateMessageBody :: "bytes \<Rightarrow> go_error option" where
  "ValidateMessageBody body =
     (if int (length body) > MaxMessageBodyBytes
      then Some (Errorf ''%w: %d bytes (max %d)'' [WrapArg (Sentinel ErrMessageBodyTooLarge),
             IntArg (int (length body)), IntArg MaxMessageBodyBytes])
      else None)"

definition ExpiresAt :: "gotime \<Rightarrow> duration \<Rightarrow> u32 result" where
  "ExpiresAt now ttl =
     (let ttl = (if ttl \<le> 0 then DefaultMessageTTL else ttl);
          nowUnix = time_Unix now;
          err = Errorf ''%w: now %d plus ttl %s (max %d)'' [WrapArg (Sentinel ErrMessageExpiryOutOfRange),
             IntArg nowUnix, DurArg ttl, IntArg MaxMessageExpiresAtUnix]
      in if nowUnix > MaxMessageExpiresAtUnix then Inl err
         else let now = (if nowUnix < 0 then 0 else now);
                  expires = time_Unix (time_Add now ttl)
           in if expires > MaxMessageExpiresAtUnix then Inl err
              else Inr (word_of_int expires))"

definition NewMessagePayload :: "gotime \<Rightarrow> duration \<Rightarrow> bytes \<Rightarrow> DmqMessagePayload result" where
  "NewMessagePayload now ttl body =
     (case ValidateMessageBody body of
        Some err \<Rightarrow> Inl err
      | None \<Rightarrow> (case ExpiresAt now ttl of
          Inl err \<Rightarrow> Inl err
        | Inr expiresAt \<Rightarrow> Inr \<lparr>pl_MessageID = [], pl_MessageBody = cloneBytes body,
            pl_KESPeriod = 0, pl_ExpiresAt = expiresAt\<rparr>))"

lemma cloneBytes_id [simp]: "cloneBytes b = b"
  by (simp add: cloneBytes_def)

lemma ValidateMessageBody_None [simp]: "ValidateMessageBody body = None \<longleftrightarrow> length body \<le> 2000"
  by (auto simp: ValidateMessageBody_def)

text \<open>The instant whose seconds go on the wire: a clock before the epoch counts as the epoch.\<close>

definition expiry_instant :: "gotime \<Rightarrow> duration \<Rightarrow> gotime" where
  "expiry_instant now ttl = max 0 now + (if ttl \<le> 0 then DefaultMessageTTL else ttl)"

lemma time_Unix_neg: "time_Unix t < 0 \<longleftrightarrow> t < 0"
  by (simp add: time_Unix_def pos_imp_zdiv_neg_iff)

lemma time_Unix_mono: "t \<le> u \<Longrightarrow> time_Unix t \<le> time_Unix u"
  by (simp add: time_Unix_def zdiv_mono1)

lemma expiry_instant_nonneg: "0 \<le> expiry_instant now ttl"
  by (auto simp: expiry_instant_def)

lemma ExpiresAt_eq:
  "ExpiresAt now ttl =
     (if time_Unix (expiry_instant now ttl) > MaxMessageExpiresAtUnix
      then Inl (Errorf ''%w: now %d plus ttl %s (max %d)'' [WrapArg (Sentinel ErrMessageExpiryOutOfRange),
             IntArg (time_Unix now), DurArg (if ttl \<le> 0 then DefaultMessageTTL else ttl),
             IntArg MaxMessageExpiresAtUnix])
      else Inr (word_of_int (time_Unix (expiry_instant now ttl))))"
proof -
  have "now \<le> expiry_instant now ttl"
    by (auto simp: expiry_instant_def max_def)
  then have "time_Unix now \<le> time_Unix (expiry_instant now ttl)"
    by (rule time_Unix_mono)
  then show ?thesis
    by (auto simp: ExpiresAt_def Let_def time_Unix_neg expiry_instant_def time_Add_def max_def)
qed

text \<open>
  The wire expiry is exact. It is refused (with \<^verbatim>\<open>ErrMessageExpiryOutOfRange\<close>) exactly when
  the whole seconds of \<open>now + ttl\<close> do not fit 32 bits, and otherwise the 32-bit value is that
  number of seconds, with no truncation beyond the fraction of a second.
\<close>

theorem ExpiresAt_exact:
  "(case ExpiresAt now ttl of
      Inl err \<Rightarrow> errors_is err ErrMessageExpiryOutOfRange \<and> 2 ^ 32 \<le> time_Unix (expiry_instant now ttl)
    | Inr e \<Rightarrow> uint e = time_Unix (expiry_instant now ttl)
        \<and> uint e * Second \<le> expiry_instant now ttl \<and> expiry_instant now ttl < (uint e + 1) * Second)"
proof (cases "time_Unix (expiry_instant now ttl) > MaxMessageExpiresAtUnix")
  case True
  then show ?thesis by (simp add: ExpiresAt_eq MaxMessageExpiresAtUnix_def)
next
  case False
  let ?t = "expiry_instant now ttl"
  have "0 \<le> time_Unix ?t" using expiry_instant_nonneg by (simp add: time_Unix_def pos_imp_zdiv_nonneg_iff)
  with False have "uint (word_of_int (time_Unix ?t) :: u32) = time_Unix ?t"
    by (simp add: MaxMessageExpiresAtUnix_def uint_word_of_int)
  moreover have "time_Unix ?t * Second \<le> ?t" "?t < (time_Unix ?t + 1) * Second"
    by (auto simp: time_Unix_def)
  ultimately show ?thesis using False by (simp add: ExpiresAt_eq)
qed

text \<open>
  \<open>NewMessagePayload\<close> succeeds exactly when the body is at most 2000 bytes and the expiry
  is representable; the payload then carries that body and expiry, and no message ID or KES
  period yet. An oversized body is reported before an unrepresentable expiry.
\<close>

lemma NewMessagePayload_spec:
  "NewMessagePayload now ttl body =
     (if length body > 2000
      then Inl (Errorf ''%w: %d bytes (max %d)'' [WrapArg (Sentinel ErrMessageBodyTooLarge),
             IntArg (int (length body)), IntArg 2000])
      else map_sum id (\<lambda>e. \<lparr>pl_MessageID = [], pl_MessageBody = body, pl_KESPeriod = 0, pl_ExpiresAt = e\<rparr>)
             (ExpiresAt now ttl))"
  by (auto simp: NewMessagePayload_def ValidateMessageBody_def split: sum.splits)

end
