(* ===== verification/Topic_Runtime.thy ===== *)
theory Topic_Runtime
  imports Dmq_Payload
begin

text \<open>
  \<^verbatim>\<open>topic.go\<close> (and \<^verbatim>\<open>discoverPeers\<close> of \<^verbatim>\<open>discovery.go\<close>): the state of a topic and every
  operation on it. Subscriber channels live in an explicit store \<open>tr_chans\<close>, because a
  channel outlives its entry in the subscriber map; sending on or closing a closed channel
  panics in Go, and an operation that would panic has the result \<open>None\<close>. Clock readings are
  arguments, one per call of \<^verbatim>\<open>t.clock.Now()\<close>; calls to hooks are returned as a list.
\<close>

section \<open>State\<close>

record go_chan =
  ch_cap :: int
  ch_buf :: "Message list"
  ch_closed :: bool

record topicRuntime =
  tr_name :: string
  tr_cfg :: TopicConfig
  tr_closed :: bool
  tr_queue :: "DmqMessage list"
  tr_seen :: "bytes \<rightharpoonup> gotime"
  tr_subscribers :: "(u64 \<times> nat) list"
  tr_nextSubID :: u64
  tr_peerSelector :: PeerSelector
  tr_chans :: "nat \<rightharpoonup> go_chan"
  tr_nextChan :: nat

record Subscription =
  sub_id :: u64
  sub_C :: nat
  sub_closed :: bool

definition newTopicRuntime :: "string \<Rightarrow> TopicConfig \<Rightarrow> topicRuntime" where
  "newTopicRuntime name cfg =
     (let disc = tc_Discovery cfg;
          sel = NewPeerSelector \<lparr>psc_TopologyQuota = dc_TopologyQuota disc,
            psc_PeerShareQuota = dc_PeerSharingQuota disc,
            psc_LedgerQuota = ld_Target (dc_LedgerPeers disc),
            psc_BigLedgerQuota = ld_BigLedgerTarget (dc_LedgerPeers disc)\<rparr>;
          sel = AddPeers sel (TopologyPeers (dc_Topology disc));
          sel = AddPeers sel (dc_StaticPeers disc)
      in \<lparr>tr_name = name, tr_cfg = cfg, tr_closed = False, tr_queue = [], tr_seen = Map.empty,
          tr_subscribers = [], tr_nextSubID = 0, tr_peerSelector = sel,
          tr_chans = Map.empty, tr_nextChan = 0\<rparr>)"

section \<open>Message checks\<close>

definition cloneMessage :: "gouroboros \<Rightarrow> DmqMessage \<Rightarrow> DmqMessage" where
  "cloneMessage g msg =
     (let ret = g_SetMessageID g (g_ID g msg) msg;
          ret = ret\<lparr>m_Payload := (m_Payload ret)\<lparr>pl_MessageBody := cloneBytes (pl_MessageBody (m_Payload msg))\<rparr>\<rparr>;
          ret = ret\<lparr>m_KESSignature := cloneBytes (m_KESSignature msg)\<rparr>;
          ret = ret\<lparr>m_OperationalCertificate := (m_OperationalCertificate ret)
                  \<lparr>oc_KESVerificationKey := cloneBytes (oc_KESVerificationKey (m_OperationalCertificate msg)),
                   oc_ColdSignature := cloneBytes (oc_ColdSignature (m_OperationalCertificate msg))\<rparr>\<rparr>
      in ret\<lparr>m_ColdVerificationKey := cloneBytes (m_ColdVerificationKey msg)\<rparr>)"

text \<open>The error and the message as it is afterwards: the code sets the ID in place.\<close>

definition normalizeAndValidateMessage :: "gouroboros \<Rightarrow> DmqMessage \<Rightarrow> go_error option \<times> DmqMessage" where
  "normalizeAndValidateMessage g msg =
     (case ValidateMessageBody (pl_MessageBody (m_Payload msg)) of
        Some err \<Rightarrow> (Some err, msg)
      | None \<Rightarrow>
          (let mid = g_ID g msg in
           case g_ComputeDmqMessageID g (m_Payload msg) of
             Inl err \<Rightarrow> (Some (Errorf ''compute message ID: %w'' [WrapArg err]), msg)
           | Inr computed \<Rightarrow>
               if length mid = 0 then (None, g_SetMessageID g computed msg)
               else if mid \<noteq> computed then
                 (Some (Errorf ''%w: expected %s got %s''
                    [WrapArg (Sentinel ErrMessageIDMismatch), HexArg computed, HexArg mid]), msg)
               else (None, g_SetMessageID g mid msg)))"

definition wrapTTLValidationError :: "string option \<Rightarrow> go_error option" where
  "wrapTTLValidationError err =
     (case err of None \<Rightarrow> None
      | Some errMsg \<Rightarrow>
          if strings_Contains errMsg ''has expired''
          then Some (Errorf ''%w: %w'' [WrapArg (Sentinel ErrMessageExpired), WrapArg (ErrorNew errMsg)])
          else if strings_Contains errMsg ''too far in future''
          then Some (Errorf ''%w: %w'' [WrapArg (Sentinel ErrMessageTTLTooFar), WrapArg (ErrorNew errMsg)])
          else Some (ErrorNew errMsg))"

definition validateMessageTTL :: "gouroboros \<Rightarrow> DmqMessage \<Rightarrow> gotime \<Rightarrow> TTLPolicy \<Rightarrow> go_error option" where
  "validateMessageTTL g msg now policy =
     (if tp_Disable policy then None
      else wrapTTLValidationError (g_ValidateMessageTTLAt g (tp_MaxTTL policy) msg now))"

definition rejectReasonOf :: "go_error \<Rightarrow> RejectReason" where
  "rejectReasonOf err =
     (if errors_is err ErrDuplicateMessage then AlreadyReceivedReason
      else if errors_is err ErrMessageExpired then ExpiredReason
      else if errors_is err ErrQueueFull \<or> errors_is err ErrManagerClosed then OtherReason err
      else InvalidReason err)"

definition rejectReasonFromError :: "go_error option \<Rightarrow> RejectReason option" where
  "rejectReasonFromError e = (case e of None \<Rightarrow> None | Some err \<Rightarrow> Some (rejectReasonOf err))"

definition callRejected :: "topicRuntime \<Rightarrow> DmqMessage \<Rightarrow> RejectReason \<Rightarrow> hook_call list" where
  "callRejected t msg reason =
     (if hk_OnMessageRejected (tc_Hooks (tr_cfg t)) then [OnMessageRejected (tr_name t) msg reason] else [])"

definition callError :: "topicRuntime \<Rightarrow> go_error option \<Rightarrow> hook_call list" where
  "callError t err =
     (case err of None \<Rightarrow> []
      | Some e \<Rightarrow> if hk_OnError (tc_Hooks (tr_cfg t)) then [OnError (tr_name t) e] else [])"

section \<open>Pruning\<close>

definition pruneSeenLocked :: "gotime \<Rightarrow> topicRuntime \<Rightarrow> topicRuntime" where
  "pruneSeenLocked now t =
     (let ttl = qc_DuplicateTTL (tc_Queue (tr_cfg t))
      in if ttl \<le> 0 then t
         else t\<lparr>tr_seen := (\<lambda>k. case tr_seen t k of None \<Rightarrow> None
                 | Some seenAt \<Rightarrow> if time_Sub now seenAt > ttl then None else Some seenAt)\<rparr>)"

text \<open>The compaction loop over the backing array: \<open>i\<close> reads, \<open>w\<close> writes.\<close>

function prune_loop :: "(DmqMessage \<Rightarrow> bool) \<Rightarrow> DmqMessage list \<Rightarrow> nat \<Rightarrow> nat \<Rightarrow> DmqMessage list \<times> nat" where
  "prune_loop keep arr i w =
     (if i < length arr then
        (if keep (arr ! i) then prune_loop keep (arr[w := arr ! i]) (Suc i) (Suc w)
         else prune_loop keep arr (Suc i) w)
      else (arr, w))"
  by pat_completeness auto
termination
  by (relation "measure (\<lambda>(keep, arr, i, w). length arr - i)") auto

declare prune_loop.simps [simp del]

definition pruneQueueLocked :: "gouroboros \<Rightarrow> gotime \<Rightarrow> topicRuntime \<Rightarrow> topicRuntime" where
  "pruneQueueLocked g now t =
     (let (arr, w) = prune_loop (\<lambda>m. validateMessageTTL g m now (tc_TTL (tr_cfg t)) = None) (tr_queue t) 0 0
      in t\<lparr>tr_queue := take w arr\<rparr>)"

section \<open>Channels and fan-out\<close>

text \<open>The non-blocking send of \<^verbatim>\<open>select { case ch <- envelope: default: }\<close>.\<close>

definition chan_trySend :: "Message \<Rightarrow> go_chan \<Rightarrow> go_chan option" where
  "chan_trySend m ch =
     (if ch_closed ch then None
      else if int (length (ch_buf ch)) < ch_cap ch then Some (ch\<lparr>ch_buf := ch_buf ch @ [m]\<rparr>)
      else Some ch)"

definition chan_close :: "go_chan \<Rightarrow> go_chan option" where
  "chan_close ch = (if ch_closed ch then None else Some (ch\<lparr>ch_closed := True\<rparr>))"

fun each_chan :: "(go_chan \<Rightarrow> go_chan option) \<Rightarrow> (u64 \<times> nat) list \<Rightarrow> (nat \<rightharpoonup> go_chan) \<Rightarrow> (nat \<rightharpoonup> go_chan) option" where
  "each_chan f [] h = Some h"
| "each_chan f ((sid, c) # subs) h =
     (case h c of None \<Rightarrow> None
      | Some ch \<Rightarrow> (case f ch of None \<Rightarrow> None
          | Some ch' \<Rightarrow> each_chan f subs (h(c \<mapsto> ch'))))"

definition fanout :: "Message \<Rightarrow> (u64 \<times> nat) list \<Rightarrow> (nat \<rightharpoonup> go_chan) \<Rightarrow> (nat \<rightharpoonup> go_chan) option" where
  "fanout envelope = each_chan (chan_trySend envelope)"

section \<open>Submission\<close>

definition messageEnvelope :: "gouroboros \<Rightarrow> topicRuntime \<Rightarrow> gotime \<Rightarrow> DmqMessage \<Rightarrow> MessageSource \<Rightarrow> Peer option \<Rightarrow> Message" where
  "messageEnvelope g t now msg source peer =
     \<lparr>env_Topic = tr_name t, env_Message = cloneMessage g msg, env_ID = cloneBytes (g_ID g msg),
      env_Body = cloneBytes (pl_MessageBody (m_Payload msg)), env_Source = source,
      env_Peer = clonePeerPtr peer, env_ReceivedAt = now\<rparr>"

text \<open>The section of \<^verbatim>\<open>submitSigned\<close> that runs under the topic's mutex.\<close>

definition submitLocked :: "gouroboros \<Rightarrow> gotime \<Rightarrow> topicRuntime \<Rightarrow> DmqMessage \<Rightarrow> Message \<Rightarrow>
    (go_error option \<times> hook_call list \<times> topicRuntime) option" where
  "submitLocked g now t msg envelope =
     (if tr_closed t then Some (Some (Sentinel ErrManagerClosed), [], t)
      else
        (let t = pruneSeenLocked now t;
             t = pruneQueueLocked g now t;
             key = g_ID g msg
         in if tr_seen t key \<noteq> None then
              Some (Some (Sentinel ErrDuplicateMessage), callRejected t msg AlreadyReceivedReason, t)
            else if int (length (tr_queue t)) \<ge> qc_MaxMessages (tc_Queue (tr_cfg t)) then
              Some (Some (Sentinel ErrQueueFull), callRejected t msg (OtherReason (Sentinel ErrQueueFull)), t)
            else
              (case fanout envelope (tr_subscribers t) (tr_chans t) of
                 None \<Rightarrow> None
               | Some chans \<Rightarrow>
                   Some (None,
                     (if hk_OnMessageAccepted (tc_Hooks (tr_cfg t)) then [OnMessageAccepted envelope] else []),
                     t\<lparr>tr_seen := (tr_seen t)(key \<mapsto> now), tr_queue := tr_queue t @ [cloneMessage g msg],
                       tr_chans := chans\<rparr>))))"

text \<open>
  The optional authentication: \<open>None\<close> is the nil dereference of a required but missing
  authenticator, which \<^verbatim>\<open>RegisterTopic\<close> rules out.
\<close>

definition authenticateMessage :: "topicRuntime \<Rightarrow> DmqMessage \<Rightarrow> go_error option option" where
  "authenticateMessage t msg =
     (if ac_Required (tc_Authentication (tr_cfg t))
      then (case ac_Authenticator (tc_Authentication (tr_cfg t)) of
              None \<Rightarrow> None
            | Some auth \<Rightarrow> Some (auth msg))
      else Some None)"

text \<open>
  \<open>submitSigned g now1 now2 t msg source peer\<close>: the error, the message as the caller sees it
  afterwards, the hook calls and the new state. \<open>now1\<close> is the reading used for the TTL check,
  \<open>now2\<close> the one used for the envelope and under the mutex.
\<close>

definition submitSigned :: "gouroboros \<Rightarrow> gotime \<Rightarrow> gotime \<Rightarrow> topicRuntime \<Rightarrow> DmqMessage option \<Rightarrow>
    MessageSource \<Rightarrow> Peer option \<Rightarrow> (go_error option \<times> DmqMessage option \<times> hook_call list \<times> topicRuntime) option" where
  "submitSigned g now1 now2 t msg source peer =
     (case msg of
        None \<Rightarrow> Some (Some (ErrorNew ''message is nil''), None, [], t)
      | Some m0 \<Rightarrow>
          (case normalizeAndValidateMessage g m0 of
             (Some err, m) \<Rightarrow> Some (Some err, Some m, callRejected t m (rejectReasonOf err), t)
           | (None, m) \<Rightarrow>
               (case validateMessageTTL g m now1 (tc_TTL (tr_cfg t)) of
                  Some err \<Rightarrow> Some (Some err, Some m, callRejected t m (rejectReasonOf err), t)
                | None \<Rightarrow>
                    (case authenticateMessage t m of
                       None \<Rightarrow> None
                     | Some (Some err) \<Rightarrow> Some (Some err, Some m, callRejected t m (InvalidReason err), t)
                     | Some None \<Rightarrow>
                         (case submitLocked g now2 t m (messageEnvelope g t now2 m source peer) of
                            None \<Rightarrow> None
                          | Some (err, calls, t') \<Rightarrow> Some (err, Some m, calls, t'))))))"

text \<open>\<^verbatim>\<open>publish\<close>; \<open>now0\<close> is the reading the expiry is computed from.\<close>

definition publish :: "gouroboros \<Rightarrow> gotime \<Rightarrow> gotime \<Rightarrow> gotime \<Rightarrow> gocontext \<Rightarrow> topicRuntime \<Rightarrow> bytes \<Rightarrow>
    (DmqMessage option result \<times> hook_call list \<times> topicRuntime) option" where
  "publish g now0 now1 now2 ctx t body =
     (case tc_Signer (tr_cfg t) of
        None \<Rightarrow> Some (Inl (Sentinel ErrSignerRequired), [], t)
      | Some signer \<Rightarrow>
          (case NewMessagePayload now0 (tp_DefaultTTL (tc_TTL (tr_cfg t))) body of
             Inl err \<Rightarrow> Some (Inl err, [], t)
           | Inr payload \<Rightarrow>
               (case signer ctx (tr_name t) payload of
                  Inl err \<Rightarrow> Some (Inl err, [], t)
                | Inr msg \<Rightarrow>
                    (case submitSigned g now1 now2 t msg MessageSourceLocal None of
                       None \<Rightarrow> None
                     | Some (Some err, m, calls, t') \<Rightarrow> Some (Inl err, calls, t')
                     | Some (None, m, calls, t') \<Rightarrow> Some (Inr m, calls, t')))))"

section \<open>Queries\<close>

fun messageIDs_loop :: "gouroboros \<Rightarrow> gotime \<Rightarrow> TTLPolicy \<Rightarrow> int \<Rightarrow> MessageIDAndSize list \<Rightarrow> DmqMessage list \<Rightarrow>
    MessageIDAndSize list" where
  "messageIDs_loop g now ttl mx ids [] = ids"
| "messageIDs_loop g now ttl mx ids (msg # msgs) =
     (if validateMessageTTL g msg now ttl \<noteq> None then messageIDs_loop g now ttl mx ids msgs
      else case g_CborEncode g msg of
        Inl err \<Rightarrow> messageIDs_loop g now ttl mx ids msgs
      | Inr msgCBOR \<Rightarrow>
          (let ids = ids @ [\<lparr>ms_MessageID = cloneBytes (g_ID g msg),
                             ms_SizeInBytes = word_of_nat (length msgCBOR)\<rparr>]
           in if mx > 0 \<and> int (length ids) \<ge> mx then ids else messageIDs_loop g now ttl mx ids msgs))"

definition messageIDs :: "gouroboros \<Rightarrow> gotime \<Rightarrow> topicRuntime \<Rightarrow> int \<Rightarrow> MessageIDAndSize list \<times> topicRuntime" where
  "messageIDs g now t mx =
     (let t = pruneQueueLocked g now t
      in (messageIDs_loop g now (tc_TTL (tr_cfg t)) mx [] (tr_queue t), t))"

definition hasSeen :: "topicRuntime \<Rightarrow> bytes \<Rightarrow> bool" where
  "hasSeen t mid = (tr_seen t mid \<noteq> None)"

definition messagesByIDs :: "gouroboros \<Rightarrow> gotime \<Rightarrow> topicRuntime \<Rightarrow> bytes list \<Rightarrow> DmqMessage list \<times> topicRuntime" where
  "messagesByIDs g now t ids =
     (let t = pruneQueueLocked g now t
      in (concat (map (\<lambda>msg. if g_ID g msg \<notin> set ids then []
                             else if validateMessageTTL g msg now (tc_TTL (tr_cfg t)) \<noteq> None then []
                             else [cloneMessage g msg]) (tr_queue t)), t))"

section \<open>Subscriptions and shutdown\<close>

definition reserveSubID :: "topicRuntime \<Rightarrow> u64 \<times> topicRuntime" where
  "reserveSubID t = (let sid = tr_nextSubID t + 1 in (sid, t\<lparr>tr_nextSubID := sid\<rparr>))"

text \<open>The rest of \<^verbatim>\<open>subscribe\<close>: the new channel is closed at once on a closed topic.\<close>

definition attachSubscription :: "u64 \<Rightarrow> topicRuntime \<Rightarrow> Subscription \<times> topicRuntime" where
  "attachSubscription sid t =
     (let c = tr_nextChan t;
          ch = \<lparr>ch_cap = qc_SubscriberBuffer (tc_Queue (tr_cfg t)), ch_buf = [], ch_closed = tr_closed t\<rparr>;
          t = t\<lparr>tr_chans := (tr_chans t)(c \<mapsto> ch), tr_nextChan := Suc c\<rparr>
      in if tr_closed t then (\<lparr>sub_id = sid, sub_C = c, sub_closed = True\<rparr>, t)
         else (\<lparr>sub_id = sid, sub_C = c, sub_closed = False\<rparr>,
               t\<lparr>tr_subscribers := go_map_put sid c (tr_subscribers t)\<rparr>))"

definition subscribe :: "topicRuntime \<Rightarrow> Subscription \<times> topicRuntime" where
  "subscribe t = (let (sid, t) = reserveSubID t in attachSubscription sid t)"

definition closeTopic :: "topicRuntime \<Rightarrow> topicRuntime option" where
  "closeTopic t =
     (if tr_closed t then Some t
      else case each_chan chan_close (tr_subscribers t) (tr_chans t) of
        None \<Rightarrow> None
      | Some chans \<Rightarrow> Some (t\<lparr>tr_closed := True, tr_subscribers := [], tr_chans := chans\<rparr>))"

definition unsubscribe :: "u64 \<Rightarrow> topicRuntime \<Rightarrow> topicRuntime option" where
  "unsubscribe sid t =
     (case map_of (tr_subscribers t) sid of
        None \<Rightarrow> Some t
      | Some c \<Rightarrow>
          (case tr_chans t c of None \<Rightarrow> None
           | Some ch \<Rightarrow> (case chan_close ch of None \<Rightarrow> None
               | Some ch' \<Rightarrow> Some (t\<lparr>tr_subscribers := go_map_delete sid (tr_subscribers t),
                               tr_chans := (tr_chans t)(c \<mapsto> ch')\<rparr>))))"

text \<open>\<^verbatim>\<open>Subscription.Close\<close>; the \<^verbatim>\<open>closed\<close> flag is the subscription's own atomic.\<close>

definition SubscriptionClose :: "Subscription option \<Rightarrow> topicRuntime \<Rightarrow>
    (go_error option \<times> Subscription option \<times> topicRuntime) option" where
  "SubscriptionClose s t =
     (case s of
        None \<Rightarrow> Some (None, None, t)
      | Some sub \<Rightarrow>
          if sub_closed sub then Some (Some (Sentinel ErrSubscriptionClosed), Some sub, t)
          else map_option (\<lambda>t'. (None, Some (sub\<lparr>sub_closed := True\<rparr>), t')) (unsubscribe (sub_id sub) t))"

text \<open>A subscriber receives from its channel.\<close>

definition receive :: "nat \<Rightarrow> topicRuntime \<Rightarrow> (Message option \<times> topicRuntime)" where
  "receive c t =
     (case tr_chans t c of None \<Rightarrow> (None, t)
      | Some ch \<Rightarrow> (case ch_buf ch of [] \<Rightarrow> (None, t)
          | m # ms \<Rightarrow> (Some m, t\<lparr>tr_chans := (tr_chans t)(c \<mapsto> ch\<lparr>ch_buf := ms\<rparr>)\<rparr>)))"

section \<open>Peer discovery of a topic\<close>

definition discoverPeers :: "gocontext \<Rightarrow> topicRuntime \<Rightarrow> Peer list result \<times> hook_call list \<times> topicRuntime" where
  "discoverPeers ctx t =
     (let cfg = dc_LedgerPeers (tc_Discovery (tr_cfg t)) in
      if \<not> ld_Enabled cfg then (Inr (Peers (tr_peerSelector t)), [], t)
      else case ld_Provider cfg of
        None \<Rightarrow> if ld_AllowUnsupported cfg then (Inr (Peers (tr_peerSelector t)), [], t)
                else (Inl (Sentinel ErrLedgerPeerSnapshotProviderUnset), [], t)
      | Some provider \<Rightarrow>
          (case provider ctx LedgerPeerSnapshotAll of
             Inl err \<Rightarrow> if ld_AllowUnsupported cfg \<and> errors_is err ErrLedgerPeerSnapshotUnsupported
                        then (Inr (Peers (tr_peerSelector t)), [], t)
                        else (Inl err, [], t)
           | Inr snapshot \<Rightarrow>
               (let pools = BuildLedgerPeerPools snapshot;
                    sel = setPeersForSources (tr_peerSelector t) [PeerSourceLedger, PeerSourceBigLedger]
                            (pools_All pools @ pools_Big pools);
                    peers = Peers sel
                in (Inr peers,
                    (if hk_OnPeerDiscovered (tc_Hooks (tr_cfg t)) then [OnPeerDiscovered (tr_name t) peers] else []),
                    t\<lparr>tr_peerSelector := sel\<rparr>))))"

end
