(* ===== verification/Topic_Correctness.thy ===== *)
theory Topic_Correctness
  imports Topic_Runtime
begin

text \<open>
  The correctness of a topic: pruning, fan-out, the admission decision, the invariant of every
  reachable state under any interleaving of the topic's critical sections, freedom from
  channel panics, duplicate suppression over time, and the queries.
\<close>

section \<open>Vocabulary\<close>

definition live :: "gouroboros \<Rightarrow> gotime \<Rightarrow> topicRuntime \<Rightarrow> DmqMessage \<Rightarrow> bool" where
  "live g now t m = (validateMessageTTL g m now (tc_TTL (tr_cfg t)) = None)"

text \<open>The duplicate-suppression entries that a prune at \<open>now\<close> keeps.\<close>

definition fresh_seen :: "gotime \<Rightarrow> topicRuntime \<Rightarrow> bytes \<Rightarrow> gotime option" where
  "fresh_seen now t k = (case tr_seen t k of None \<Rightarrow> None
     | Some seenAt \<Rightarrow> if qc_DuplicateTTL (tc_Queue (tr_cfg t)) > 0
         \<and> time_Sub now seenAt > qc_DuplicateTTL (tc_Queue (tr_cfg t)) then None else Some seenAt)"

definition admitted :: "gouroboros \<Rightarrow> DmqMessage \<Rightarrow> bool" where
  "admitted g m = (length (pl_MessageBody (m_Payload m)) \<le> 2000
     \<and> g_ComputeDmqMessageID g (m_Payload m) = Inr (g_ID g m))"

definition subs_ok :: "topicRuntime \<Rightarrow> bool" where
  "subs_ok t = (distinct (map fst (tr_subscribers t)) \<and> distinct (map snd (tr_subscribers t))
     \<and> (\<forall>e \<in> set (tr_subscribers t). \<exists>ch. tr_chans t (snd e) = Some ch \<and> \<not> ch_closed ch)
     \<and> (\<forall>c ch. tr_chans t c = Some ch \<longrightarrow> c < tr_nextChan t \<and> int (length (ch_buf ch)) \<le> ch_cap ch)
     \<and> (tr_closed t \<longrightarrow> tr_subscribers t = []))"

definition config_ok :: "TopicConfig \<Rightarrow> bool" where
  "config_ok cfg = (sane_queue (tc_Queue cfg)
     \<and> (ac_Required (tc_Authentication cfg) \<longrightarrow> ac_Authenticator (tc_Authentication cfg) \<noteq> None))"

definition topic_inv :: "gouroboros \<Rightarrow> topicRuntime \<Rightarrow> bool" where
  "topic_inv g t = (config_ok (tr_cfg t)
     \<and> int (length (tr_queue t)) \<le> qc_MaxMessages (tc_Queue (tr_cfg t))
     \<and> (message_id_laws g \<longrightarrow> list_all (admitted g) (tr_queue t))
     \<and> subs_ok t \<and> selector_inv (tr_peerSelector t))"

definition topic_init :: "topicRuntime \<Rightarrow> bool" where
  "topic_init t = (\<exists>name cfg. t = newTopicRuntime name cfg \<and> config_ok cfg)"

text \<open>
  The steps of a topic: every critical section, in any order and with any clock reading
  \<open>now\<close>. The part of \<^verbatim>\<open>submitSigned\<close> before the mutex reads only the immutable
  configuration, so a submission is one step at the moment it holds the mutex.
\<close>

inductive topic_step :: "gouroboros \<Rightarrow> gotime \<Rightarrow> topicRuntime \<Rightarrow> topicRuntime \<Rightarrow> bool" for g now where
  step_submit: "submitSigned g now1 now t msg source peer = Some (err, m, calls, t') \<Longrightarrow> topic_step g now t t'"
| step_messageIDs: "messageIDs g now t mx = (ids, t') \<Longrightarrow> topic_step g now t t'"
| step_messagesByIDs: "messagesByIDs g now t wanted = (ms, t') \<Longrightarrow> topic_step g now t t'"
| step_reserve: "reserveSubID t = (sid, t') \<Longrightarrow> topic_step g now t t'"
| step_attach: "attachSubscription sid t = (sub, t') \<Longrightarrow> topic_step g now t t'"
| step_unsubscribe: "unsubscribe sid t = Some t' \<Longrightarrow> topic_step g now t t'"
| step_close: "closeTopic t = Some t' \<Longrightarrow> topic_step g now t t'"
| step_receive: "receive c t = (m, t') \<Longrightarrow> topic_step g now t t'"
| step_discover: "discoverPeers ctx t = (r, calls, t') \<Longrightarrow> topic_step g now t t'"

abbreviation topic_reach :: "gouroboros \<Rightarrow> topicRuntime \<Rightarrow> bool" where
  "topic_reach g \<equiv> reach topic_init (\<lambda>t t'. \<exists>now. topic_step g now t t')"

section \<open>Pruning\<close>

lemma prune_loop_filter:
  assumes "w \<le> i" "i \<le> length arr"
  shows "(let (arr', w') = prune_loop keep arr i w in take w' arr') = take w arr @ filter keep (drop i arr)"
  using assms
proof (induction keep arr i w rule: prune_loop.induct)
  case (1 keep arr i w)
  show ?case
  proof (cases "i < length arr")
    case True
    then have d: "drop i arr = arr ! i # drop (Suc i) arr" by (simp add: Cons_nth_drop_Suc)
    have "take (Suc w) (arr[w := arr ! i]) = take w arr @ [arr ! i]"
      using True 1(3) by (simp add: take_Suc_conv_app_nth)
    then show ?thesis
      using 1 True d by (simp add: prune_loop.simps [of keep arr i w] drop_update_cancel)
  next
    case False
    then show ?thesis using 1 by (subst prune_loop.simps) simp
  qed
qed

lemma pruneQueue_eq: "pruneQueueLocked g now t = t\<lparr>tr_queue := filter (live g now t) (tr_queue t)\<rparr>"
  using prune_loop_filter [of 0 0 "tr_queue t" "\<lambda>m. validateMessageTTL g m now (tc_TTL (tr_cfg t)) = None"]
  by (simp add: pruneQueueLocked_def live_def [abs_def] split: prod.splits)

lemma pruneSeen_eq: "pruneSeenLocked now t = t\<lparr>tr_seen := fresh_seen now t\<rparr>"
  by (auto simp: pruneSeenLocked_def fresh_seen_def Let_def fun_eq_iff intro!: topicRuntime.equality
      split: option.splits)

text \<open>Liveness and freshness depend on the configuration only, and on the seen entries.\<close>

lemma live_update [simp]:
  "live g now (t\<lparr>tr_queue := q\<rparr>) = live g now t"
  "live g now (t\<lparr>tr_seen := s\<rparr>) = live g now t"
  "live g now (t\<lparr>tr_chans := h\<rparr>) = live g now t"
  by (simp_all add: live_def fun_eq_iff)

lemmas prune_simps = pruneQueue_eq pruneSeen_eq

text \<open>
  C31: The in-place compaction of the queue is a filter: it keeps exactly the messages whose
  TTL is still valid, in their order, and changes nothing else of the topic; pruning again at
  the same instant changes nothing.
\<close>

theorem pruneQueueLocked_filter:
  "pruneQueueLocked g now t = t\<lparr>tr_queue := filter (live g now t) (tr_queue t)\<rparr>
   \<and> pruneQueueLocked g now (pruneQueueLocked g now t) = pruneQueueLocked g now t"
  by (simp add: pruneQueue_eq)

section \<open>Fan-out\<close>

lemma each_chan_eq:
  assumes "distinct (map snd subs)" "\<And>e. e \<in> set subs \<Longrightarrow> \<exists>ch. h (snd e) = Some ch \<and> f ch \<noteq> None"
  shows "each_chan f subs h = Some (\<lambda>c. if c \<in> snd ` set subs then Option.bind (h c) f else h c)"
  using assms
proof (induction subs arbitrary: h)
  case (Cons e subs)
  obtain sid c where e: "e = (sid, c)" by (cases e)
  obtain ch ch' where h: "h c = Some ch" "f ch = Some ch'" using Cons.prems(2) [of e] e by auto
  have c: "c \<notin> snd ` set subs" using Cons.prems(1) e by simp
  have "\<exists>ch. (h(c \<mapsto> ch')) (snd e') = Some ch \<and> f ch \<noteq> None" if "e' \<in> set subs" for e'
  proof -
    have "snd e' \<noteq> c" using that c by auto
    then show ?thesis using Cons.prems(2) [of e'] that by simp
  qed
  with Cons.prems(1) have ih: "each_chan f subs (h(c \<mapsto> ch')) =
      Some (\<lambda>x. if x \<in> snd ` set subs then Option.bind ((h(c \<mapsto> ch')) x) f else (h(c \<mapsto> ch')) x)"
    by (intro Cons.IH) (auto simp del: fun_upd_apply)
  have "(\<lambda>x. if x \<in> snd ` set subs then Option.bind ((h(c \<mapsto> ch')) x) f else (h(c \<mapsto> ch')) x)
      = (\<lambda>x. if x \<in> snd ` set (e # subs) then Option.bind (h x) f else h x)"
    using c h by (auto simp: e fun_eq_iff)
  with ih show ?case by (simp only: e each_chan.simps h option.case)
qed simp

definition delivered :: "Message \<Rightarrow> go_chan \<Rightarrow> go_chan" where
  "delivered m ch = (if int (length (ch_buf ch)) < ch_cap ch then ch\<lparr>ch_buf := ch_buf ch @ [m]\<rparr> else ch)"

text \<open>What a total channel operation does to all subscribers of a well-formed topic.\<close>

definition on_subscribers :: "(go_chan \<Rightarrow> go_chan) \<Rightarrow> topicRuntime \<Rightarrow> nat \<Rightarrow> go_chan option" where
  "on_subscribers f t c = (if c \<in> snd ` set (tr_subscribers t) then map_option f (tr_chans t c) else tr_chans t c)"

lemma subs_okD:
  assumes "subs_ok t"
  shows "distinct (map fst (tr_subscribers t))" "distinct (map snd (tr_subscribers t))"
    and "e \<in> set (tr_subscribers t) \<Longrightarrow> \<exists>ch. tr_chans t (snd e) = Some ch \<and> \<not> ch_closed ch"
    and "tr_chans t c = Some ch \<Longrightarrow> c < tr_nextChan t"
    and "tr_chans t c = Some ch \<Longrightarrow> int (length (ch_buf ch)) \<le> ch_cap ch"
    and "tr_closed t \<Longrightarrow> tr_subscribers t = []"
  using assms by (simp_all add: subs_ok_def)

lemma each_chan_open:
  assumes "subs_ok t" and f: "\<And>ch. \<not> ch_closed ch \<Longrightarrow> f ch = Some (f' ch)"
  shows "each_chan f (tr_subscribers t) (tr_chans t) = Some (on_subscribers f' t)"
proof -
  have "each_chan f (tr_subscribers t) (tr_chans t) =
     Some (\<lambda>c. if c \<in> snd ` set (tr_subscribers t) then Option.bind (tr_chans t c) f else tr_chans t c)"
  proof (rule each_chan_eq)
    show "distinct (map snd (tr_subscribers t))" using assms(1) by (rule subs_okD)
    show "\<exists>ch. tr_chans t (snd e) = Some ch \<and> f ch \<noteq> None" if "e \<in> set (tr_subscribers t)" for e
      using subs_okD(3) [OF assms(1) that] f by auto
  qed
  moreover have "Option.bind (tr_chans t c) f = map_option f' (tr_chans t c)"
    if "c \<in> snd ` set (tr_subscribers t)" for c
  proof -
    from that obtain e where "e \<in> set (tr_subscribers t)" "c = snd e" by (rule imageE) auto
    then show ?thesis using subs_okD(3) [OF assms(1)] f by fastforce
  qed
  ultimately show ?thesis by (auto simp: fun_eq_iff on_subscribers_def)
qed

lemma fanout_eq: "subs_ok t \<Longrightarrow> fanout m (tr_subscribers t) (tr_chans t) = Some (on_subscribers (delivered m) t)"
  unfolding fanout_def by (rule each_chan_open) (simp_all add: chan_trySend_def delivered_def)

lemma closeAll_eq:
  "subs_ok t \<Longrightarrow> each_chan chan_close (tr_subscribers t) (tr_chans t)
     = Some (on_subscribers (\<lambda>ch. ch\<lparr>ch_closed := True\<rparr>) t)"
  by (rule each_chan_open) (simp_all add: chan_close_def)

section \<open>Message checks\<close>

lemma strip_id_fields:
  assumes "strip_id m = strip_id m'"
  shows "m_KESSignature m = m_KESSignature m'"
    and "m_OperationalCertificate m = m_OperationalCertificate m'"
    and "m_ColdVerificationKey m = m_ColdVerificationKey m'"
  using assms by (cases m; cases m'; simp add: strip_id_def)+

text \<open>A deep copy is the message with its ID set to itself; it keeps ID, body and computed ID.\<close>

lemma cloneMessage_eq:
  assumes "message_id_laws g"
  shows "cloneMessage g m = g_SetMessageID g (g_ID g m) m"
proof -
  let ?r = "g_SetMessageID g (g_ID g m) m"
  have "strip_id ?r = strip_id m" using assms by (rule message_id_lawsD)
  from strip_id_fields [OF this] strip_id_body [OF this] show ?thesis
    by (cases ?r) (auto simp: cloneMessage_def Let_def intro: sym)
qed

lemma cloneMessage_ID: "message_id_laws g \<Longrightarrow> g_ID g (cloneMessage g m) = g_ID g m"
  by (simp add: cloneMessage_eq SetMessageID_simps)

lemma admitted_clone: "message_id_laws g \<Longrightarrow> admitted g m \<Longrightarrow> admitted g (cloneMessage g m)"
  by (simp add: admitted_def cloneMessage_eq SetMessageID_simps)

text \<open>The static part of the admission decision: the ID the message is accepted under.\<close>

definition well_identified :: "gouroboros \<Rightarrow> DmqMessage \<Rightarrow> bytes \<Rightarrow> bool" where
  "well_identified g m i = (length (pl_MessageBody (m_Payload m)) \<le> 2000
     \<and> g_ComputeDmqMessageID g (m_Payload m) = Inr i \<and> (g_ID g m = [] \<or> g_ID g m = i))"

lemma normalize_ok:
  "normalizeAndValidateMessage g m0 = (None, m)
     \<longleftrightarrow> (\<exists>i. well_identified g m0 i \<and> m = g_SetMessageID g i m0)"
  by (auto simp: normalizeAndValidateMessage_def well_identified_def ValidateMessageBody_def Let_def
      split: sum.splits if_splits)

lemma normalize_admitted:
  assumes "message_id_laws g" "normalizeAndValidateMessage g m0 = (None, m)"
  shows "admitted g m"
  using assms by (auto simp: normalize_ok well_identified_def admitted_def SetMessageID_simps)

section \<open>The admission decision\<close>

definition pruned :: "gouroboros \<Rightarrow> gotime \<Rightarrow> topicRuntime \<Rightarrow> topicRuntime" where
  "pruned g now t = t\<lparr>tr_seen := fresh_seen now t, tr_queue := filter (live g now t) (tr_queue t)\<rparr>"

definition accepted :: "gouroboros \<Rightarrow> gotime \<Rightarrow> topicRuntime \<Rightarrow> DmqMessage \<Rightarrow> Message \<Rightarrow> topicRuntime" where
  "accepted g now t m env = t\<lparr>tr_seen := (fresh_seen now t)(g_ID g m \<mapsto> now),
     tr_queue := filter (live g now t) (tr_queue t) @ [cloneMessage g m],
     tr_chans := on_subscribers (delivered env) t\<rparr>"

definition has_room :: "gouroboros \<Rightarrow> gotime \<Rightarrow> topicRuntime \<Rightarrow> bool" where
  "has_room g now t =
     (int (length (filter (live g now t) (tr_queue t))) < qc_MaxMessages (tc_Queue (tr_cfg t)))"

definition acceptedHook :: "topicRuntime \<Rightarrow> Message \<Rightarrow> hook_call list" where
  "acceptedHook t env = (if hk_OnMessageAccepted (tc_Hooks (tr_cfg t)) then [OnMessageAccepted env] else [])"

lemma prune_both: "pruneQueueLocked g now (pruneSeenLocked now t) = pruned g now t"
  by (simp add: prune_simps pruned_def)

lemma on_subscribers_pruned [simp]: "on_subscribers f (pruned g now t) = on_subscribers f t"
  by (simp add: on_subscribers_def pruned_def fun_eq_iff)

lemma subs_ok_cong:
  "\<lbrakk>tr_subscribers t = tr_subscribers t'; tr_chans t = tr_chans t'; tr_nextChan t = tr_nextChan t';
    tr_closed t = tr_closed t'\<rbrakk> \<Longrightarrow> subs_ok t = subs_ok t'"
  by (simp add: subs_ok_def)

lemma subs_ok_update [simp]:
  "subs_ok (t\<lparr>tr_nextSubID := n\<rparr>) = subs_ok t"
  "subs_ok (t\<lparr>tr_peerSelector := s\<rparr>) = subs_ok t"
  by (simp_all add: subs_ok_def)

lemma pruned_simps [simp]:
  "tr_cfg (pruned g now t) = tr_cfg t" "tr_name (pruned g now t) = tr_name t"
  "tr_closed (pruned g now t) = tr_closed t" "tr_subscribers (pruned g now t) = tr_subscribers t"
  "tr_chans (pruned g now t) = tr_chans t" "tr_nextChan (pruned g now t) = tr_nextChan t"
  "tr_peerSelector (pruned g now t) = tr_peerSelector t" "tr_nextSubID (pruned g now t) = tr_nextSubID t"
  "tr_seen (pruned g now t) = fresh_seen now t"
  "tr_queue (pruned g now t) = filter (live g now t) (tr_queue t)"
  by (simp_all add: pruned_def)

lemma callRejected_pruned [simp]: "callRejected (pruned g now t) = callRejected t"
  by (simp add: callRejected_def fun_eq_iff)

lemma submitLocked_eq:
  assumes "subs_ok t"
  shows "submitLocked g now t m env = Some
    (if tr_closed t then (Some (Sentinel ErrManagerClosed), [], t)
     else if fresh_seen now t (g_ID g m) \<noteq> None
       then (Some (Sentinel ErrDuplicateMessage), callRejected t m AlreadyReceivedReason, pruned g now t)
     else if \<not> has_room g now t
       then (Some (Sentinel ErrQueueFull), callRejected t m (OtherReason (Sentinel ErrQueueFull)), pruned g now t)
     else (None, acceptedHook t env, accepted g now t m env))"
proof -
  have "subs_ok (pruned g now t)" using assms by (simp cong: subs_ok_cong add: subs_ok_def)
  from fanout_eq [OF this] show ?thesis
    by (simp add: submitLocked_def Let_def prune_both has_room_def acceptedHook_def accepted_def not_less)
qed

text \<open>The dynamic checks made before the mutex is taken.\<close>

definition authentic :: "topicRuntime \<Rightarrow> DmqMessage \<Rightarrow> bool" where
  "authentic t m = (authenticateMessage t m = Some None)"

text \<open>Every condition under which a submission is accepted, and the ID it is accepted under.\<close>

definition admits :: "gouroboros \<Rightarrow> gotime \<Rightarrow> gotime \<Rightarrow> topicRuntime \<Rightarrow> DmqMessage \<Rightarrow> bytes \<Rightarrow> bool" where
  "admits g now1 now2 t m i =
     (well_identified g m i
      \<and> live g now1 t (g_SetMessageID g i m) \<and> authentic t (g_SetMessageID g i m)
      \<and> \<not> tr_closed t \<and> fresh_seen now2 t i = None \<and> has_room g now2 t)"

lemma authenticate_total: "config_ok (tr_cfg t) \<Longrightarrow> authenticateMessage t m \<noteq> None"
  by (auto simp: config_ok_def authenticateMessage_def split: option.splits)

lemma topic_invD:
  assumes "topic_inv g t"
  shows "config_ok (tr_cfg t)" "subs_ok t" "selector_inv (tr_peerSelector t)"
    "int (length (tr_queue t)) \<le> qc_MaxMessages (tc_Queue (tr_cfg t))"
    "message_id_laws g \<Longrightarrow> list_all (admitted g) (tr_queue t)"
  using assms by (simp_all add: topic_inv_def)

lemma submitSigned_total:
  assumes "config_ok (tr_cfg t)" "subs_ok t"
  shows "submitSigned g now1 now2 t msg source peer \<noteq> None"
  using authenticate_total [OF assms(1)]
  by (simp add: submitSigned_def submitLocked_eq [OF assms(2)] del: not_None_eq split: option.split prod.split)

lemma submitSigned_accept:
  assumes "config_ok (tr_cfg t)" "subs_ok t" "message_id_laws g"
  shows "submitSigned g now1 now2 t (Some m0) source peer = Some (None, m, calls, t') \<longleftrightarrow>
    (\<exists>i. admits g now1 now2 t m0 i \<and> m = Some (g_SetMessageID g i m0)
       \<and> (let env = messageEnvelope g t now2 (g_SetMessageID g i m0) source peer
          in calls = acceptedHook t env \<and> t' = accepted g now2 t (g_SetMessageID g i m0) env))"
proof (cases "normalizeAndValidateMessage g m0")
  case (Pair err m1)
  show ?thesis
  proof (cases err)
    case (Some e)
    then have "\<not> well_identified g m0 i" for i
      using Pair normalize_ok [of g m0 "g_SetMessageID g i m0"] by auto
    then show ?thesis using Pair Some by (auto simp: submitSigned_def admits_def)
  next
    case None
    then obtain i where i: "well_identified g m0 i" "m1 = g_SetMessageID g i m0"
      using Pair normalize_ok [of g m0 m1] by auto
    have uniq: "well_identified g m0 j \<longleftrightarrow> j = i" for j using i(1) by (auto simp: well_identified_def)
    have "g_ID g m1 = i" using i(2) assms(3) by (simp add: message_id_lawsD)
    then show ?thesis
      using Pair None i(2) assms(1)
      by (auto simp: submitSigned_def submitLocked_eq [OF assms(2)] admits_def uniq live_def authentic_def Let_def
          split: option.splits dest: authenticate_total)
  qed
qed

text \<open>The states a refused submission can leave behind: it never adds anything.\<close>

lemma submitSigned_refused:
  assumes "subs_ok t" "submitSigned g now1 now2 t msg source peer = Some (Some err, m, calls, t')"
  shows "t' = t \<or> t' = pruned g now2 t"
  using assms(2)
  by (auto simp: submitSigned_def submitLocked_eq [OF assms(1)] split: option.splits prod.splits if_splits)

text \<open>What an observer of the hooks sees of a refusal, in terms of the returned error.\<close>

definition refusal_calls :: "topicRuntime \<Rightarrow> DmqMessage option \<Rightarrow> go_error \<Rightarrow> hook_call list" where
  "refusal_calls t msg err = (case msg of None \<Rightarrow> []
     | Some m \<Rightarrow> if err = Sentinel ErrManagerClosed then [] else callRejected t m (rejectReasonOf err))"

lemma rejectReasonOf_simps [simp]:
  "rejectReasonOf (Sentinel ErrDuplicateMessage) = AlreadyReceivedReason"
  "rejectReasonOf (Sentinel ErrQueueFull) = OtherReason (Sentinel ErrQueueFull)"
  "rejectReasonOf (Sentinel ErrManagerClosed) = OtherReason (Sentinel ErrManagerClosed)"
  by (simp_all add: rejectReasonOf_def)

text \<open>An authenticator whose errors are of its own, not errors of the topic.\<close>

definition authenticator_errors_ok :: "TopicConfig \<Rightarrow> bool" where
  "authenticator_errors_ok cfg = (\<forall>auth m e. ac_Authenticator (tc_Authentication cfg) = Some auth \<longrightarrow> auth m = Some e
     \<longrightarrow> rejectReasonOf e = InvalidReason e \<and> e \<noteq> Sentinel ErrManagerClosed)"

lemma normalize_not_closed: "normalizeAndValidateMessage g m0 = (Some e, m) \<Longrightarrow> e \<noteq> Sentinel ErrManagerClosed"
  by (auto simp: normalizeAndValidateMessage_def ValidateMessageBody_def Let_def split: option.splits sum.splits if_splits)

lemma validate_not_closed: "validateMessageTTL g m now ttl = Some e \<Longrightarrow> e \<noteq> Sentinel ErrManagerClosed"
  by (auto simp: validateMessageTTL_def wrapTTLValidationError_def split: option.splits if_splits)

lemma authenticate_error_ok:
  assumes "authenticator_errors_ok (tr_cfg t)" "authenticateMessage t m = Some (Some e)"
  shows "rejectReasonOf e = InvalidReason e" "e \<noteq> Sentinel ErrManagerClosed"
  using assms by (auto simp: authenticator_errors_ok_def authenticateMessage_def split: if_splits option.splits)

lemma submitSigned_refusal_calls:
  assumes "subs_ok t" "authenticator_errors_ok (tr_cfg t)"
    and "submitSigned g now1 now2 t msg source peer = Some (Some err, m, calls, t')"
  shows "calls = refusal_calls t m err"
  using assms(3)
  by (auto simp: submitSigned_def submitLocked_eq [OF assms(1)] refusal_calls_def
      authenticate_error_ok [OF assms(2)] dest: normalize_not_closed validate_not_closed
      split: option.splits prod.splits if_splits)

section \<open>The invariant of a topic\<close>

lemma subs_ok_on_subscribers:
  assumes "subs_ok t" "\<And>ch. ch_closed (f ch) = ch_closed ch"
    and "\<And>ch. int (length (ch_buf ch)) \<le> ch_cap ch \<Longrightarrow> int (length (ch_buf (f ch))) \<le> ch_cap (f ch)"
  shows "subs_ok (t\<lparr>tr_chans := on_subscribers f t\<rparr>)"
proof -
  have "\<exists>ch. on_subscribers f t (snd e) = Some ch \<and> \<not> ch_closed ch" if "e \<in> set (tr_subscribers t)" for e
    using subs_okD(3) [OF assms(1) that] assms(2) that by (auto simp: on_subscribers_def)
  moreover have "c < tr_nextChan t \<and> int (length (ch_buf ch)) \<le> ch_cap ch" if "on_subscribers f t c = Some ch" for c ch
    using that subs_okD(4,5) [OF assms(1)] assms(3) by (auto simp: on_subscribers_def split: if_splits)
  ultimately show ?thesis using subs_okD(1,2,6) [OF assms(1)] by (simp add: subs_ok_def)
qed

lemma delivered_simps [simp]:
  "ch_closed (delivered m ch) = ch_closed ch" "ch_cap (delivered m ch) = ch_cap ch"
  "int (length (ch_buf ch)) \<le> ch_cap ch \<Longrightarrow> int (length (ch_buf (delivered m ch))) \<le> ch_cap ch"
  by (simp_all add: delivered_def)

lemma topic_inv_filter:
  assumes "topic_inv g t"
  shows "topic_inv g (t\<lparr>tr_queue := filter P (tr_queue t)\<rparr>)"
    and "topic_inv g (t\<lparr>tr_seen := s, tr_queue := filter P (tr_queue t)\<rparr>)"
proof -
  have "int (length (filter P (tr_queue t))) \<le> int (length (tr_queue t))" by simp
  also have "\<dots> \<le> qc_MaxMessages (tc_Queue (tr_cfg t))" using assms by (rule topic_invD)
  finally show "topic_inv g (t\<lparr>tr_queue := filter P (tr_queue t)\<rparr>)"
    "topic_inv g (t\<lparr>tr_seen := s, tr_queue := filter P (tr_queue t)\<rparr>)"
    using assms by (simp_all add: topic_inv_def subs_ok_def list_all_iff)
qed

lemma topic_inv_pruned: "topic_inv g t \<Longrightarrow> topic_inv g (pruned g now t)"
  unfolding pruned_def by (rule topic_inv_filter)

lemma topic_inv_accepted:
  assumes "topic_inv g t" "has_room g now t" "message_id_laws g \<Longrightarrow> admitted g m"
  shows "topic_inv g (accepted g now t m env)"
proof -
  have "subs_ok (t\<lparr>tr_chans := on_subscribers (delivered env) t\<rparr>)"
    using topic_invD(2) [OF assms(1)] by (rule subs_ok_on_subscribers) simp_all
  then have "subs_ok (accepted g now t m env)" by (simp add: subs_ok_def accepted_def)
  then show ?thesis using assms
    by (auto simp: topic_inv_def accepted_def has_room_def list_all_iff admitted_clone)
qed

lemma topic_inv_submit:
  assumes "topic_inv g t" "submitSigned g now1 now2 t msg source peer = Some (err, m, calls, t')"
  shows "topic_inv g t'"
proof (cases err)
  case (Some e)
  then show ?thesis
    using submitSigned_refused [OF topic_invD(2)] assms topic_inv_pruned by blast
next
  case None
  have locked: "topic_inv g t'"
    if "submitLocked g now2 t m1 env = Some (None, calls, t')" "normalizeAndValidateMessage g m0 = (None, m1)" for m0 m1 env
    using that assms(1) normalize_admitted [OF _ that(2)]
    by (auto simp: submitLocked_eq [OF topic_invD(2) [OF assms(1)]] intro: topic_inv_accepted split: if_splits)
  then show ?thesis using assms(2) None
    by (auto simp: submitSigned_def split: option.splits prod.splits)
qed

text \<open>The other operations touch the queue only by pruning, and the subscribers one at a time.\<close>

lemma topic_inv_subs:
  assumes "topic_inv g t" "subs_ok t'" "tr_cfg t' = tr_cfg t" "tr_queue t' = tr_queue t"
    "selector_inv (tr_peerSelector t')"
  shows "topic_inv g t'"
  using assms by (simp add: topic_inv_def)

lemma subs_ok_add_chan:
  assumes "subs_ok t" "int (length (ch_buf ch)) \<le> ch_cap ch"
  shows "subs_ok (t\<lparr>tr_chans := (tr_chans t)(tr_nextChan t \<mapsto> ch), tr_nextChan := Suc (tr_nextChan t)\<rparr>)"
proof -
  have "\<exists>ch'. ((tr_chans t)(tr_nextChan t \<mapsto> ch)) (snd e) = Some ch' \<and> \<not> ch_closed ch'"
    if "e \<in> set (tr_subscribers t)" for e
    using subs_okD(3) [OF assms(1) that] subs_okD(4) [OF assms(1)] by fastforce
  then show ?thesis using assms subs_okD(1,2,6) [OF assms(1)] subs_okD(4,5) [OF assms(1)]
    by (auto simp: subs_ok_def less_Suc_eq)
qed

lemma subs_ok_put:
  assumes "subs_ok t" "\<not> tr_closed t" "tr_chans t c = Some ch" "\<not> ch_closed ch" "c \<notin> snd ` set (tr_subscribers t)"
  shows "subs_ok (t\<lparr>tr_subscribers := go_map_put sid c (tr_subscribers t)\<rparr>)"
proof -
  note d = subs_okD(1) [OF assms(1)]
  have "distinct (map snd (go_map_put sid c m))" if "distinct (map snd m)" "c \<notin> snd ` set m" for m :: "(u64 \<times> nat) list"
    using that
  proof (induction sid c m rule: go_map_put.induct)
    case (2 k v k' v' m)
    have "snd ` set (go_map_put k v m) \<subseteq> insert v (snd ` set m)"
      by (induction k v m rule: go_map_put.induct) auto
    then show ?case using 2 by auto
  qed simp
  then have "distinct (map snd (go_map_put sid c (tr_subscribers t)))"
    using subs_okD(2) [OF assms(1)] assms(5) by simp
  then show ?thesis using assms
    by (auto simp: subs_ok_def set_go_map_put [OF d] distinct_go_map_put)
qed

lemma topic_inv_attach:
  assumes "topic_inv g t" "attachSubscription sid t = (sub, t')"
  shows "topic_inv g t'"
proof -
  let ?ch = "\<lparr>ch_cap = qc_SubscriberBuffer (tc_Queue (tr_cfg t)), ch_buf = [], ch_closed = tr_closed t\<rparr>"
  let ?t = "t\<lparr>tr_chans := (tr_chans t)(tr_nextChan t \<mapsto> ?ch), tr_nextChan := Suc (tr_nextChan t)\<rparr>"
  have "0 < qc_SubscriberBuffer (tc_Queue (tr_cfg t))"
    using topic_invD(1) [OF assms(1)] by (simp add: config_ok_def sane_queue_def)
  then have ok: "subs_ok ?t" using topic_invD(2) [OF assms(1)] by (intro subs_ok_add_chan) simp_all
  have "tr_nextChan t \<notin> snd ` set (tr_subscribers t)"
    using subs_okD(3,4) [OF topic_invD(2) [OF assms(1)]] by fastforce
  then have "\<not> tr_closed t \<Longrightarrow> subs_ok (?t\<lparr>tr_subscribers := go_map_put sid (tr_nextChan t) (tr_subscribers t)\<rparr>)"
    using subs_ok_put [OF ok, of "tr_nextChan t" ?ch sid] by simp
  with ok have "subs_ok t'" using assms(2) by (auto simp: attachSubscription_def Let_def split: if_splits)
  then show ?thesis using assms topic_invD(3) [OF assms(1)]
    by (auto intro: topic_inv_subs [OF assms(1)] simp: attachSubscription_def Let_def split: if_splits)
qed

lemma subs_ok_remove:
  assumes "subs_ok t" "map_of (tr_subscribers t) sid = Some c" "tr_chans t c = Some ch"
    "int (length (ch_buf ch')) \<le> ch_cap ch'"
  shows "subs_ok (t\<lparr>tr_subscribers := go_map_delete sid (tr_subscribers t), tr_chans := (tr_chans t)(c \<mapsto> ch')\<rparr>)"
proof -
  note d = subs_okD(1,2) [OF assms(1)]
  have "(sid, c) \<in> set (tr_subscribers t)" using assms(2) by (rule map_of_SomeD)
  moreover have "inj_on snd (set (tr_subscribers t))" using d(2) by (simp add: distinct_map)
  ultimately have other: "snd e \<noteq> c" if "e \<in> set (tr_subscribers t)" "fst e \<noteq> sid" for e
    using that by (metis fst_conv inj_onD snd_conv)
  have "\<exists>x. ((tr_chans t)(c \<mapsto> ch')) (snd e) = Some x \<and> \<not> ch_closed x"
    if "e \<in> set (go_map_delete sid (tr_subscribers t))" for e
    using that subs_okD(3) [OF assms(1)] other by (auto simp: set_go_map_delete [OF d(1)])
  then show ?thesis
    using assms subs_okD(6) [OF assms(1)]
    by (auto simp: subs_ok_def distinct_go_map_delete d dest: subs_okD(4) [OF assms(1)])
qed

lemma unsubscribe_open:
  assumes "subs_ok t" "map_of (tr_subscribers t) sid = Some c"
  obtains ch where "tr_chans t c = Some ch" "\<not> ch_closed ch"
    "unsubscribe sid t = Some (t\<lparr>tr_subscribers := go_map_delete sid (tr_subscribers t),
       tr_chans := (tr_chans t)(c \<mapsto> ch\<lparr>ch_closed := True\<rparr>)\<rparr>)"
proof -
  have "(sid, c) \<in> set (tr_subscribers t)" using assms(2) by (rule map_of_SomeD)
  then obtain ch where ch: "tr_chans t c = Some ch" "\<not> ch_closed ch" using subs_okD(3) [OF assms(1)] by fastforce
  show ?thesis
    by (rule that [OF ch]) (use ch assms(2) in \<open>simp add: unsubscribe_def chan_close_def\<close>)
qed

lemma unsubscribe_total: "subs_ok t \<Longrightarrow> unsubscribe sid t \<noteq> None"
proof (cases "map_of (tr_subscribers t) sid")
  case (Some c)
  assume "subs_ok t"
  then show ?thesis using Some by (rule unsubscribe_open) simp
qed (simp add: unsubscribe_def)

lemma topic_inv_unsubscribe:
  assumes "topic_inv g t" "unsubscribe sid t = Some t'"
  shows "topic_inv g t'"
proof (cases "map_of (tr_subscribers t) sid")
  case None
  then show ?thesis using assms by (simp add: unsubscribe_def)
next
  case (Some c)
  note ok = topic_invD(2) [OF assms(1)]
  obtain ch where "tr_chans t c = Some ch" and
    t': "t' = t\<lparr>tr_subscribers := go_map_delete sid (tr_subscribers t),
       tr_chans := (tr_chans t)(c \<mapsto> ch\<lparr>ch_closed := True\<rparr>)\<rparr>"
    using unsubscribe_open [OF ok Some] assms(2) by auto
  then have "subs_ok t'" using subs_ok_remove [OF ok Some] subs_okD(5) [OF ok] by simp
  then show ?thesis using topic_invD(3) [OF assms(1)] by (intro topic_inv_subs [OF assms(1)]) (simp_all add: t')
qed

definition closed_topic :: "topicRuntime \<Rightarrow> topicRuntime" where
  "closed_topic t = t\<lparr>tr_closed := True, tr_subscribers := [],
     tr_chans := on_subscribers (\<lambda>ch. ch\<lparr>ch_closed := True\<rparr>) t\<rparr>"

lemma closeTopic_eq: "subs_ok t \<Longrightarrow> closeTopic t = Some (if tr_closed t then t else closed_topic t)"
  by (simp add: closeTopic_def closeAll_eq closed_topic_def)

lemma topic_inv_closed_topic:
  assumes "topic_inv g t"
  shows "topic_inv g (closed_topic t)"
proof (rule topic_inv_subs [OF assms])
  show "subs_ok (closed_topic t)"
    using subs_okD(4,5) [OF topic_invD(2) [OF assms]]
    by (auto simp: subs_ok_def closed_topic_def on_subscribers_def split: if_splits)
qed (use topic_invD(3) [OF assms] in \<open>simp_all add: closed_topic_def\<close>)

lemma topic_inv_receive:
  assumes "topic_inv g t" "receive c t = (m, t')"
  shows "topic_inv g t'"
proof (cases "tr_chans t c")
  case (Some ch)
  note ok = topic_invD(2) [OF assms(1)]
  show ?thesis
  proof (cases "ch_buf ch")
    case (Cons x xs)
    have "int (length xs) \<le> ch_cap ch" using subs_okD(5) [OF ok Some] Cons by simp
    moreover have t': "t' = t\<lparr>tr_chans := (tr_chans t)(c \<mapsto> ch\<lparr>ch_buf := xs\<rparr>)\<rparr>"
      using assms(2) Some Cons by (simp add: receive_def)
    ultimately have "subs_ok t'" using ok subs_okD(4) [OF ok Some] Some
      by (fastforce simp: subs_ok_def)
    then show ?thesis using topic_invD(3) [OF assms(1)] by (intro topic_inv_subs [OF assms(1)]) (simp_all add: t')
  qed (use assms Some in \<open>simp add: receive_def\<close>)
qed (use assms in \<open>simp add: receive_def\<close>)

lemma discoverPeers_selector:
  assumes "discoverPeers ctx t = (r, calls, t')"
  shows "t' = t \<or> (\<exists>srcs ps. t' = t\<lparr>tr_peerSelector := setPeersForSources (tr_peerSelector t) srcs ps\<rparr>)"
  using assms by (auto simp: discoverPeers_def Let_def split: if_splits option.splits sum.splits)

lemma topic_inv_discover:
  assumes "topic_inv g t" "discoverPeers ctx t = (r, calls, t')"
  shows "topic_inv g t'"
  using discoverPeers_selector [OF assms(2)] assms(1)
  by (auto simp: topic_inv_def intro: selector_inv_intros)

lemma topic_inv_new: "config_ok cfg \<Longrightarrow> topic_inv g (newTopicRuntime name cfg)"
  by (auto simp: topic_inv_def newTopicRuntime_def Let_def subs_ok_def config_ok_def sane_queue_def
      intro: selector_inv_intros)

lemma topic_inv_step:
  assumes "topic_inv g t" "topic_step g now t t'"
  shows "topic_inv g t'"
  using assms(2)
proof cases
  case step_submit
  then show ?thesis using topic_inv_submit [OF assms(1)] by blast
next
  case step_reserve
  then show ?thesis using assms(1) by (auto simp: reserveSubID_def Let_def topic_inv_def)
next
  case step_close
  then show ?thesis
    using assms(1) topic_inv_closed_topic by (auto simp: closeTopic_eq topic_invD(2) split: if_splits)
qed (use assms(1) in \<open>auto simp: messageIDs_def messagesByIDs_def Let_def pruneQueue_eq
  intro: topic_inv_filter topic_inv_attach topic_inv_unsubscribe topic_inv_receive topic_inv_discover\<close>)

text \<open>The contract of the step relation: every reachable state of a topic satisfies the invariant.\<close>

interpretation topic_sm: inductive_invariant topic_init "\<lambda>t t'. \<exists>now. topic_step g now t t'" "topic_inv g" for g
  by unfold_locales (auto simp: topic_init_def intro: topic_inv_new topic_inv_step)

section \<open>What a step keeps\<close>

lemma submitSigned_states:
  assumes "subs_ok t" "submitSigned g now1 now2 t msg source peer = Some (err, m, calls, t')"
  shows "t' = t \<or> t' = pruned g now2 t \<or> (err = None \<and> (\<exists>m1 env. t' = accepted g now2 t m1 env
     \<and> fresh_seen now2 t (g_ID g m1) = None \<and> \<not> tr_closed t))"
  using assms(2)
  by (auto simp: submitSigned_def submitLocked_eq [OF assms(1)] split: option.splits prod.splits if_splits)

lemma topic_step_frame:
  assumes "topic_inv g t" "topic_step g now t t'"
  shows "tr_cfg t' = tr_cfg t" "tr_name t' = tr_name t" "tr_closed t \<Longrightarrow> tr_closed t'"
proof -
  note ok = topic_invD(2) [OF assms(1)]
  have "tr_cfg t' = tr_cfg t \<and> tr_name t' = tr_name t \<and> (tr_closed t \<longrightarrow> tr_closed t')"
    using assms(2)
  proof cases
    case step_submit
    from submitSigned_states [OF ok this] show ?thesis by (auto simp: accepted_def)
  next
    case step_discover
    from discoverPeers_selector [OF this] show ?thesis by auto
  qed (auto simp: messageIDs_def messagesByIDs_def Let_def pruneQueue_eq reserveSubID_def attachSubscription_def
      unsubscribe_def receive_def closeTopic_eq [OF ok] closed_topic_def split: if_splits option.splits list.splits)
  then show "tr_cfg t' = tr_cfg t" "tr_name t' = tr_name t" "tr_closed t \<Longrightarrow> tr_closed t'" by simp_all
qed

text \<open>A recorded ID stays recorded, at its first acceptance, while its window lasts.\<close>

lemma fresh_seen_keep:
  "tr_seen t k = Some s \<Longrightarrow> time_Sub now s \<le> qc_DuplicateTTL (tc_Queue (tr_cfg t)) \<Longrightarrow> fresh_seen now t k = Some s"
  by (simp add: fresh_seen_def)

lemma topic_step_seen:
  assumes "topic_inv g t" "topic_step g now t t'" "tr_seen t k = Some s"
    "time_Sub now s \<le> qc_DuplicateTTL (tc_Queue (tr_cfg t))"
  shows "tr_seen t' k = Some s"
  using assms(2)
proof cases
  case step_submit
  from submitSigned_states [OF topic_invD(2) [OF assms(1)] this] fresh_seen_keep [OF assms(3,4)]
  show ?thesis using assms(3) by (auto simp: accepted_def)
next
  case step_discover
  from discoverPeers_selector [OF this] show ?thesis using assms(3) by auto
qed (use assms(3) in \<open>auto simp: messageIDs_def messagesByIDs_def Let_def pruneQueue_eq reserveSubID_def
  attachSubscription_def unsubscribe_def receive_def closeTopic_eq [OF topic_invD(2) [OF assms(1)]]
  closed_topic_def split: if_splits option.splits list.splits\<close>)

abbreviation topic_run :: "gouroboros \<Rightarrow> gotime \<Rightarrow> topicRuntime \<Rightarrow> topicRuntime \<Rightarrow> bool" where
  "topic_run g lim \<equiv> (\<lambda>a b. \<exists>now. now \<le> lim \<and> topic_step g now a b)\<^sup>*\<^sup>*"

lemma topic_run_seen:
  assumes "topic_run g lim t t'" "topic_inv g t" "tr_seen t k = Some s"
    "time_Sub lim s \<le> qc_DuplicateTTL (tc_Queue (tr_cfg t))"
  shows "topic_inv g t' \<and> tr_cfg t' = tr_cfg t \<and> tr_seen t' k = Some s"
  using assms
proof (induction rule: rtranclp_induct)
  case (step u v)
  then obtain now where now: "now \<le> lim" "topic_step g now u v" by blast
  have u: "topic_inv g u" "tr_cfg u = tr_cfg t" "tr_seen u k = Some s" using step by simp_all
  have "time_Sub now s \<le> qc_DuplicateTTL (tc_Queue (tr_cfg u))"
    using time_Sub_mono [OF now(1), of s] step.prems(3) u(2) by simp
  then show ?case using topic_step_seen [OF u(1) now(2) u(3)] topic_step_frame [OF u(1) now(2)]
      topic_inv_step [OF u(1) now(2)] u(2) by simp
qed simp

end
