(* ===== verification/Topic_Properties.thy ===== *)
theory Topic_Properties
  imports Topic_Correctness
begin

text \<open>
  The properties of a topic (\<^verbatim>\<open>topic.go\<close>) in every state it can reach, each with an instance
  on a concrete topic: the exact admission decision, what a refusal leaves behind, freedom from
  channel panics, boundedness, duplicate suppression over time, the queries, and shutdown.
\<close>

section \<open>A concrete topic\<close>

text \<open>
  A concrete instance of the gOuroboros operations: the ID is the payload field, the computed
  ID is the length-prefixed body, and the TTL validator compares the expiry with the clock.
\<close>

definition ex_gouroboros :: gouroboros where
  "ex_gouroboros = \<lparr>g_ID = (\<lambda>m. pl_MessageID (m_Payload m)),
     g_SetMessageID = (\<lambda>i m. m\<lparr>m_Payload := (m_Payload m)\<lparr>pl_MessageID := i\<rparr>\<rparr>),
     g_ComputeDmqMessageID = (\<lambda>p. Inr (word_of_nat (length (pl_MessageBody p)) # pl_MessageBody p)),
     g_ValidateMessageTTLAt = (\<lambda>mx m now.
        if uint (pl_ExpiresAt (m_Payload m)) * Second \<le> now then Some ''message has expired''
        else if uint (pl_ExpiresAt (m_Payload m)) * Second > now + mx then Some ''message TTL too far in future''
        else None),
     g_CborEncode = (\<lambda>m. Inr (pl_MessageBody (m_Payload m)))\<rparr>"

definition ex_message :: "byte \<Rightarrow> DmqMessage" where
  "ex_message b = \<lparr>m_Payload = \<lparr>pl_MessageID = [], pl_MessageBody = [b], pl_KESPeriod = 0, pl_ExpiresAt = 100\<rparr>,
     m_KESSignature = [], m_OperationalCertificate = \<lparr>oc_KESVerificationKey = [], oc_IssueNumber = 0,
       oc_KESPeriod = 0, oc_ColdSignature = []\<rparr>, m_ColdVerificationKey = []\<rparr>"

definition ex_topic0 :: topicRuntime where
  "ex_topic0 = newTopicRuntime ''t'' ex_topic_config"

text \<open>The topic with one subscriber and one accepted message.\<close>

definition ex_topic1 :: topicRuntime where
  "ex_topic1 = snd (attachSubscription 1 ex_topic0)"

definition ex_topic2 :: topicRuntime where
  "ex_topic2 = (case submitSigned ex_gouroboros 5 6 ex_topic1 (Some (ex_message 9)) MessageSourceLocal None of
     Some (e, m, calls, t) \<Rightarrow> t | None \<Rightarrow> ex_topic1)"

lemma ex_laws: "message_id_laws ex_gouroboros"
  by (simp add: message_id_laws_def ex_gouroboros_def strip_id_def)

lemma ex_config_ok: "config_ok ex_topic_config"
  by (simp add: config_ok_def ex_topic_config_def sane_queue_def)

lemma ex_reach0: "topic_reach ex_gouroboros ex_topic0"
  using ex_config_ok by (intro reach_init) (auto simp: topic_init_def ex_topic0_def)

lemma ex_reach1: "topic_reach ex_gouroboros ex_topic1"
proof (rule reach_step [OF ex_reach0])
  show "\<exists>now. topic_step ex_gouroboros now ex_topic0 ex_topic1"
    unfolding ex_topic1_def by (intro exI step_attach) (rule prod.collapse [symmetric])
qed

lemma ex_reach2: "topic_reach ex_gouroboros ex_topic2"
proof (cases "submitSigned ex_gouroboros 5 6 ex_topic1 (Some (ex_message 9)) MessageSourceLocal None")
  case None
  then show ?thesis using ex_reach1 by (simp add: ex_topic2_def)
next
  case (Some r)
  obtain e m calls t where "r = (e, m, calls, t)" by (cases r)
  with Some show ?thesis
    by (auto simp: ex_topic2_def intro!: reach_step [OF ex_reach1] step_submit)
qed

lemma topic_reach_inv: "topic_reach g t \<Longrightarrow> topic_inv g t"
  by (rule topic_sm.reach_inv)

lemmas reach_facts = topic_invD [OF topic_reach_inv]

section \<open>Admission\<close>

text \<open>
  C1: In every reachable state, a submission is accepted exactly when the body is at most 2000
  bytes, the message has no ID or the one computed from its payload, its TTL is valid, the
  authenticator (if required) passes it, the topic is open, the ID was not seen within the
  duplicate window, and the still-valid messages leave room in the queue. Acceptance then
  records the ID, appends one copy to the pruned queue, offers one envelope to every subscriber
  and calls the acceptance hook, and nothing else.
\<close>

theorem submitSigned_accepts_exactly:
  assumes "topic_reach g t" "message_id_laws g"
  shows "submitSigned g now1 now2 t (Some m0) source peer = Some (None, m, calls, t') \<longleftrightarrow>
    (\<exists>i. admits g now1 now2 t m0 i \<and> m = Some (g_SetMessageID g i m0)
       \<and> (let env = messageEnvelope g t now2 (g_SetMessageID g i m0) source peer
          in calls = acceptedHook t env
             \<and> t' = t\<lparr>tr_seen := (fresh_seen now2 t)(i \<mapsto> now2),
                 tr_queue := filter (live g now2 t) (tr_queue t) @ [g_SetMessageID g i (g_SetMessageID g i m0)],
                 tr_chans := on_subscribers (delivered env) t\<rparr>))"
  unfolding submitSigned_accept [OF reach_facts(1,2) [OF assms(1)] assms(2)]
  by (simp add: accepted_def cloneMessage_eq [OF assms(2)] message_id_lawsD [OF assms(2)])

theorem submitSigned_accepts_exactly_witness:
  "\<exists>t'. submitSigned ex_gouroboros 5 6 ex_topic1 (Some (ex_message 9)) MessageSourceLocal None
     = Some (None, Some (g_SetMessageID ex_gouroboros [1, 9] (ex_message 9)),
        [OnMessageAccepted (messageEnvelope ex_gouroboros ex_topic1 6
           (g_SetMessageID ex_gouroboros [1, 9] (ex_message 9)) MessageSourceLocal None)], t')"
proof -
  have "admits ex_gouroboros 5 6 ex_topic1 (ex_message 9) [1, 9]" by code_simp
  moreover have "acceptedHook ex_topic1 env = [OnMessageAccepted env]" for env
    by (simp add: acceptedHook_def ex_topic1_def ex_topic0_def ex_topic_config_def newTopicRuntime_def
        attachSubscription_def Let_def)
  ultimately show ?thesis
    unfolding submitSigned_accepts_exactly [OF ex_reach1 ex_laws] by (auto simp: Let_def)
qed


lemma ex_duplicate:
  "\<exists>m t'. submitSigned ex_gouroboros 5 7 ex_topic2 (Some (ex_message 9)) MessageSourceRemote None
     = Some (Some (Sentinel ErrDuplicateMessage), Some m, [OnMessageRejected ''t'' m AlreadyReceivedReason], t')"
  (is "\<exists>m t'. ?s = _")
proof -
  have "(case ?s of Some (e, Some m, calls, t') \<Rightarrow> e = Some (Sentinel ErrDuplicateMessage)
      \<and> calls = [OnMessageRejected ''t'' m AlreadyReceivedReason] | _ \<Rightarrow> False)"
    by code_simp
  then show ?thesis by (auto split: option.splits)
qed


text \<open>
  C3: No reachable state panics: in every interleaving of the topic's critical sections no
  operation sends on or closes a closed channel, and no required authenticator is missing.
\<close>

theorem topic_never_panics:
  assumes "topic_reach g t"
  shows "submitSigned g now1 now2 t msg source peer \<noteq> None
    \<and> publish g now0 now1 now2 ctx t body \<noteq> None
    \<and> closeTopic t \<noteq> None \<and> unsubscribe sid t \<noteq> None \<and> SubscriptionClose sub t \<noteq> None"
proof -
  note ok = reach_facts(1,2) [OF assms]
  have u: "unsubscribe k t \<noteq> None" for k using ok(2) by (rule unsubscribe_total)
  have s: "submitSigned g now1 now2 t msg source peer \<noteq> None" for msg source peer
    using ok by (rule submitSigned_total)
  have "publish g now0 now1 now2 ctx t body \<noteq> None"
    using s by (simp add: publish_def del: not_None_eq split: option.split sum.split)
  then show ?thesis using s u ok(2)
    by (auto simp: closeTopic_eq SubscriptionClose_def split: option.splits)
qed

theorem topic_never_panics_witness:
  "tr_subscribers ex_topic2 = [(1, 0)] \<and> closeTopic ex_topic2 \<noteq> None \<and> unsubscribe 1 ex_topic2 \<noteq> None"
proof -
  have "tr_subscribers ex_topic2 = [(1, 0)]" by code_simp
  then show ?thesis using topic_never_panics [OF ex_reach2] by blast
qed

text \<open>
  C4: In every reachable state the queue holds at most \<^verbatim>\<open>MaxMessages\<close> messages, each with a
  body of at most 2000 bytes and the ID computed from its payload; every subscriber has its own
  open channel, whose buffer is within its capacity; and a closed topic has no subscribers.
\<close>

theorem topic_bounded:
  assumes "topic_reach g t" "message_id_laws g"
  shows "int (length (tr_queue t)) \<le> qc_MaxMessages (tc_Queue (tr_cfg t))
    \<and> list_all (\<lambda>m. length (pl_MessageBody (m_Payload m)) \<le> 2000
         \<and> g_ComputeDmqMessageID g (m_Payload m) = Inr (g_ID g m)) (tr_queue t)
    \<and> list_all (\<lambda>e. case tr_chans t (snd e) of None \<Rightarrow> False
         | Some ch \<Rightarrow> \<not> ch_closed ch \<and> int (length (ch_buf ch)) \<le> ch_cap ch) (tr_subscribers t)
    \<and> distinct (map fst (tr_subscribers t)) \<and> distinct (map snd (tr_subscribers t))
    \<and> (tr_closed t \<longrightarrow> tr_subscribers t = [])"
proof -
  note ok = reach_facts(2) [OF assms(1)]
  have "case tr_chans t (snd e) of None \<Rightarrow> False
     | Some ch \<Rightarrow> \<not> ch_closed ch \<and> int (length (ch_buf ch)) \<le> ch_cap ch" if "e \<in> set (tr_subscribers t)" for e
    using subs_okD(3) [OF ok that] subs_okD(5) [OF ok] by auto
  then show ?thesis
    using reach_facts(4,5) [OF assms(1)] assms(2) subs_okD(1,2,6) [OF ok]
    by (simp add: list_all_iff admitted_def)
qed

theorem topic_bounded_witness:
  "length (tr_queue ex_topic2) = 1 \<and> int (length (tr_queue ex_topic2)) \<le> qc_MaxMessages (tc_Queue (tr_cfg ex_topic2))"
proof -
  have "length (tr_queue ex_topic2) = 1" by code_simp
  then show ?thesis using topic_bounded [OF ex_reach2 ex_laws] by simp
qed

section \<open>Duplicate suppression over time\<close>

text \<open>
  C2: Once a message is accepted at time \<open>s\<close>, no message with the same ID is accepted again
  as long as the clock is within \<^verbatim>\<open>DuplicateTTL\<close> of \<open>s\<close>, whatever operations run in
  between and in whatever order: the submission returns an error, nothing is queued and no
  subscriber is notified.
\<close>

theorem duplicate_suppressed:
  assumes "topic_reach g t" "message_id_laws g"
    and acc: "submitSigned g n1 s t (Some m0) src peer = Some (None, Some m, calls, t1)"
    and run: "topic_run g lim t1 t2"
    and window: "n2 \<le> lim" "time_Sub lim s \<le> qc_DuplicateTTL (tc_Queue (tr_cfg t))"
    and same: "g_ComputeDmqMessageID g (m_Payload m0') = Inr (g_ID g m)"
  shows "\<exists>err m' calls' t3. submitSigned g n1' n2 t2 (Some m0') src' peer' = Some (Some err, m', calls', t3)
    \<and> set (tr_queue t3) \<subseteq> set (tr_queue t2) \<and> tr_chans t3 = tr_chans t2"
proof -
  note inv = topic_reach_inv [OF assms(1)]
  obtain i env where i: "m = g_SetMessageID g i m0" "t1 = accepted g s t m env"
    using acc unfolding submitSigned_accept [OF topic_invD(1,2) [OF inv] assms(2)] by (auto simp: Let_def)
  have "topic_inv g t1" using topic_inv_submit [OF inv acc] .
  moreover have "tr_seen t1 (g_ID g m) = Some s" "tr_cfg t1 = tr_cfg t" using i(2) by (simp_all add: accepted_def)
  ultimately have t2: "topic_inv g t2" "tr_cfg t2 = tr_cfg t" "tr_seen t2 (g_ID g m) = Some s"
    using topic_run_seen [OF run] window(2) by simp_all
  note ok2 = topic_invD(1,2) [OF t2(1)]
  have "fresh_seen n2 t2 (g_ID g m) = Some s"
    using t2 window time_Sub_mono [OF window(1), of s] by (intro fresh_seen_keep) simp_all
  then have "\<not> admits g n1' n2 t2 m0' j" for j
    using same by (auto simp: admits_def well_identified_def)
  then have no: "submitSigned g n1' n2 t2 (Some m0') src' peer' \<noteq> Some (None, m', c', t3)" for m' c' t3
    using submitSigned_accept [OF ok2 assms(2)] by blast
  obtain err m' c' t3 where sub: "submitSigned g n1' n2 t2 (Some m0') src' peer' = Some (Some err, m', c', t3)"
    using submitSigned_total [OF ok2, of g n1' n2 "Some m0'" src' peer'] no by (metis not_None_eq prod_cases4)
  moreover have "set (tr_queue t3) \<subseteq> set (tr_queue t2) \<and> tr_chans t3 = tr_chans t2"
    using submitSigned_refused [OF ok2(2) sub] by auto
  ultimately show ?thesis by blast
qed

lemma ex_accept:
  "\<exists>m calls. submitSigned ex_gouroboros 5 6 ex_topic1 (Some (ex_message 9)) MessageSourceLocal None
     = Some (None, Some m, calls, ex_topic2) \<and> g_ID ex_gouroboros m = [1, 9]"
  (is "\<exists>m calls. ?s = _ \<and> _")
proof -
  have "(case ?s of Some (e, Some m, calls, t') \<Rightarrow> e = None \<and> g_ID ex_gouroboros m = [1, 9] | _ \<Rightarrow> False)"
    by code_simp
  then show ?thesis by (auto simp: ex_topic2_def split: option.splits)
qed

theorem duplicate_suppressed_witness:
  "\<exists>err m' calls' t3. submitSigned ex_gouroboros 7 Second (snd (reserveSubID ex_topic2)) (Some (ex_message 9))
     MessageSourceRemote None = Some (Some err, m', calls', t3)"
proof -
  obtain m calls where acc: "submitSigned ex_gouroboros 5 6 ex_topic1 (Some (ex_message 9)) MessageSourceLocal None
     = Some (None, Some m, calls, ex_topic2)" "g_ID ex_gouroboros m = [1, 9]"
    using ex_accept by blast
  have "topic_step ex_gouroboros 8 ex_topic2 (snd (reserveSubID ex_topic2))"
    by (rule step_reserve) (rule prod.collapse [symmetric])
  then have "topic_run ex_gouroboros Second ex_topic2 (snd (reserveSubID ex_topic2))"
    by (intro r_into_rtranclp exI [of _ 8]) simp
  moreover have "time_Sub Second 6 \<le> qc_DuplicateTTL (tc_Queue (tr_cfg ex_topic1))" by code_simp
  moreover have "g_ComputeDmqMessageID ex_gouroboros (m_Payload (ex_message 9)) = Inr (g_ID ex_gouroboros m)"
    unfolding acc(2) by (simp add: ex_gouroboros_def ex_message_def)
  ultimately show ?thesis using duplicate_suppressed [OF ex_reach1 ex_laws acc(1)] by blast
qed

section \<open>Queries\<close>

text \<open>What the peer protocols can be told about a message: its ID and encoded size.\<close>

definition id_and_size :: "gouroboros \<Rightarrow> DmqMessage \<Rightarrow> MessageIDAndSize list" where
  "id_and_size g m = (case g_CborEncode g m of Inl e \<Rightarrow> []
     | Inr b \<Rightarrow> [\<lparr>ms_MessageID = g_ID g m, ms_SizeInBytes = word_of_nat (length b)\<rparr>])"

lemma messageIDs_loop_eq:
  assumes "\<forall>m \<in> set msgs. validateMessageTTL g m now ttl = None" "mx > 0 \<Longrightarrow> int (length ids) < mx"
  shows "messageIDs_loop g now ttl mx ids msgs =
    (let new = concat (map (id_and_size g) msgs) in if mx > 0 then take (nat mx) (ids @ new) else ids @ new)"
  using assms
proof (induction msgs arbitrary: ids)
  case (Cons m msgs)
  show ?case
  proof (cases "g_CborEncode g m")
    case (Inl e)
    then show ?thesis using Cons by (simp add: id_and_size_def)
  next
    case (Inr b)
    show ?thesis
    proof (cases "mx > 0 \<and> int (Suc (length ids)) \<ge> mx")
      case True
      then have "nat mx = Suc (length ids)" using Cons.prems(2) by linarith
      then show ?thesis using True Inr Cons.prems(1) by (simp add: id_and_size_def)
    next
      case False
      then show ?thesis using Inr Cons by (auto simp: id_and_size_def Let_def not_le)
    qed
  qed
next
  case Nil
  show ?case
  proof (cases "mx > 0")
    case True
    with Nil have "length ids \<le> nat mx" by linarith
    then show ?thesis using True by simp
  qed simp
qed

lemma messageIDs_eq:
  "messageIDs g now t mx =
     (let new = concat (map (id_and_size g) (filter (live g now t) (tr_queue t)))
      in if mx > 0 then take (nat mx) new else new,
      t\<lparr>tr_queue := filter (live g now t) (tr_queue t)\<rparr>)"
proof -
  have "\<forall>m \<in> set (filter (live g now t) (tr_queue t)). validateMessageTTL g m now (tc_TTL (tr_cfg t)) = None"
    by (simp add: live_def)
  from messageIDs_loop_eq [OF this, of mx "[]"] show ?thesis
    by (simp add: messageIDs_def pruneQueue_eq Let_def)
qed

lemma messagesByIDs_eq:
  "messagesByIDs g now t ids =
     (map (cloneMessage g) (filter (\<lambda>m. live g now t m \<and> g_ID g m \<in> set ids) (tr_queue t)),
      t\<lparr>tr_queue := filter (live g now t) (tr_queue t)\<rparr>)"
proof -
  have sel: "concat (map (\<lambda>m. if g_ID g m \<notin> set ids then []
      else if validateMessageTTL g m now (tc_TTL (tr_cfg t')) \<noteq> None then [] else [cloneMessage g m]) q)
    = map (cloneMessage g) (filter (\<lambda>m. live g now t m \<and> g_ID g m \<in> set ids) q)"
    if "tr_cfg t' = tr_cfg t" for q and t' :: topicRuntime
    using that by (induction q) (simp_all add: live_def)
  show ?thesis unfolding messagesByIDs_def Let_def pruneQueue_eq by (subst sel) simp_all
qed

text \<open>
  The announcement list is exactly the IDs and encoded sizes of the still-valid queued
  messages, oldest first, cut to \<open>max\<close> when that is positive; and the fetch by ID returns
  exactly the still-valid queued messages whose ID was asked for, in queue order, so asking for
  what was announced at the same instant returns every announced message.
\<close>

theorem queries_exact:
  assumes "message_id_laws g"
  shows "messageIDs g now t mx =
     (let new = concat (map (id_and_size g) (filter (live g now t) (tr_queue t)))
      in if mx > 0 then take (nat mx) new else new,
      t\<lparr>tr_queue := filter (live g now t) (tr_queue t)\<rparr>)
   \<and> messagesByIDs g now t ids =
     (map (cloneMessage g) (filter (\<lambda>m. live g now t m \<and> g_ID g m \<in> set ids) (tr_queue t)),
      t\<lparr>tr_queue := filter (live g now t) (tr_queue t)\<rparr>)
   \<and> set (map ms_MessageID (fst (messageIDs g now t mx)))
      \<subseteq> set (map (g_ID g) (fst (messagesByIDs g now t (map ms_MessageID (fst (messageIDs g now t mx))))))"
proof -
  have "set (fst (messageIDs g now t mx)) \<subseteq> set (concat (map (id_and_size g) (filter (live g now t) (tr_queue t))))"
    by (auto simp: messageIDs_eq Let_def dest: in_set_takeD)
  then have ann: "\<exists>m \<in> set (tr_queue t). live g now t m \<and> ms_MessageID x = g_ID g m"
    if "x \<in> set (fst (messageIDs g now t mx))" for x
    using that by (fastforce simp: id_and_size_def split: sum.splits)
  have "set (map ms_MessageID (fst (messageIDs g now t mx)))
      \<subseteq> set (map (g_ID g) (fst (messagesByIDs g now t (map ms_MessageID (fst (messageIDs g now t mx))))))"
    (is "?announced \<subseteq> ?fetched")
  proof
    fix i assume i: "i \<in> ?announced"
    then obtain m where "m \<in> set (tr_queue t)" "live g now t m" "g_ID g m = i" using ann by fastforce
    then show "i \<in> ?fetched" using i by (force simp: messagesByIDs_eq cloneMessage_ID [OF assms])
  qed
  then show ?thesis using messageIDs_eq messagesByIDs_eq by blast
qed

theorem queries_exact_witness:
  "fst (messageIDs ex_gouroboros 7 ex_topic2 1) = [\<lparr>ms_MessageID = [1, 9], ms_SizeInBytes = 1\<rparr>]
   \<and> [1, 9] \<in> set (map (g_ID ex_gouroboros) (fst (messagesByIDs ex_gouroboros 7 ex_topic2 [[1, 9]])))"
proof -
  have ids: "fst (messageIDs ex_gouroboros 7 ex_topic2 1) = [\<lparr>ms_MessageID = [1, 9], ms_SizeInBytes = 1\<rparr>]"
    by code_simp
  have "set (map ms_MessageID (fst (messageIDs ex_gouroboros 7 ex_topic2 1)))
      \<subseteq> set (map (g_ID ex_gouroboros) (fst (messagesByIDs ex_gouroboros 7 ex_topic2
          (map ms_MessageID (fst (messageIDs ex_gouroboros 7 ex_topic2 1))))))"
    using queries_exact [OF ex_laws] by blast
  then show ?thesis unfolding ids by simp
qed

section \<open>The error of a refusal\<close>

lemma submitSigned_normalized:
  assumes "well_identified g m0 i"
  shows "submitSigned g now1 now2 t (Some m0) source peer =
    (let m = g_SetMessageID g i m0 in
     case validateMessageTTL g m now1 (tc_TTL (tr_cfg t)) of
       Some err \<Rightarrow> Some (Some err, Some m, callRejected t m (rejectReasonOf err), t)
     | None \<Rightarrow> (case authenticateMessage t m of None \<Rightarrow> None
         | Some (Some err) \<Rightarrow> Some (Some err, Some m, callRejected t m (InvalidReason err), t)
         | Some None \<Rightarrow> (case submitLocked g now2 t m (messageEnvelope g t now2 m source peer) of
             None \<Rightarrow> None | Some (err, calls, t') \<Rightarrow> Some (err, Some m, calls, t'))))"
proof -
  have "normalizeAndValidateMessage g m0 = (None, g_SetMessageID g i m0)"
    using assms normalize_ok by blast
  then show ?thesis by (simp add: submitSigned_def Let_def)
qed

text \<open>A submission is refused with a sentinel and a reason, and leaves the topic untouched.\<close>

definition refused_with :: "sentinel \<Rightarrow> (go_error \<Rightarrow> RejectReason) \<Rightarrow> DmqMessage \<Rightarrow> topicRuntime \<Rightarrow>
    (go_error option \<times> DmqMessage option \<times> hook_call list \<times> topicRuntime) option \<Rightarrow> bool" where
  "refused_with sent r m t res = (case res of
     Some (Some e, Some m', calls, t') \<Rightarrow> errors_is e sent \<and> m' = m \<and> calls = callRejected t m (r e) \<and> t' = t
   | _ \<Rightarrow> False)"

lemma refused_ttl:
  assumes "well_identified g m0 i" "validateMessageTTL g (g_SetMessageID g i m0) now1 (tc_TTL (tr_cfg t)) = Some e"
    "errors_is e sent" "rejectReasonOf e = r e"
  shows "refused_with sent r (g_SetMessageID g i m0) t (submitSigned g now1 now2 t (Some m0) source peer)"
  using assms by (simp add: submitSigned_normalized refused_with_def Let_def)

text \<open>
  C29: The refusals that do not depend on the topic's contents, in their order: an oversized
  body, then an ID other than the computed one, then an expired message, then a TTL beyond the
  maximum. Each returns its sentinel, tells the rejection hook the matching reason (expired, or
  invalid with that error) and leaves the topic untouched.
\<close>

theorem submitSigned_static_errors:
  "(length (pl_MessageBody (m_Payload m0)) > 2000 \<longrightarrow>
      refused_with ErrMessageBodyTooLarge InvalidReason m0 t (submitSigned g now1 now2 t (Some m0) source peer))
   \<and> (length (pl_MessageBody (m_Payload m0)) \<le> 2000 \<and> g_ComputeDmqMessageID g (m_Payload m0) = Inr i
        \<and> g_ID g m0 \<noteq> [] \<and> g_ID g m0 \<noteq> i \<longrightarrow>
      refused_with ErrMessageIDMismatch InvalidReason m0 t (submitSigned g now1 now2 t (Some m0) source peer))
   \<and> (well_identified g m0 i \<and> \<not> tp_Disable (tc_TTL (tr_cfg t))
        \<and> g_ValidateMessageTTLAt g (tp_MaxTTL (tc_TTL (tr_cfg t))) (g_SetMessageID g i m0) now1 = Some txt \<longrightarrow>
      (strings_Contains txt ''has expired'' \<longrightarrow>
        refused_with ErrMessageExpired (\<lambda>e. ExpiredReason) (g_SetMessageID g i m0) t
          (submitSigned g now1 now2 t (Some m0) source peer))
      \<and> (\<not> strings_Contains txt ''has expired'' \<and> strings_Contains txt ''too far in future'' \<longrightarrow>
        refused_with ErrMessageTTLTooFar InvalidReason (g_SetMessageID g i m0) t
          (submitSigned g now1 now2 t (Some m0) source peer)))"
  (is "?body \<and> ?mismatch \<and> ?ttl")
proof -
  have ?body ?mismatch
    by (simp_all add: refused_with_def submitSigned_def normalizeAndValidateMessage_def ValidateMessageBody_def
        rejectReasonOf_def)
  moreover have ?ttl
    by (auto intro!: refused_ttl simp: validateMessageTTL_def wrapTTLValidationError_def rejectReasonOf_def)
  ultimately show ?thesis by blast
qed

theorem submitSigned_static_errors_witness:
  "refused_with ErrMessageExpired (\<lambda>e. ExpiredReason) (g_SetMessageID ex_gouroboros [1, 9] (ex_message 9)) ex_topic2
     (submitSigned ex_gouroboros (100 * Second) 0 ex_topic2 (Some (ex_message 9)) MessageSourceLocal None)"
proof -
  have "well_identified ex_gouroboros (ex_message 9) [1, 9]" "\<not> tp_Disable (tc_TTL (tr_cfg ex_topic2))"
    "g_ValidateMessageTTLAt ex_gouroboros (tp_MaxTTL (tc_TTL (tr_cfg ex_topic2)))
      (g_SetMessageID ex_gouroboros [1, 9] (ex_message 9)) (100 * Second) = Some ''message has expired''"
    "strings_Contains ''message has expired'' ''has expired''"
    by code_simp+
  then show ?thesis using submitSigned_static_errors by blast
qed

text \<open>
  For a message that passes those checks and the authenticator, the decision under the mutex
  is complete and in this order: a closed topic refuses with \<^verbatim>\<open>ErrManagerClosed\<close> and no
  hook, an ID still in the duplicate window with \<^verbatim>\<open>ErrDuplicateMessage\<close>, a full queue with
  \<^verbatim>\<open>ErrQueueFull\<close>, both after pruning, and otherwise the message is accepted.
\<close>

theorem submitSigned_locked_decision:
  assumes "topic_reach g t" "message_id_laws g" "well_identified g m0 i"
    and "live g now1 t (g_SetMessageID g i m0)" "authentic t (g_SetMessageID g i m0)"
  shows "submitSigned g now1 now2 t (Some m0) source peer =
    (let m = g_SetMessageID g i m0; env = messageEnvelope g t now2 m source peer in Some
     (if tr_closed t then (Some (Sentinel ErrManagerClosed), Some m, [], t)
      else if fresh_seen now2 t i \<noteq> None
        then (Some (Sentinel ErrDuplicateMessage), Some m, callRejected t m AlreadyReceivedReason, pruned g now2 t)
      else if \<not> has_room g now2 t
        then (Some (Sentinel ErrQueueFull), Some m, callRejected t m (OtherReason (Sentinel ErrQueueFull)), pruned g now2 t)
      else (None, Some m, acceptedHook t env, accepted g now2 t m env)))"
  using assms(4,5) message_id_lawsD(1) [OF assms(2)]
  by (simp add: submitSigned_normalized [OF assms(3)] live_def authentic_def Let_def
      submitLocked_eq [OF reach_facts(2) [OF assms(1)]])

theorem submitSigned_locked_decision_witness:
  "\<exists>m calls t'. submitSigned ex_gouroboros 5 7 ex_topic2 (Some (ex_message 9)) MessageSourceLocal None
     = Some (Some (Sentinel ErrDuplicateMessage), m, calls, t')"
proof -
  have w: "well_identified ex_gouroboros (ex_message 9) [1, 9]"
    "live ex_gouroboros 5 ex_topic2 (g_SetMessageID ex_gouroboros [1, 9] (ex_message 9))"
    "authentic ex_topic2 (g_SetMessageID ex_gouroboros [1, 9] (ex_message 9))"
    by code_simp+
  have "\<not> tr_closed ex_topic2" "fresh_seen 7 ex_topic2 [1, 9] \<noteq> None" by code_simp+
  then show ?thesis using submitSigned_locked_decision [OF ex_reach2 ex_laws w] by (simp add: Let_def)
qed

section \<open>Shutdown\<close>

text \<open>
  C30: Closing a topic closes the channel of every subscriber, keeping what is buffered in it, and
  is final: whatever runs afterwards, the topic stays closed and without subscribers, no
  submission is accepted, and a new subscription comes with a channel that is already closed.
\<close>

theorem close_is_final:
  assumes "topic_reach g t" "\<not> tr_closed t" "closeTopic t = Some t1"
    and "(\<lambda>a b. \<exists>now. topic_step g now a b)\<^sup>*\<^sup>* t1 t2"
  shows "(\<forall>sid c. (sid, c) \<in> set (tr_subscribers t) \<longrightarrow>
        tr_chans t1 c = map_option (\<lambda>ch. ch\<lparr>ch_closed := True\<rparr>) (tr_chans t c) \<and> tr_chans t c \<noteq> None)
    \<and> tr_closed t2 \<and> tr_subscribers t2 = []
    \<and> (\<forall>now1 now2 msg source peer m calls t3.
        submitSigned g now1 now2 t2 msg source peer \<noteq> Some (None, m, calls, t3))
    \<and> (\<exists>sub t3. subscribe t2 = (sub, t3) \<and> sub_closed sub
        \<and> (\<exists>ch. tr_chans t3 (sub_C sub) = Some ch \<and> ch_closed ch \<and> ch_buf ch = []))"
proof -
  note inv = topic_reach_inv [OF assms(1)]
  have t1: "t1 = closed_topic t" using assms(2,3) topic_invD(2) [OF inv] by (simp add: closeTopic_eq)
  have chans: "tr_chans t1 c = map_option (\<lambda>ch. ch\<lparr>ch_closed := True\<rparr>) (tr_chans t c) \<and> tr_chans t c \<noteq> None"
    if "(sid, c) \<in> set (tr_subscribers t)" for sid c
    using subs_okD(3) [OF topic_invD(2) [OF inv] that] that
    by (auto simp: t1 closed_topic_def on_subscribers_def image_iff)
  have "topic_inv g t2 \<and> tr_closed t2"
    using assms(4)
  proof (induction rule: rtranclp_induct)
    case base
    then show ?case using topic_inv_closed_topic [OF inv] by (simp add: t1 closed_topic_def)
  next
    case (step u v)
    then show ?case using topic_inv_step topic_step_frame(3) by blast
  qed
  then have ok: "subs_ok t2" and cl: "tr_closed t2" by (auto dest: topic_invD(2))
  have "submitSigned g now1 now2 t2 msg source peer \<noteq> Some (None, m, calls, t3)" for now1 now2 msg source peer m calls t3
    using cl by (auto simp: submitSigned_def submitLocked_def split: option.splits prod.splits)
  moreover have "\<exists>sub t3. subscribe t2 = (sub, t3) \<and> sub_closed sub
        \<and> (\<exists>ch. tr_chans t3 (sub_C sub) = Some ch \<and> ch_closed ch \<and> ch_buf ch = [])"
    using cl by (simp add: subscribe_def reserveSubID_def attachSubscription_def Let_def)
  ultimately show ?thesis using chans cl subs_okD(6) [OF ok cl] by blast
qed

theorem close_is_final_witness:
  "\<exists>t1. closeTopic ex_topic2 = Some t1 \<and> tr_closed t1 \<and> tr_subscribers t1 = []
     \<and> (\<exists>ch. tr_chans t1 0 = Some ch \<and> ch_closed ch)"
proof -
  have open2: "\<not> tr_closed ex_topic2" "(1, 0) \<in> set (tr_subscribers ex_topic2)" by code_simp+
  obtain t1 where t1: "closeTopic ex_topic2 = Some t1"
    using closeTopic_eq [OF reach_facts(2) [OF ex_reach2]] by blast
  show ?thesis using close_is_final [OF ex_reach2 open2(1) t1 rtranclp.rtrancl_refl] open2(2) t1 by fastforce
qed

end
