(* ===== verification/Topic_Refinement.thy ===== *)
theory Topic_Refinement
  imports Topic_Properties
begin

text \<open>
  The contract a topic offers its users, without channels, channel identities or map order: a
  log of messages, a table of seen IDs and one bounded mailbox per subscription. The operations
  of \<open>topicRuntime\<close> implement it.
\<close>

section \<open>The abstract topic\<close>

record mailbox_topic =
  mb_closed :: bool
  mb_log :: "DmqMessage list"
  mb_seen :: "bytes \<rightharpoonup> gotime"
  mb_boxes :: "u64 \<rightharpoonup> int \<times> Message list"

fun offer :: "Message \<Rightarrow> int \<times> Message list \<Rightarrow> int \<times> Message list" where
  "offer m (cap, ms) = (if int (length ms) < cap then (cap, ms @ [m]) else (cap, ms))"

definition mb_post :: "(DmqMessage \<Rightarrow> bool) \<Rightarrow> (bytes \<rightharpoonup> gotime) \<Rightarrow> DmqMessage \<Rightarrow> Message \<Rightarrow> mailbox_topic \<Rightarrow> mailbox_topic" where
  "mb_post keep seen m env b = b\<lparr>mb_log := filter keep (mb_log b) @ [m], mb_seen := seen,
     mb_boxes := (\<lambda>sid. map_option (offer env) (mb_boxes b sid))\<rparr>"

definition mb_open :: "u64 \<Rightarrow> int \<Rightarrow> mailbox_topic \<Rightarrow> mailbox_topic" where
  "mb_open sid cap b = (if mb_closed b then b else b\<lparr>mb_boxes := (mb_boxes b)(sid \<mapsto> (cap, []))\<rparr>)"

definition mb_cancel :: "u64 \<Rightarrow> mailbox_topic \<Rightarrow> mailbox_topic" where
  "mb_cancel sid b = b\<lparr>mb_boxes := (mb_boxes b)(sid := None)\<rparr>"

definition mb_shutdown :: "mailbox_topic \<Rightarrow> mailbox_topic" where
  "mb_shutdown b = b\<lparr>mb_closed := True, mb_boxes := Map.empty\<rparr>"

definition mb_take :: "u64 \<Rightarrow> mailbox_topic \<Rightarrow> Message option \<times> mailbox_topic" where
  "mb_take sid b = (case mb_boxes b sid of
     Some (cap, m # ms) \<Rightarrow> (Some m, b\<lparr>mb_boxes := (mb_boxes b)(sid \<mapsto> (cap, ms))\<rparr>)
   | _ \<Rightarrow> (None, b))"

text \<open>The abstraction: a subscriber's mailbox is the buffer of its channel.\<close>

definition boxes :: "topicRuntime \<Rightarrow> u64 \<Rightarrow> (int \<times> Message list) option" where
  "boxes t sid = Option.bind (map_of (tr_subscribers t) sid)
     (\<lambda>c. map_option (\<lambda>ch. (ch_cap ch, ch_buf ch)) (tr_chans t c))"

definition abs_topic :: "topicRuntime \<Rightarrow> mailbox_topic" where
  "abs_topic t = \<lparr>mb_closed = tr_closed t, mb_log = tr_queue t, mb_seen = tr_seen t, mb_boxes = boxes t\<rparr>"

lemma abs_topic_simps [simp]:
  "mb_closed (abs_topic t) = tr_closed t" "mb_log (abs_topic t) = tr_queue t"
  "mb_seen (abs_topic t) = tr_seen t" "mb_boxes (abs_topic t) = boxes t"
  by (simp_all add: abs_topic_def)

section \<open>The operations implement it\<close>

lemma boxes_accepted: "boxes (accepted g now t m env) = (\<lambda>sid. map_option (offer env) (boxes t sid))"
proof
  fix sid
  show "boxes (accepted g now t m env) sid = map_option (offer env) (boxes t sid)"
  proof (cases "map_of (tr_subscribers t) sid")
    case (Some c)
    then have "c \<in> snd ` set (tr_subscribers t)" by (force dest: map_of_SomeD)
    then show ?thesis
      by (cases "tr_chans t c") (auto simp: boxes_def accepted_def Some on_subscribers_def delivered_def)
  qed (simp add: boxes_def accepted_def)
qed

text \<open>Distinct subscriptions have distinct channels, so an update of one leaves the others alone.\<close>

lemma other_channel:
  assumes "subs_ok t" "map_of (tr_subscribers t) sid = Some c" "map_of (tr_subscribers t) sid' = Some c'" "sid \<noteq> sid'"
  shows "c' \<noteq> c"
proof
  assume "c' = c"
  then have "(sid, c) \<in> set (tr_subscribers t)" "(sid', c) \<in> set (tr_subscribers t)"
    using assms(2,3) by (auto dest: map_of_SomeD)
  moreover have "inj_on snd (set (tr_subscribers t))" using subs_okD(2) [OF assms(1)] by (simp add: distinct_map)
  ultimately show False using assms(4) by (metis Pair_inject inj_onD snd_conv)
qed

lemma boxes_attach:
  assumes "subs_ok t" "attachSubscription sid t = (sub, t')"
  shows "abs_topic t' = mb_open sid (qc_SubscriberBuffer (tc_Queue (tr_cfg t))) (abs_topic t)"
proof -
  have old: "c \<noteq> tr_nextChan t" if "map_of (tr_subscribers t) k = Some c" for k c
  proof -
    have "(k, c) \<in> set (tr_subscribers t)" using that by (rule map_of_SomeD)
    from subs_okD(3) [OF assms(1) this] show ?thesis using subs_okD(4) [OF assms(1)] by fastforce
  qed
  have "boxes t' = (if tr_closed t then boxes t else (boxes t)(sid \<mapsto> (qc_SubscriberBuffer (tc_Queue (tr_cfg t)), [])))"
    using assms(2) old
    by (auto simp: attachSubscription_def Let_def boxes_def fun_eq_iff split: if_splits intro!: Option.bind_cong)
  then show ?thesis using assms(2)
    by (auto simp: abs_topic_def mb_open_def attachSubscription_def Let_def split: if_splits)
qed

lemma abs_unsubscribe:
  assumes "subs_ok t" "unsubscribe sid t = Some t'"
  shows "abs_topic t' = mb_cancel sid (abs_topic t)"
proof (cases "map_of (tr_subscribers t) sid")
  case None
  then show ?thesis using assms(2) by (simp add: unsubscribe_def mb_cancel_def abs_topic_def boxes_def fun_eq_iff)
next
  case (Some c)
  obtain ch where t': "t' = t\<lparr>tr_subscribers := go_map_delete sid (tr_subscribers t),
       tr_chans := (tr_chans t)(c \<mapsto> ch\<lparr>ch_closed := True\<rparr>)\<rparr>"
    using unsubscribe_open [OF assms(1) Some] assms(2) by auto
  have "boxes t' k = ((boxes t)(sid := None)) k" for k
    using other_channel [OF assms(1) Some]
    by (auto simp: t' boxes_def map_of_go_map_delete [OF subs_okD(1) [OF assms(1)]] intro!: Option.bind_cong)
  then have "boxes t' = (boxes t)(sid := None)" by (rule ext)
  then show ?thesis by (simp add: abs_topic_def mb_cancel_def t')
qed

lemma abs_receive:
  assumes "subs_ok t" "map_of (tr_subscribers t) sid = Some c" "receive c t = (m, t')"
  shows "mb_take sid (abs_topic t) = (m, abs_topic t')"
proof -
  have "(sid, c) \<in> set (tr_subscribers t)" using assms(2) by (rule map_of_SomeD)
  then obtain ch where ch: "tr_chans t c = Some ch" using subs_okD(3) [OF assms(1)] by fastforce
  show ?thesis
  proof (cases "ch_buf ch")
    case Nil
    then show ?thesis using assms(2,3) ch by (simp add: receive_def mb_take_def boxes_def)
  next
    case (Cons x xs)
    then have t': "m = Some x" "t' = t\<lparr>tr_chans := (tr_chans t)(c \<mapsto> ch\<lparr>ch_buf := xs\<rparr>)\<rparr>"
      using assms(3) ch by (simp_all add: receive_def)
    have "boxes t' k = ((boxes t)(sid \<mapsto> (ch_cap ch, xs))) k" for k
      using other_channel [OF assms(1,2)] assms(2) by (auto simp: t' boxes_def intro!: Option.bind_cong)
    then have "boxes t' = (boxes t)(sid \<mapsto> (ch_cap ch, xs))" by (rule ext)
    then show ?thesis using Cons ch assms(2) t' by (simp add: mb_take_def abs_topic_def boxes_def)
  qed
qed

text \<open>
  C5: Every operation of a reachable topic implements the abstract topic of bounded mailboxes:
  an accepted submission is one post (to the pruned log, the seen table and every mailbox with
  room), and subscribing, unsubscribing, closing and receiving are the corresponding
  operations on the mailbox of that subscription alone.
\<close>

theorem topic_refines_mailboxes:
  assumes "topic_reach g t" "message_id_laws g"
  shows "(submitSigned g now1 now2 t (Some m0) source peer = Some (None, Some m, calls, t1) \<longrightarrow>
      abs_topic t1 = mb_post (live g now2 t) ((fresh_seen now2 t)(g_ID g m \<mapsto> now2)) (cloneMessage g m)
        (messageEnvelope g t now2 m source peer) (abs_topic t))
    \<and> (attachSubscription sid t = (sub, t2) \<longrightarrow>
        abs_topic t2 = mb_open sid (qc_SubscriberBuffer (tc_Queue (tr_cfg t))) (abs_topic t))
    \<and> (unsubscribe sid t = Some t3 \<longrightarrow> abs_topic t3 = mb_cancel sid (abs_topic t))
    \<and> (closeTopic t = Some t4 \<longrightarrow> abs_topic t4 = mb_shutdown (abs_topic t))
    \<and> (map_of (tr_subscribers t) sid = Some c \<and> receive c t = (r, t5) \<longrightarrow>
        mb_take sid (abs_topic t) = (r, abs_topic t5))"
  (is "?submit \<and> ?rest")
proof -
  note ok = reach_facts(1,2) [OF assms(1)]
  have ?submit
    unfolding submitSigned_accept [OF ok assms(2)]
    by (auto simp: Let_def abs_topic_def boxes_accepted mb_post_def) (simp_all add: accepted_def)
  moreover have "abs_topic t4 = mb_shutdown (abs_topic t)" if "closeTopic t = Some t4"
    using that subs_okD(6) [OF ok(2)]
    by (auto simp: closeTopic_eq [OF ok(2)] abs_topic_def mb_shutdown_def closed_topic_def boxes_def fun_eq_iff
        split: if_splits)
  ultimately show ?thesis
    using boxes_attach [OF ok(2)] abs_unsubscribe [OF ok(2)] abs_receive [OF ok(2)] by blast
qed

theorem topic_refines_mailboxes_witness:
  "\<exists>t4. closeTopic ex_topic2 = Some t4 \<and> abs_topic t4 = mb_shutdown (abs_topic ex_topic2)"
proof -
  obtain t4 where "closeTopic ex_topic2 = Some t4"
    using closeTopic_eq [OF reach_facts(2) [OF ex_reach2]] by blast
  then show ?thesis using topic_refines_mailboxes [OF ex_reach2 ex_laws] by blast
qed

end
