(* ===== verification/Dmq_Manager.thy ===== *)
theory Dmq_Manager
  imports Topic_Refinement
begin

text \<open>
  \<^verbatim>\<open>manager.go\<close>: the manager of a set of topics. A topic is reached through its name, so the
  topic objects live in the manager's map; an operation that looked its topic up before the
  manager was closed may still run afterwards, which the step relation allows. The part of
  \<^verbatim>\<open>Shutdown\<close> that closes services is in \<^verbatim>\<open>Node_Service\<close>.
\<close>

section \<open>State and operations\<close>

record Manager =
  mg_signer :: "Signer option"
  mg_auth :: "MessageAuthenticator option"
  mg_cancelled :: bool
  mg_topics :: "(string \<times> topicRuntime) list"
  mg_services :: "nat list"
  mg_closed :: bool

definition NewManager :: "ManagerConfig \<Rightarrow> Manager" where
  "NewManager cfg = \<lparr>mg_signer = mc_Signer cfg, mg_auth = mc_Authenticator cfg, mg_cancelled = False,
     mg_topics = [], mg_services = [], mg_closed = False\<rparr>"

definition fillTopicConfig :: "Manager \<Rightarrow> TopicConfig \<Rightarrow> TopicConfig" where
  "fillTopicConfig m cfg =
     (let cfg = defaultTopicConfig cfg;
          cfg = (if tc_Signer cfg = None then cfg\<lparr>tc_Signer := mg_signer m\<rparr> else cfg);
          auth = tc_Authentication cfg
      in if ac_Required auth \<and> ac_Authenticator auth = None
         then cfg\<lparr>tc_Authentication := auth\<lparr>ac_Authenticator := mg_auth m\<rparr>\<rparr> else cfg)"

definition RegisterTopic :: "string \<Rightarrow> TopicConfig \<Rightarrow> Manager \<Rightarrow> go_error option \<times> Manager" where
  "RegisterTopic topic cfg m =
     (if topic = [] then (Some (ErrorNew ''topic is required''), m)
      else if mg_closed m then (Some (Sentinel ErrManagerClosed), m)
      else if map_of (mg_topics m) topic \<noteq> None then (Some (Sentinel ErrTopicExists), m)
      else
        (let cfg = fillTopicConfig m cfg
         in if ac_Required (tc_Authentication cfg) \<and> ac_Authenticator (tc_Authentication cfg) = None
            then (Some (Sentinel ErrAuthenticatorRequired), m)
            else (None, m\<lparr>mg_topics := go_map_put topic (newTopicRuntime topic cfg) (mg_topics m)\<rparr>)))"

definition topicOf :: "Manager \<Rightarrow> string \<Rightarrow> topicRuntime result" where
  "topicOf m topic =
     (if mg_closed m then Inl (Sentinel ErrManagerClosed)
      else case map_of (mg_topics m) topic of
        None \<Rightarrow> Inl (Sentinel ErrTopicNotFound)
      | Some rt \<Rightarrow> Inr rt)"

text \<open>The shape of every per-topic operation: look the topic up, then run on it.\<close>

definition callTopic :: "(go_error \<Rightarrow> 'a) \<Rightarrow> (topicRuntime \<Rightarrow> ('a \<times> hook_call list \<times> topicRuntime) option) \<Rightarrow>
    string \<Rightarrow> Manager \<Rightarrow> ('a \<times> hook_call list \<times> Manager) option" where
  "callTopic fail f topic m =
     (case topicOf m topic of
        Inl err \<Rightarrow> Some (fail err, [], m)
      | Inr rt \<Rightarrow> (case f rt of None \<Rightarrow> None
          | Some (r, calls, rt') \<Rightarrow> Some (r, calls, m\<lparr>mg_topics := go_map_put topic rt' (mg_topics m)\<rparr>)))"

definition submitOn :: "gouroboros \<Rightarrow> gotime \<Rightarrow> gotime \<Rightarrow> DmqMessage option \<Rightarrow> MessageSource \<Rightarrow> Peer option \<Rightarrow>
    topicRuntime \<Rightarrow> (go_error option \<times> hook_call list \<times> topicRuntime) option" where
  "submitOn g now1 now2 msg source peer rt =
     map_option (\<lambda>(err, m, calls, rt'). (err, calls, rt')) (submitSigned g now1 now2 rt msg source peer)"

definition Publish :: "gouroboros \<Rightarrow> gotime \<Rightarrow> gotime \<Rightarrow> gotime \<Rightarrow> gocontext \<Rightarrow> string \<Rightarrow> bytes \<Rightarrow> Manager \<Rightarrow>
    (DmqMessage option result \<times> hook_call list \<times> Manager) option" where
  "Publish g now0 now1 now2 ctx topic body = callTopic Inl (\<lambda>rt. publish g now0 now1 now2 ctx rt body) topic"

definition SubmitSigned :: "gouroboros \<Rightarrow> gotime \<Rightarrow> gotime \<Rightarrow> string \<Rightarrow> DmqMessage option \<Rightarrow> Manager \<Rightarrow>
    (go_error option \<times> hook_call list \<times> Manager) option" where
  "SubmitSigned g now1 now2 topic msg = callTopic Some (submitOn g now1 now2 msg MessageSourceLocal None) topic"

definition SubmitRemote :: "gouroboros \<Rightarrow> gotime \<Rightarrow> gotime \<Rightarrow> string \<Rightarrow> DmqMessage option \<Rightarrow> Peer option \<Rightarrow> Manager \<Rightarrow>
    (go_error option \<times> hook_call list \<times> Manager) option" where
  "SubmitRemote g now1 now2 topic msg peer = callTopic Some (submitOn g now1 now2 msg MessageSourceRemote peer) topic"

definition subscribeOn :: "topicRuntime \<Rightarrow> (Subscription result \<times> hook_call list \<times> topicRuntime) option" where
  "subscribeOn rt = (let (sub, rt') = subscribe rt in Some (Inr sub, [], rt'))"

definition Subscribe :: "string \<Rightarrow> Manager \<Rightarrow> (Subscription result \<times> hook_call list \<times> Manager) option" where
  "Subscribe topic = callTopic Inl subscribeOn topic"

definition TopicPeers :: "gocontext \<Rightarrow> string \<Rightarrow> Manager \<Rightarrow> (Peer list result \<times> hook_call list \<times> Manager) option" where
  "TopicPeers ctx topic = callTopic Inl (\<lambda>rt. Some (discoverPeers ctx rt)) topic"

text \<open>
  The critical section of \<^verbatim>\<open>Shutdown\<close>: nothing to do when already closed, otherwise the
  topics and services to close.
\<close>

definition shutdownBegin :: "Manager \<Rightarrow> (string list \<times> nat list) option \<times> Manager" where
  "shutdownBegin m =
     (if mg_closed m then (None, m)
      else (Some (map fst (mg_topics m), mg_services m), m\<lparr>mg_closed := True, mg_cancelled := True\<rparr>))"

fun closeTopics :: "string list \<Rightarrow> Manager \<Rightarrow> Manager option" where
  "closeTopics [] m = Some m"
| "closeTopics (n # ns) m =
     (case map_of (mg_topics m) n of None \<Rightarrow> closeTopics ns m
      | Some rt \<Rightarrow> (case closeTopic rt of None \<Rightarrow> None
          | Some rt' \<Rightarrow> closeTopics ns (m\<lparr>mg_topics := go_map_put n rt' (mg_topics m)\<rparr>)))"

definition registerService :: "nat \<Rightarrow> Manager \<Rightarrow> go_error option \<times> Manager" where
  "registerService s m =
     (if mg_closed m then (Some (Sentinel ErrManagerClosed), m)
      else (None, m\<lparr>mg_services := List.insert s (mg_services m)\<rparr>))"

definition unregisterService :: "nat \<Rightarrow> Manager \<Rightarrow> Manager" where
  "unregisterService s m = m\<lparr>mg_services := removeAll s (mg_services m)\<rparr>"

section \<open>The invariant of the manager\<close>

abbreviation topic_steps :: "gouroboros \<Rightarrow> topicRuntime \<Rightarrow> topicRuntime \<Rightarrow> bool" where
  "topic_steps g \<equiv> (\<lambda>t t'. \<exists>now. topic_step g now t t')\<^sup>*\<^sup>*"

lemma topic_steps_reach: "topic_steps g t t' \<Longrightarrow> topic_reach g t \<Longrightarrow> topic_reach g t'"
  by (induction rule: rtranclp_induct) (auto intro: reach_step)

lemma topic_steps_frame:
  assumes "topic_steps g t t'" "topic_reach g t"
  shows "tr_name t' = tr_name t \<and> tr_cfg t' = tr_cfg t \<and> (tr_closed t \<longrightarrow> tr_closed t')"
  using assms
proof (induction rule: rtranclp_induct)
  case (step u v)
  have "topic_inv g u" using topic_reach_inv topic_steps_reach step by blast
  then show ?case using step topic_step_frame by auto
qed simp

definition mgr_inv :: "gouroboros \<Rightarrow> Manager \<Rightarrow> bool" where
  "mgr_inv g m = (distinct (map fst (mg_topics m))
     \<and> (\<forall>(n, rt) \<in> set (mg_topics m). tr_name rt = n \<and> n \<noteq> [] \<and> topic_reach g rt))"

lemma mgr_invD:
  assumes "mgr_inv g m" "map_of (mg_topics m) n = Some rt"
  shows "tr_name rt = n" "n \<noteq> []" "topic_reach g rt"
  using assms map_of_SomeD [OF assms(2)] by (auto simp: mgr_inv_def)

lemma mgr_inv_put:
  assumes "mgr_inv g m" "tr_name rt = n" "n \<noteq> []" "topic_reach g rt"
  shows "mgr_inv g (m\<lparr>mg_topics := go_map_put n rt (mg_topics m)\<rparr>)"
  using assms by (auto simp: mgr_inv_def set_go_map_put distinct_go_map_put)

lemma mgr_inv_topic_steps:
  assumes "mgr_inv g m" "map_of (mg_topics m) n = Some rt" "topic_steps g rt rt'"
  shows "mgr_inv g (m\<lparr>mg_topics := go_map_put n rt' (mg_topics m)\<rparr>)"
  using mgr_invD [OF assms(1,2)] topic_steps_frame [OF assms(3)] topic_steps_reach [OF assms(3)]
  by (intro mgr_inv_put [OF assms(1)]) auto

lemma fillTopicConfig_ok:
  assumes "\<not> (ac_Required (tc_Authentication (fillTopicConfig m cfg))
    \<and> ac_Authenticator (tc_Authentication (fillTopicConfig m cfg)) = None)"
  shows "config_ok (fillTopicConfig m cfg)"
proof -
  have "tc_Queue (fillTopicConfig m cfg) = defaultQueue (tc_Queue cfg)"
    by (simp add: fillTopicConfig_def Let_def defaultTopicConfig_def)
  then show ?thesis using assms by (simp add: config_ok_def)
qed

lemma mgr_inv_register: "mgr_inv g m \<Longrightarrow> RegisterTopic n cfg m = (err, m') \<Longrightarrow> mgr_inv g m'"
  by (auto simp: RegisterTopic_def Let_def newTopicRuntime_def topic_init_def
      intro!: mgr_inv_put reach_init fillTopicConfig_ok split: if_splits)

text \<open>
  The contract a per-topic operation has with the manager: it is made of steps of its topic and
  it never panics on a reachable one.
\<close>

locale topic_operation =
  fixes g :: gouroboros
    and f :: "topicRuntime \<Rightarrow> ('a \<times> hook_call list \<times> topicRuntime) option"
    and fail :: "go_error \<Rightarrow> 'a"
  assumes op_total: "topic_reach g rt \<Longrightarrow> f rt \<noteq> None"
    and op_steps: "topic_reach g rt \<Longrightarrow> f rt = Some (r, calls, rt') \<Longrightarrow> topic_steps g rt rt'"
begin

lemma call_total: "mgr_inv g m \<Longrightarrow> callTopic fail f n m \<noteq> None"
  using op_total mgr_invD(3)
  by (fastforce simp: callTopic_def topicOf_def split: sum.splits option.splits if_splits)

lemma call_inv: "mgr_inv g m \<Longrightarrow> callTopic fail f n m = Some (r, calls, m') \<Longrightarrow> mgr_inv g m'"
  using op_steps mgr_invD(3) mgr_inv_topic_steps
  by (fastforce simp: callTopic_def topicOf_def split: sum.splits option.splits if_splits prod.splits)

lemma call_frame:
  "callTopic fail f n m = Some (r, calls, m') \<Longrightarrow>
     (\<forall>k. k \<noteq> n \<longrightarrow> map_of (mg_topics m') k = map_of (mg_topics m) k)
     \<and> dom (map_of (mg_topics m')) = dom (map_of (mg_topics m)) \<and> mg_closed m' = mg_closed m"
  by (auto simp: callTopic_def topicOf_def split: sum.splits option.splits if_splits prod.splits)

lemma call_effect:
  assumes "\<not> mg_closed m" "map_of (mg_topics m) n = Some rt" "f rt = Some (r, calls, rt')"
  shows "callTopic fail f n m = Some (r, calls, m\<lparr>mg_topics := go_map_put n rt' (mg_topics m)\<rparr>)"
  using assms by (simp add: callTopic_def topicOf_def)

lemma call_closed: "mg_closed m \<Longrightarrow> callTopic fail f n m = Some (fail (Sentinel ErrManagerClosed), [], m)"
  by (simp add: callTopic_def topicOf_def)

lemma call_unknown:
  "\<not> mg_closed m \<Longrightarrow> map_of (mg_topics m) n = None
     \<Longrightarrow> callTopic fail f n m = Some (fail (Sentinel ErrTopicNotFound), [], m)"
  by (simp add: callTopic_def topicOf_def)

end

text \<open>The topic operations meet the contract.\<close>

lemma submit_steps:
  "submitSigned g now1 now2 rt msg source peer = Some (err, m, calls, rt') \<Longrightarrow> topic_steps g rt rt'"
  by (blast intro: step_submit)

lemma submit_total: "topic_reach g rt \<Longrightarrow> submitSigned g now1 now2 rt msg source peer \<noteq> None"
  using submitSigned_total reach_facts(1,2) by blast

interpretation publish_op: topic_operation g "\<lambda>rt. publish g now0 now1 now2 ctx rt body" Inl
  for g now0 now1 now2 ctx body
proof
  show "publish g now0 now1 now2 ctx rt body \<noteq> None" if "topic_reach g rt" for rt
    using submit_total [OF that] by (simp add: publish_def del: not_None_eq split: option.split sum.split)
  show "topic_steps g rt rt'" if "publish g now0 now1 now2 ctx rt body = Some (r, calls, rt')" for rt r calls rt'
    using that by (auto simp: publish_def split: option.splits sum.splits dest: submit_steps)
qed

interpretation submit_op: topic_operation g "submitOn g now1 now2 msg source peer" Some
  for g now1 now2 msg source peer
proof
  show "submitOn g now1 now2 msg source peer rt \<noteq> None" if "topic_reach g rt" for rt
    using submit_total [OF that, of now1 now2 msg source peer] by (auto simp: submitOn_def)
  show "topic_steps g rt rt'" if "submitOn g now1 now2 msg source peer rt = Some (r, calls, rt')" for rt r calls rt'
    using that by (auto simp: submitOn_def dest: submit_steps)
qed

interpretation subscribe_op: topic_operation g subscribeOn Inl for g
proof
  show "topic_steps g rt rt'" if "subscribeOn rt = Some (r, calls, rt')" for rt rt' r calls
  proof -
    obtain sid rt1 where r: "reserveSubID rt = (sid, rt1)" by (cases "reserveSubID rt")
    obtain sub rt2 where a: "attachSubscription sid rt1 = (sub, rt2)" by (cases "attachSubscription sid rt1")
    have "rt' = rt2" using that r a by (simp add: subscribeOn_def subscribe_def)
    moreover have "topic_steps g rt rt1" using step_reserve [OF r] by blast
    moreover have "topic_steps g rt1 rt2" using step_attach [OF a, of g 0] by blast
    ultimately show ?thesis by simp
  qed
qed (simp add: subscribeOn_def split: prod.splits)

interpretation discover_op: topic_operation g "\<lambda>rt. Some (discoverPeers ctx rt)" Inl for g ctx
proof
  show "topic_steps g rt rt'" if "Some (discoverPeers ctx rt) = Some (r, calls, rt')" for rt r calls rt'
    using that step_discover [of ctx rt r calls rt' g] by blast
qed simp

lemmas manager_ops = Publish_def SubmitSigned_def SubmitRemote_def Subscribe_def TopicPeers_def

section \<open>All interleavings\<close>

text \<open>
  The steps of a manager and its topics: registration, any step of any registered topic (also
  of one looked up before a shutdown), the start of a shutdown, and the service table.
\<close>

inductive mgr_step :: "gouroboros \<Rightarrow> Manager \<Rightarrow> Manager \<Rightarrow> bool" for g where
  ms_register: "RegisterTopic n cfg m = (err, m') \<Longrightarrow> mgr_step g m m'"
| ms_topic: "map_of (mg_topics m) n = Some rt \<Longrightarrow> topic_step g now rt rt'
    \<Longrightarrow> mgr_step g m (m\<lparr>mg_topics := go_map_put n rt' (mg_topics m)\<rparr>)"
| ms_shutdown: "shutdownBegin m = (work, m') \<Longrightarrow> mgr_step g m m'"
| ms_service: "registerService s m = (err, m') \<Longrightarrow> mgr_step g m m'"
| ms_unservice: "mgr_step g m (unregisterService s m)"

inductive_cases mgr_stepE: "mgr_step g m m'"

definition mgr_init :: "Manager \<Rightarrow> bool" where
  "mgr_init m = (\<exists>cfg. m = NewManager cfg)"

abbreviation mgr_reach :: "gouroboros \<Rightarrow> Manager \<Rightarrow> bool" where
  "mgr_reach g \<equiv> reach mgr_init (mgr_step g)"

lemma mgr_inv_update [simp]:
  "mgr_inv g (m\<lparr>mg_services := ss\<rparr>) = mgr_inv g m" "mgr_inv g (m\<lparr>mg_cancelled := b\<rparr>) = mgr_inv g m"
  "mgr_inv g (m\<lparr>mg_closed := c\<rparr>) = mgr_inv g m"
  by (simp_all add: mgr_inv_def)

lemma mgr_inv_step:
  assumes "mgr_inv g m" "mgr_step g m m'"
  shows "mgr_inv g m'"
  using assms(2)
proof cases
  case (ms_register n cfg err)
  then show ?thesis using assms(1) mgr_inv_register by blast
next
  case (ms_topic n rt now rt')
  then have "topic_steps g rt rt'" by blast
  then show ?thesis using ms_topic mgr_inv_topic_steps [OF assms(1)] by blast
qed (use assms(1) in \<open>auto simp: shutdownBegin_def registerService_def unregisterService_def split: if_splits\<close>)

interpretation mgr_sm: inductive_invariant mgr_init "mgr_step g" "mgr_inv g" for g
proof
  show "mgr_inv g m" if "mgr_init m" for m using that by (auto simp: mgr_init_def NewManager_def mgr_inv_def)
qed (rule mgr_inv_step)

lemma mgr_step_closed:
  assumes "mgr_step g m m'" "mg_closed m"
  shows "mg_closed m'" "dom (map_of (mg_topics m')) = dom (map_of (mg_topics m))"
  using assms
  by (auto elim!: mgr_stepE simp: RegisterTopic_def shutdownBegin_def registerService_def unregisterService_def
      split: if_splits)

lemmas mgr_reach_inv = mgr_sm.reach_inv

section \<open>Properties\<close>

definition ex_manager :: Manager where
  "ex_manager = snd (RegisterTopic ''b'' ex_topic_config
     (snd (RegisterTopic ''a'' ex_topic_config (NewManager \<lparr>mc_Signer = None, mc_Authenticator = None\<rparr>))))"

lemma mgr_reach_register: "mgr_reach g m \<Longrightarrow> mgr_reach g (snd (RegisterTopic n cfg m))"
  using reach_step ms_register [OF prod.collapse [symmetric]] by metis

lemma mgr_reach_New: "mgr_reach g (NewManager cfg)"
  by (rule reach_init) (auto simp: mgr_init_def)

lemma ex_manager_reach: "mgr_reach ex_gouroboros ex_manager"
  unfolding ex_manager_def by (intro mgr_reach_register mgr_reach_New)

text \<open>
  Registration succeeds exactly for a non-empty, unused name on an open manager, provided a
  required authenticator is configured on the topic or the manager. The new topic is empty and
  open, has sane limits, the topic's own signer or else the manager's, and an authenticator
  whenever one is required; every other topic is untouched. Otherwise the manager is unchanged.
\<close>

theorem RegisterTopic_exact:
  "(case RegisterTopic n cfg m of
      (None, m') \<Rightarrow> n \<noteq> [] \<and> \<not> mg_closed m \<and> map_of (mg_topics m) n = None
        \<and> (ac_Required (tc_Authentication cfg) \<longrightarrow> ac_Authenticator (tc_Authentication cfg) \<noteq> None \<or> mg_auth m \<noteq> None)
        \<and> (\<exists>rt. map_of (mg_topics m') = (map_of (mg_topics m))(n \<mapsto> rt) \<and> tr_name rt = n
             \<and> tr_queue rt = [] \<and> tr_subscribers rt = [] \<and> \<not> tr_closed rt
             \<and> sane_topic_config (tr_cfg rt) \<and> config_ok (tr_cfg rt)
             \<and> tc_Signer (tr_cfg rt) = (case tc_Signer cfg of Some s \<Rightarrow> Some s | None \<Rightarrow> mg_signer m))
    | (Some err, m') \<Rightarrow> m' = m
        \<and> (err = ErrorNew ''topic is required'' \<and> n = []
           \<or> err = Sentinel ErrManagerClosed \<and> n \<noteq> [] \<and> mg_closed m
           \<or> err = Sentinel ErrTopicExists \<and> n \<noteq> [] \<and> \<not> mg_closed m \<and> map_of (mg_topics m) n \<noteq> None
           \<or> err = Sentinel ErrAuthenticatorRequired \<and> n \<noteq> [] \<and> \<not> mg_closed m \<and> map_of (mg_topics m) n = None
             \<and> ac_Required (tc_Authentication cfg) \<and> ac_Authenticator (tc_Authentication cfg) = None \<and> mg_auth m = None))"
proof -
  let ?c = "fillTopicConfig m cfg"
  have auth: "ac_Required (tc_Authentication ?c) = ac_Required (tc_Authentication cfg)"
    "ac_Required (tc_Authentication cfg) \<Longrightarrow> ac_Authenticator (tc_Authentication ?c) =
       (if ac_Authenticator (tc_Authentication cfg) = None then mg_auth m else ac_Authenticator (tc_Authentication cfg))"
    "tc_Signer ?c = (case tc_Signer cfg of Some s \<Rightarrow> Some s | None \<Rightarrow> mg_signer m)"
    by (auto simp: fillTopicConfig_def Let_def defaultTopicConfig_def split: option.splits)
  have "tc_Queue ?c = defaultQueue (tc_Queue cfg)" "tc_TTL ?c = defaultTTL (tc_TTL cfg)"
    "tc_Reconnect ?c = defaultReconnectConfig (tc_Reconnect cfg)"
    "tc_Discovery ?c = defaultDiscoveryConfig (tc_Discovery cfg)"
    by (simp_all add: fillTopicConfig_def Let_def defaultTopicConfig_def)
  then have "sane_topic_config ?c" by (simp add: sane_topic_config_def)
  then show ?thesis
    using auth fillTopicConfig_ok [of m cfg]
    by (auto simp: RegisterTopic_def Let_def newTopicRuntime_def)
qed

theorem RegisterTopic_exact_witness:
  "(\<exists>m'. RegisterTopic ''c'' ex_topic_config ex_manager = (None, m')
     \<and> (\<exists>rt. map_of (mg_topics m') = (map_of (mg_topics ex_manager))(''c'' \<mapsto> rt)))
   \<and> RegisterTopic ''a'' ex_topic_config ex_manager = (Some (Sentinel ErrTopicExists), ex_manager)"
proof -
  have "fst (RegisterTopic ''c'' ex_topic_config ex_manager) = None"
    "fst (RegisterTopic ''a'' ex_topic_config ex_manager) = Some (Sentinel ErrTopicExists)" by code_simp+
  then show ?thesis
    using RegisterTopic_exact [where n = "''c''" and cfg = ex_topic_config and m = ex_manager]
      RegisterTopic_exact [where n = "''a''" and cfg = ex_topic_config and m = ex_manager]
    by (auto split: prod.splits option.splits)
qed

text \<open>
  C6: In every state a manager can reach, under any interleaving of registrations, topic
  operations, shutdown and services, each registered topic carries the name it is registered
  under and is in a state that its own operations can reach; so no manager operation panics and
  everything proved of a reachable topic holds of every topic of the manager.
\<close>

theorem manager_topics_reachable:
  assumes "mgr_reach g m"
  shows "distinct (map fst (mg_topics m))
    \<and> (\<forall>n rt. map_of (mg_topics m) n = Some rt \<longrightarrow> tr_name rt = n \<and> n \<noteq> [] \<and> topic_reach g rt)
    \<and> Publish g now0 now1 now2 ctx n body m \<noteq> None \<and> SubmitSigned g now1 now2 n msg m \<noteq> None
    \<and> SubmitRemote g now1 now2 n msg peer m \<noteq> None \<and> Subscribe n m \<noteq> None \<and> TopicPeers ctx n m \<noteq> None"
proof -
  note inv = mgr_reach_inv [OF assms]
  have "Publish g now0 now1 now2 ctx n body m \<noteq> None" "SubmitSigned g now1 now2 n msg m \<noteq> None"
    "SubmitRemote g now1 now2 n msg peer m \<noteq> None" "Subscribe n m \<noteq> None" "TopicPeers ctx n m \<noteq> None"
    unfolding manager_ops
    using publish_op.call_total [OF inv] submit_op.call_total [OF inv] subscribe_op.call_total [OF inv]
      discover_op.call_total [OF inv] by blast+
  moreover have "distinct (map fst (mg_topics m))" using inv by (simp add: mgr_inv_def)
  ultimately show ?thesis using mgr_invD [OF inv] by blast
qed

theorem manager_topics_reachable_witness:
  "\<exists>rt. map_of (mg_topics ex_manager) ''a'' = Some rt \<and> tr_name rt = ''a'' \<and> topic_reach ex_gouroboros rt"
proof -
  have "map_of (mg_topics ex_manager) ''a'' \<noteq> None" by code_simp
  then show ?thesis using manager_topics_reachable [OF ex_manager_reach] by blast
qed

text \<open>
  Topics are isolated: an operation on one topic leaves every other topic exactly as it
  was, and registers or removes none.
\<close>

theorem topics_isolated:
  assumes "Publish g now0 now1 now2 ctx n body m = Some (r1, calls, m')
       \<or> SubmitSigned g now1 now2 n msg m = Some (r2, calls, m')
       \<or> SubmitRemote g now1 now2 n msg peer m = Some (r2, calls, m')
       \<or> Subscribe n m = Some (r3, calls, m') \<or> TopicPeers ctx n m = Some (r4, calls, m')"
  shows "(\<forall>k. k \<noteq> n \<longrightarrow> map_of (mg_topics m') k = map_of (mg_topics m) k)
     \<and> dom (map_of (mg_topics m')) = dom (map_of (mg_topics m)) \<and> mg_closed m' = mg_closed m"
  using assms unfolding manager_ops
  by (elim disjE) (erule publish_op.call_frame submit_op.call_frame subscribe_op.call_frame discover_op.call_frame)+

theorem topics_isolated_witness:
  "\<exists>r calls m'. Subscribe ''a'' ex_manager = Some (r, calls, m')
     \<and> map_of (mg_topics m') ''b'' = map_of (mg_topics ex_manager) ''b''"
proof -
  have "Subscribe ''a'' ex_manager \<noteq> None" by code_simp
  then obtain r calls m' where s: "Subscribe ''a'' ex_manager = Some (r, calls, m')" by auto
  show ?thesis using topics_isolated [where n = "''a''" and m = ex_manager and m' = m' and calls = calls and ?r3.0 = r] s by auto
qed

text \<open>
  C32: Closing a manager is final. Whatever runs after the start of a shutdown, the manager stays
  closed, and publishing, submitting, subscribing, peer discovery, registration and starting a
  service all return \<^verbatim>\<open>ErrManagerClosed\<close> without any effect or hook call; a second shutdown
  finds nothing to do.
\<close>

theorem closed_manager_refuses:
  assumes "shutdownBegin m0 = (work, m1)" "(mgr_step g)\<^sup>*\<^sup>* m1 m"
  shows "Publish g now0 now1 now2 ctx n body m = Some (Inl (Sentinel ErrManagerClosed), [], m)
    \<and> SubmitSigned g now1 now2 n msg m = Some (Some (Sentinel ErrManagerClosed), [], m)
    \<and> SubmitRemote g now1 now2 n msg peer m = Some (Some (Sentinel ErrManagerClosed), [], m)
    \<and> Subscribe n m = Some (Inl (Sentinel ErrManagerClosed), [], m)
    \<and> TopicPeers ctx n m = Some (Inl (Sentinel ErrManagerClosed), [], m)
    \<and> (n \<noteq> [] \<longrightarrow> RegisterTopic n cfg m = (Some (Sentinel ErrManagerClosed), m))
    \<and> registerService s m = (Some (Sentinel ErrManagerClosed), m)
    \<and> shutdownBegin m = (None, m)"
proof -
  have "mg_closed m"
    using assms(2)
  proof (induction rule: rtranclp_induct)
    case base
    then show ?case using assms(1) by (auto simp: shutdownBegin_def split: if_splits)
  qed (rule mgr_step_closed(1))
  then show ?thesis
    by (simp add: manager_ops publish_op.call_closed submit_op.call_closed subscribe_op.call_closed
        discover_op.call_closed RegisterTopic_def registerService_def shutdownBegin_def)
qed

theorem closed_manager_refuses_witness:
  "\<exists>work m1. shutdownBegin ex_manager = (Some work, m1)
     \<and> Subscribe ''a'' m1 = Some (Inl (Sentinel ErrManagerClosed), [], m1)"
proof -
  obtain work m1 where s: "shutdownBegin ex_manager = (work, m1)" by (cases "shutdownBegin ex_manager")
  have "fst (shutdownBegin ex_manager) \<noteq> None" by code_simp
  then show ?thesis using closed_manager_refuses [OF s rtranclp.rtrancl_refl] s by auto
qed

end
