(* ===== verification/Submission_Flow.thy ===== *)
theory Submission_Flow
  imports Dmq_Manager
begin

text \<open>
  \<^verbatim>\<open>protocol.go\<close>: the callbacks that wire a topic into the CIP-0137 mini-protocols, and the
  per-connection flow state. Calls into the protocol library are returned as \<open>protocol_call\<close>
  values; the error a call returns is given by the parameter \<open>net\<close>.
\<close>

section \<open>Flows\<close>

record submissionFlowOptions =
  so_requestCount :: u16
  so_holdInterval :: duration

record submissionFlow =
  sf_opts :: submissionFlowOptions
  sf_announced :: "bytes set"
  sf_outstanding :: u16

type_synonym submissionFlows = "(string \<times> submissionFlow) list"

datatype protocol_call =
    RequestMessageIdsBlocking u16 u16
  | RequestMessages "bytes list"
  | ReplyMessageIds "MessageIDAndSize list"
  | ReplyMessages "DmqMessage list"

abbreviation defaultNodeToNodeRequestInterval :: duration where
  "defaultNodeToNodeRequestInterval \<equiv> Second"
abbreviation defaultNodeToNodeRequestCount :: u16 where
  "defaultNodeToNodeRequestCount \<equiv> 64"

definition newFlow :: "submissionFlowOptions \<Rightarrow> submissionFlow" where
  "newFlow opts = \<lparr>sf_opts = opts, sf_announced = {}, sf_outstanding = 0\<rparr>"

definition forConnection :: "submissionFlowOptions \<Rightarrow> string \<Rightarrow> submissionFlows \<Rightarrow> submissionFlow \<times> submissionFlows" where
  "forConnection opts cid fs =
     (case map_of fs cid of
        Some f \<Rightarrow> (f, fs)
      | None \<Rightarrow> (newFlow opts, go_map_put cid (newFlow opts) fs))"

text \<open>The goroutine of \<^verbatim>\<open>forConnection\<close>, when the connection stops or the context ends.\<close>

definition dropConnection :: "string \<Rightarrow> submissionFlows \<Rightarrow> submissionFlows" where
  "dropConnection cid fs = go_map_delete cid fs"

definition storeFlow :: "string \<Rightarrow> submissionFlow \<Rightarrow> submissionFlows \<Rightarrow> submissionFlows" where
  "storeFlow cid f fs = go_map_put cid f fs"

definition requestIDs :: "submissionFlow \<Rightarrow> protocol_call \<times> submissionFlow" where
  "requestIDs f =
     (let ack = sf_outstanding f;
          f = f\<lparr>sf_outstanding := 0\<rparr>;
          cnt = so_requestCount (sf_opts f);
          cnt = (if cnt = 0 then defaultNodeToNodeRequestCount else cnt)
      in (RequestMessageIdsBlocking ack cnt, f))"

fun newIDs_loop :: "int \<Rightarrow> bytes set \<Rightarrow> MessageIDAndSize list \<Rightarrow> MessageIDAndSize list \<Rightarrow> MessageIDAndSize list" where
  "newIDs_loop mx announced ids [] = ids"
| "newIDs_loop mx announced ids (x # queued) =
     (if ms_MessageID x \<in> announced \<or> int (length ids) \<ge> mx then newIDs_loop mx announced ids queued
      else newIDs_loop mx announced (ids @ [x]) queued)"

definition newIDs :: "gouroboros \<Rightarrow> gotime \<Rightarrow> int \<Rightarrow> topicRuntime \<Rightarrow> submissionFlow \<Rightarrow>
    MessageIDAndSize list \<times> topicRuntime \<times> submissionFlow" where
  "newIDs g now mx t f =
     (let (queued, t') = messageIDs g now t 0;
          live_ids = set (map ms_MessageID queued);
          ids = newIDs_loop mx (sf_announced f) [] queued;
          announced = {k \<in> sf_announced f. k \<in> live_ids} \<union> set (map ms_MessageID ids)
      in (ids, t', f\<lparr>sf_announced := announced\<rparr>))"

text \<open>
  The goroutine of \<^verbatim>\<open>replyIDs\<close>. Each element of \<open>polls\<close> is one round of its loop: the
  clock, the topic as other goroutines left it, and whether the \<^verbatim>\<open>select\<close> that follows ends
  the wait (context done or connection stopped). With no rounds left it is still holding.
\<close>

datatype hold_result = Replied "MessageIDAndSize list" "hook_call list" | Abandoned | Holding

fun replyIDs :: "(protocol_call \<Rightarrow> go_error option) \<Rightarrow> gouroboros \<Rightarrow> bool \<Rightarrow> u16 \<Rightarrow>
    (gotime \<times> topicRuntime \<times> bool) list \<Rightarrow> submissionFlow \<Rightarrow> hold_result \<times> submissionFlow" where
  "replyIDs net g blocking cnt [] f = (Holding, f)"
| "replyIDs net g blocking cnt ((now, t, stopped) # polls) f =
     (let (ids, t', f') = newIDs g now (uint cnt) t f
      in if length ids > 0 \<or> \<not> blocking
         then (Replied ids (callError t' (net (ReplyMessageIds ids))), f')
         else if stopped then (Abandoned, f')
         else replyIDs net g blocking cnt polls f')"

section \<open>Callbacks of the message-submission protocol\<close>

definition onRequestMessageIds :: "(protocol_call \<Rightarrow> go_error option) \<Rightarrow> gouroboros \<Rightarrow> submissionFlowOptions \<Rightarrow> bool \<Rightarrow>
    string \<Rightarrow> bool \<Rightarrow> u16 \<Rightarrow> (gotime \<times> topicRuntime \<times> bool) list \<Rightarrow> submissionFlows \<Rightarrow> hold_result option \<times> submissionFlows" where
  "onRequestMessageIds net g opts hasClient cid blocking cnt polls fs =
     (if \<not> hasClient then (None, fs)
      else let (f, fs) = forConnection opts cid fs;
               (r, f) = replyIDs net g blocking cnt polls f
           in (Some r, storeFlow cid f fs))"

definition onRequestMessages :: "(protocol_call \<Rightarrow> go_error option) \<Rightarrow> gouroboros \<Rightarrow> gotime \<Rightarrow> bool \<Rightarrow> bytes list \<Rightarrow>
    topicRuntime \<Rightarrow> protocol_call list \<times> hook_call list \<times> topicRuntime" where
  "onRequestMessages net g now hasClient ids t =
     (if \<not> hasClient then ([], [], t)
      else let (ms, t') = messagesByIDs g now t ids;
               call = ReplyMessages ms
           in ([call], callError t' (net call), t'))"

text \<open>The announced IDs are acknowledged by the next request; those not seen yet are asked for.\<close>

definition onReplyMessageIds :: "(protocol_call \<Rightarrow> go_error option) \<Rightarrow> bool \<Rightarrow> MessageIDAndSize list \<Rightarrow> topicRuntime \<Rightarrow>
    submissionFlow \<Rightarrow> protocol_call list \<times> hook_call list \<times> submissionFlow" where
  "onReplyMessageIds net hasServer ids t f =
     (if \<not> hasServer then ([], [], f)
      else
        (let f = f\<lparr>sf_outstanding := word_of_nat (length ids)\<rparr>;
             wanted = concat (map (\<lambda>x. if \<not> hasSeen t (ms_MessageID x) then [cloneBytes (ms_MessageID x)] else []) ids);
             (call, f) = (if length wanted > 0 then (RequestMessages wanted, f) else requestIDs f)
         in ([call], callError t (net call), f)))"

text \<open>The messages of a reply, each with the clock readings of its submission, one after the other.\<close>

fun submitAll :: "gouroboros \<Rightarrow> MessageSource \<Rightarrow> Peer option \<Rightarrow> (DmqMessage \<times> gotime \<times> gotime) list \<Rightarrow>
    topicRuntime \<Rightarrow> (hook_call list \<times> topicRuntime) option" where
  "submitAll g source peer [] t = Some ([], t)"
| "submitAll g source peer ((m, now1, now2) # ms) t =
     (case submitSigned g now1 now2 t (Some m) source peer of
        None \<Rightarrow> None
      | Some (err, m', calls, t') \<Rightarrow>
          (case submitAll g source peer ms t' of
             None \<Rightarrow> None
           | Some (calls', t'') \<Rightarrow> Some (calls @ callError t err @ calls', t'')))"

definition onReplyMessages :: "(protocol_call \<Rightarrow> go_error option) \<Rightarrow> gouroboros \<Rightarrow> Peer option \<Rightarrow>
    bool \<Rightarrow> (DmqMessage \<times> gotime \<times> gotime) list \<Rightarrow> topicRuntime \<Rightarrow> submissionFlow \<Rightarrow>
    (protocol_call list \<times> hook_call list \<times> topicRuntime \<times> submissionFlow) option" where
  "onReplyMessages net g peer hasServer messages t f =
     (case submitAll g MessageSourceRemote peer messages t of
        None \<Rightarrow> None
      | Some (calls, t') \<Rightarrow>
          if \<not> hasServer then Some ([], calls, t', f)
          else (let (call, f') = requestIDs f
                in Some ([call], calls @ callError t' (net call), t', f')))"

section \<open>Callbacks of the local protocols\<close>

definition onSubmitMessage :: "gouroboros \<Rightarrow> gotime \<Rightarrow> gotime \<Rightarrow> DmqMessage option \<Rightarrow> topicRuntime \<Rightarrow>
    (RejectReason option \<times> hook_call list \<times> topicRuntime) option" where
  "onSubmitMessage g now1 now2 msg t =
     (case submitSigned g now1 now2 t msg MessageSourceLocal None of
        None \<Rightarrow> None
      | Some (err, m, calls, t') \<Rightarrow> Some (rejectReasonFromError err, calls, t'))"

definition onNotifyMessages :: "gouroboros \<Rightarrow> (DmqMessage \<times> gotime \<times> gotime) list \<Rightarrow> topicRuntime \<Rightarrow>
    (hook_call list \<times> topicRuntime) option" where
  "onNotifyMessages g messages t = submitAll g MessageSourceRemote None messages t"

text \<open>The configurations bind the topic that is registered when they are made.\<close>

definition messageSubmissionConfig :: "Manager \<Rightarrow> string \<Rightarrow> topicRuntime result" where
  "messageSubmissionConfig m topic = topicOf m topic"

end
