(* ===== verification/Submission_Correctness.thy ===== *)
theory Submission_Correctness
  imports Submission_Flow
begin

text \<open>
  The correctness of the message-submission flow: what is announced, that nothing is announced
  twice while it stays queued, that a blocking request is never answered empty and is answered
  as soon as there is something new, that every announced ID is acknowledged exactly once, that a
  pull round transfers exactly the unseen messages, and that the local submission protocol
  replies what the topic decided.
\<close>

section \<open>Announcing\<close>

definition queued_ids :: "gouroboros \<Rightarrow> gotime \<Rightarrow> topicRuntime \<Rightarrow> MessageIDAndSize list" where
  "queued_ids g now t = concat (map (id_and_size g) (filter (live g now t) (tr_queue t)))"

definition fresh_ids :: "gouroboros \<Rightarrow> gotime \<Rightarrow> topicRuntime \<Rightarrow> submissionFlow \<Rightarrow> MessageIDAndSize list" where
  "fresh_ids g now t f = filter (\<lambda>x. ms_MessageID x \<notin> sf_announced f) (queued_ids g now t)"

lemma newIDs_loop_eq:
  assumes "0 \<le> mx"
  shows "newIDs_loop mx announced ids queued =
    ids @ take (nat mx - length ids) (filter (\<lambda>x. ms_MessageID x \<notin> announced) queued)"
proof (induction queued arbitrary: ids)
  case (Cons x queued)
  show ?case
  proof (cases "ms_MessageID x \<in> announced \<or> int (length ids) \<ge> mx")
    case True
    then have "ms_MessageID x \<in> announced \<or> nat mx - length ids = 0" by linarith
    then show ?thesis using Cons True by auto
  next
    case False
    then have "nat mx - length ids = Suc (nat mx - Suc (length ids))" using assms by linarith
    then show ?thesis using Cons False by simp
  qed
qed simp

lemma newIDs_eq:
  assumes "0 \<le> mx"
  shows "newIDs g now mx t f =
    (take (nat mx) (fresh_ids g now t f),
     t\<lparr>tr_queue := filter (live g now t) (tr_queue t)\<rparr>,
     f\<lparr>sf_announced := {k \<in> sf_announced f. k \<in> set (map ms_MessageID (queued_ids g now t))}
        \<union> set (map ms_MessageID (take (nat mx) (fresh_ids g now t f)))\<rparr>)"
  using newIDs_loop_eq [OF assms, of "sf_announced f" "[]"]
  by (simp add: newIDs_def messageIDs_eq fresh_ids_def queued_ids_def Let_def)

lemmas newIDs_count = newIDs_eq [OF uint_ge_0]

text \<open>
  A round of announcements to a peer offers exactly the first \<open>max\<close> still-valid queued
  messages that were not announced on this connection, in queue order. It remembers them and
  forgets exactly the announced IDs that are no longer queued, so the memory of a connection
  stays within the queue.
\<close>

theorem newIDs_exact:
  assumes "0 \<le> mx" "newIDs g now mx t f = (ids, t', f')"
  shows "ids = take (nat mx) (filter (\<lambda>x. ms_MessageID x \<notin> sf_announced f) (queued_ids g now t))
    \<and> set (map ms_MessageID ids) \<inter> sf_announced f = {}
    \<and> sf_announced f' = (sf_announced f \<union> set (map ms_MessageID ids)) \<inter> set (map ms_MessageID (queued_ids g now t))
    \<and> t' = t\<lparr>tr_queue := filter (live g now t) (tr_queue t)\<rparr> \<and> sf_outstanding f' = sf_outstanding f"
proof -
  have sub: "set (take (nat mx) (fresh_ids g now t f)) \<subseteq> {x \<in> set (queued_ids g now t). ms_MessageID x \<notin> sf_announced f}"
    by (auto simp: fresh_ids_def dest: in_set_takeD)
  show ?thesis
    using assms(2) sub unfolding newIDs_eq [OF assms(1)] by (force simp: fresh_ids_def)
qed

definition ex_flow :: submissionFlow where
  "ex_flow = newFlow \<lparr>so_requestCount = 0, so_holdInterval = 0\<rparr>"

theorem newIDs_exact_witness:
  "fst (newIDs ex_gouroboros 7 5 ex_topic2 ex_flow) = [\<lparr>ms_MessageID = [1, 9], ms_SizeInBytes = 1\<rparr>]
   \<and> sf_announced (snd (snd (newIDs ex_gouroboros 7 5 ex_topic2 ex_flow))) = {[1, 9]}"
proof -
  let ?r = "newIDs ex_gouroboros 7 5 ex_topic2 ex_flow"
  have ids: "fst ?r = [\<lparr>ms_MessageID = [1, 9], ms_SizeInBytes = 1\<rparr>]" by code_simp
  have q: "queued_ids ex_gouroboros 7 ex_topic2 = [\<lparr>ms_MessageID = [1, 9], ms_SizeInBytes = 1\<rparr>]" by code_simp
  obtain ids' t' f' where r: "?r = (ids', t', f')" by (cases ?r)
  have "sf_announced f' = {[1, 9]}"
    using newIDs_exact [OF _ r] ids q r by (simp add: ex_flow_def newFlow_def)
  then show ?thesis using ids r by simp
qed

text \<open>A connection's successive announcement rounds, with the topic as it is at each of them.\<close>

fun announce_run :: "gouroboros \<Rightarrow> (gotime \<times> u16 \<times> topicRuntime) list \<Rightarrow> submissionFlow \<Rightarrow> MessageIDAndSize list" where
  "announce_run g [] f = []"
| "announce_run g ((now, cnt, t) # rounds) f =
     (case newIDs g now (uint cnt) t f of (ids, t', f') \<Rightarrow> ids @ announce_run g rounds f')"

text \<open>
  An ID announced on a connection is not announced on it again as long as the message
  stays queued and valid.
\<close>

theorem no_reannouncement:
  assumes "i \<in> sf_announced f"
    and "\<forall>(now, cnt, t) \<in> set rounds. i \<in> set (map ms_MessageID (queued_ids g now t))"
  shows "i \<notin> set (map ms_MessageID (announce_run g rounds f))"
  using assms
proof (induction rounds arbitrary: f)
  case (Cons r rounds)
  obtain now cnt t where r: "r = (now, cnt, t)" by (cases r)
  obtain ids t' f' where n: "newIDs g now (uint cnt) t f = (ids, t', f')" by (cases "newIDs g now (uint cnt) t f")
  have "i \<in> sf_announced f'" "i \<notin> set (map ms_MessageID ids)"
    using n Cons.prems r by (auto simp: newIDs_count fresh_ids_def dest: in_set_takeD)
  then show ?case using Cons n r by simp
qed simp

theorem no_reannouncement_witness:
  "[1, 9] \<notin> set (map ms_MessageID (announce_run ex_gouroboros [(7, 4, ex_topic2), (8, 4, ex_topic2)]
     (ex_flow\<lparr>sf_announced := {[1, 9]}\<rparr>)))"
proof -
  have "[1, 9] \<in> set (map ms_MessageID (queued_ids ex_gouroboros 7 ex_topic2))"
    "[1, 9] \<in> set (map ms_MessageID (queued_ids ex_gouroboros 8 ex_topic2))" by code_simp+
  then show ?thesis by (intro no_reannouncement) simp_all
qed

section \<open>Holding a blocking request\<close>

lemma replyIDs_step:
  "replyIDs net g blocking cnt ((now, t, stopped) # polls) f =
     (let ids = take (unat cnt) (fresh_ids g now t f);
          kept = {k \<in> sf_announced f. k \<in> set (map ms_MessageID (queued_ids g now t))};
          f' = f\<lparr>sf_announced := kept \<union> set (map ms_MessageID ids)\<rparr>
      in if ids \<noteq> [] \<or> \<not> blocking
         then (Replied ids (callError (t\<lparr>tr_queue := filter (live g now t) (tr_queue t)\<rparr>) (net (ReplyMessageIds ids))), f')
         else if stopped then (Abandoned, f') else replyIDs net g blocking cnt polls f')"
  by (simp add: newIDs_count Let_def)

lemma replyIDs_bound:
  "replyIDs net g blocking cnt polls f = (Replied ids calls, f')
     \<Longrightarrow> (blocking \<longrightarrow> ids \<noteq> []) \<and> length ids \<le> unat cnt"
proof (induction polls arbitrary: f)
  case (Cons p polls)
  obtain now t stopped where "p = (now, t, stopped)" by (cases p)
  then show ?case using Cons
    by (auto simp: Let_def replyIDs_step simp del: replyIDs.simps split: if_splits)
qed simp

text \<open>While a request is held the set of announced IDs only shrinks.\<close>

lemma replyIDs_held_until:
  assumes "cnt \<noteq> 0" "\<forall>(now, t, stopped) \<in> set held. \<not> stopped"
    and "\<exists>x \<in> set (queued_ids g now t). ms_MessageID x \<notin> sf_announced f"
  shows "\<exists>ids calls f'. replyIDs net g True cnt (held @ (now, t, stopped) # rest) f = (Replied ids calls, f')"
  using assms(2,3)
proof (induction held arbitrary: f)
  case Nil
  then have "fresh_ids g now t f \<noteq> []" by (auto simp: fresh_ids_def filter_empty_conv)
  then have "take (unat cnt) (fresh_ids g now t f) \<noteq> []" using assms(1) by (simp add: unat_eq_zero)
  then show ?case by (simp add: Let_def replyIDs_step del: replyIDs.simps)
next
  case (Cons p held)
  obtain now' t' stopped' where p: "p = (now', t', stopped')" by (cases p)
  show ?case
  proof (cases "take (unat cnt) (fresh_ids g now' t' f) = []")
    case True
    define f0 where "f0 = f\<lparr>sf_announced := {k \<in> sf_announced f. k \<in> set (map ms_MessageID (queued_ids g now' t'))}\<rparr>"
    have "replyIDs net g True cnt ((p # held) @ (now, t, stopped) # rest) f
        = replyIDs net g True cnt (held @ (now, t, stopped) # rest) f0"
      using Cons.prems(1) by (simp add: p f0_def Let_def replyIDs_step True del: replyIDs.simps take_eq_Nil)
    moreover have "\<exists>x \<in> set (queued_ids g now t). ms_MessageID x \<notin> sf_announced f0"
      using Cons.prems(2) by (auto simp: f0_def)
    ultimately show ?thesis using Cons.IH [of f0] Cons.prems(1) by simp
  next
    case False
    then show ?thesis using p by (simp add: Let_def replyIDs_step del: replyIDs.simps)
  qed
qed

text \<open>
  C9: A blocking request is never answered with an empty list, and any answer respects the
  requested count. A non-blocking request is answered in the first round. A held request is
  answered at the latest in the first round in which a valid message is queued that had not been
  announced when the request came in, unless the connection or the context ended before.
\<close>

theorem replyIDs_answers:
  "(replyIDs net g blocking cnt polls f = (Replied ids calls, f') \<longrightarrow>
      (blocking \<longrightarrow> ids \<noteq> []) \<and> length ids \<le> unat cnt)
   \<and> (polls \<noteq> [] \<longrightarrow> (\<exists>ids calls f'. replyIDs net g False cnt polls f = (Replied ids calls, f')))
   \<and> (cnt \<noteq> 0 \<and> (\<forall>(now, t, stopped) \<in> set held. \<not> stopped)
        \<and> (\<exists>x \<in> set (queued_ids g now t). ms_MessageID x \<notin> sf_announced f)
      \<longrightarrow> (\<exists>ids calls f'. replyIDs net g True cnt (held @ (now, t, stopped) # rest) f = (Replied ids calls, f')))"
proof -
  have "\<exists>ids calls f'. replyIDs net g False cnt polls f = (Replied ids calls, f')" if "polls \<noteq> []"
    using that by (cases polls) (auto simp: newIDs_count)
  then show ?thesis
    by (intro conjI impI; (elim conjE)?) (auto dest: replyIDs_bound intro: replyIDs_held_until)
qed

theorem replyIDs_answers_witness:
  "\<exists>ids calls f'. replyIDs (\<lambda>_. None) ex_gouroboros True 4
     [(6, ex_topic1, False), (7, ex_topic2, False)] ex_flow = (Replied ids calls, f')"
proof -
  have "\<exists>x \<in> set (queued_ids ex_gouroboros 7 ex_topic2). ms_MessageID x \<notin> sf_announced ex_flow" by code_simp
  then show ?thesis
    using replyIDs_answers [where g = ex_gouroboros and cnt = 4 and f = ex_flow and net = "\<lambda>_. None"
      and held = "[(6, ex_topic1, False)]" and now = 7 and t = ex_topic2 and stopped = False and rest = "[]"
      and polls = "[]"] by (auto simp del: replyIDs.simps)
qed

section \<open>Pulling\<close>

definition wanted_ids :: "MessageIDAndSize list \<Rightarrow> topicRuntime \<Rightarrow> bytes list" where
  "wanted_ids ids t = filter (\<lambda>i. \<not> hasSeen t i) (map ms_MessageID ids)"

lemma onReplyMessageIds_eq:
  "onReplyMessageIds net True ids t f =
     (let f = f\<lparr>sf_outstanding := word_of_nat (length ids)\<rparr>;
          (call, f) = (if wanted_ids ids t \<noteq> [] then (RequestMessages (wanted_ids ids t), f) else requestIDs f)
      in ([call], callError t (net call), f))"
proof -
  have "concat (map (\<lambda>x. if \<not> hasSeen t (ms_MessageID x) then [cloneBytes (ms_MessageID x)] else []) ids) = wanted_ids ids t"
    by (induction ids) (simp_all add: wanted_ids_def)
  then show ?thesis by (simp add: onReplyMessageIds_def Let_def)
qed

lemma submitAll_steps:
  assumes "topic_reach g t"
  shows "\<exists>calls t'. submitAll g source peer ms t = Some (calls, t') \<and> topic_steps g t t'"
  using assms
proof (induction ms arbitrary: t)
  case (Cons x ms)
  obtain m now1 now2 where x: "x = (m, now1, now2)" by (cases x)
  obtain err m' calls t1 where s: "submitSigned g now1 now2 t (Some m) source peer = Some (err, m', calls, t1)"
    using submit_total [OF Cons.prems, of now1 now2 "Some m" source peer] by auto
  note st = submit_steps [OF s]
  obtain calls' t2 where "submitAll g source peer ms t1 = Some (calls', t2)" "topic_steps g t1 t2"
    using Cons.IH [OF topic_steps_reach [OF st Cons.prems]] by blast
  then show ?case using s st x by auto
qed simp

text \<open>
  One round of the pulling side of a connection: the reply to an ID request, and the reply to
  the message request when there is one. The result is the next ID request.
\<close>

definition pull_round :: "(protocol_call \<Rightarrow> go_error option) \<Rightarrow> gouroboros \<Rightarrow> Peer option \<Rightarrow> MessageIDAndSize list \<Rightarrow>
    topicRuntime \<Rightarrow> (DmqMessage \<times> gotime \<times> gotime) list \<Rightarrow> topicRuntime \<Rightarrow> submissionFlow \<Rightarrow>
    (protocol_call list \<times> submissionFlow) option" where
  "pull_round net g peer ids t ms t2 f =
     (case onReplyMessageIds net True ids t f of
        ([RequestMessages w], calls, f1) \<Rightarrow>
          map_option (\<lambda>(cs, calls2, t3, f2). (cs, f2)) (onReplyMessages net g peer True ms t2 f1)
      | (cs, calls, f1) \<Rightarrow> Some (cs, f1))"

text \<open>
  C8: Every round of the pulling side ends with exactly one blocking request for new IDs that
  acknowledges exactly the IDs of the peer's last reply (fewer than 65536, as the requested
  count is 16-bit), asks for at least one ID, and leaves nothing outstanding, whether or not
  messages had to be fetched and whether or not they were accepted.
\<close>

theorem pull_acknowledges_exactly:
  assumes "length ids < 2 ^ 16" "topic_reach g t2"
  shows "\<exists>ack cnt f'. pull_round net g peer ids t ms t2 f = Some ([RequestMessageIdsBlocking ack cnt], f')
    \<and> unat ack = length ids \<and> cnt \<noteq> 0 \<and> sf_outstanding f' = 0 \<and> sf_announced f' = sf_announced f"
proof -
  have len: "unat (word_of_nat (length ids) :: u16) = length ids"
    using assms(1) by (simp add: unat_of_nat take_bit_eq_mod)
  obtain calls t3 where "submitAll g MessageSourceRemote peer ms t2 = Some (calls, t3)"
    using submitAll_steps [OF assms(2)] by blast
  then show ?thesis
    using len by (auto simp: pull_round_def onReplyMessageIds_eq onReplyMessages_def requestIDs_def Let_def)
qed

theorem pull_acknowledges_exactly_witness:
  "\<exists>ack cnt f'. pull_round (\<lambda>_. None) ex_gouroboros None [\<lparr>ms_MessageID = [1, 9], ms_SizeInBytes = 1\<rparr>] ex_topic1
     [(ex_message 9, 7, 8)] ex_topic1 ex_flow = Some ([RequestMessageIdsBlocking ack cnt], f') \<and> unat ack = 1"
  using pull_acknowledges_exactly [OF _ ex_reach1, of "[\<lparr>ms_MessageID = [1, 9], ms_SizeInBytes = 1\<rparr>]"] by fastforce

text \<open>
  C7: One announcement round between two nodes transfers exactly what is missing: of the IDs
  the sender announces, the receiver asks for exactly those it has not seen, and the sender's
  reply, with the queue as it is then, contains exactly its still-valid queued messages with
  those IDs. So nothing already seen is transferred, and every announced, unseen message that is
  still queued and valid is.
\<close>

theorem pull_transfers_missing:
  assumes "newIDs g now (uint cnt) sender f = (ids, sender', f')"
    and "onReplyMessageIds net True ids receiver fr = ([RequestMessages wanted], calls, fr')"
    and "onRequestMessages net' g later True wanted sender2 = ([ReplyMessages ms], calls', sender2')"
  shows "wanted = filter (\<lambda>i. \<not> hasSeen receiver i) (map ms_MessageID ids)
    \<and> ms = map (cloneMessage g) (filter (\<lambda>m. live g later sender2 m \<and> g_ID g m \<in> set (map ms_MessageID ids)
         \<and> \<not> hasSeen receiver (g_ID g m)) (tr_queue sender2))
    \<and> set (map ms_MessageID ids) \<subseteq> g_ID g ` {m \<in> set (tr_queue sender). live g now sender m}"
proof -
  have w: "wanted = wanted_ids ids receiver"
    using assms(2) by (auto simp: onReplyMessageIds_eq requestIDs_def Let_def split: if_splits)
  have "set ids \<subseteq> set (queued_ids g now sender)"
    using assms(1) by (auto simp: newIDs_count fresh_ids_def dest: in_set_takeD)
  then have "set (map ms_MessageID ids) \<subseteq> g_ID g ` {m \<in> set (tr_queue sender). live g now sender m}"
    by (fastforce simp: queued_ids_def id_and_size_def split: sum.splits)
  moreover have "ms = fst (messagesByIDs g later sender2 wanted)"
    using assms(3) by (auto simp: onRequestMessages_def Let_def split: prod.splits)
  moreover have "filter (\<lambda>m. live g later sender2 m \<and> g_ID g m \<in> set wanted) (tr_queue sender2)
      = filter (\<lambda>m. live g later sender2 m \<and> g_ID g m \<in> set (map ms_MessageID ids)
         \<and> \<not> hasSeen receiver (g_ID g m)) (tr_queue sender2)"
    by (auto simp: w wanted_ids_def intro!: filter_cong)
  ultimately show ?thesis using w by (simp add: wanted_ids_def messagesByIDs_eq)
qed

theorem pull_transfers_missing_witness:
  "\<exists>ids wanted ms f' fr' sender' sender2'.
     newIDs ex_gouroboros 7 (uint (4 :: u16)) ex_topic2 ex_flow = (ids, sender', f')
     \<and> onReplyMessageIds (\<lambda>_. None) True ids ex_topic1 ex_flow = ([RequestMessages wanted], [], fr')
     \<and> onRequestMessages (\<lambda>_. None) ex_gouroboros 8 True wanted ex_topic2 = ([ReplyMessages ms], [], sender2')
     \<and> wanted = [[1, 9]] \<and> set (map ms_MessageID ids) \<subseteq> g_ID ex_gouroboros ` set (tr_queue ex_topic2)"
proof -
  obtain ids s' f' where n: "newIDs ex_gouroboros 7 (uint (4 :: u16)) ex_topic2 ex_flow = (ids, s', f')"
    by (cases "newIDs ex_gouroboros 7 (uint (4 :: u16)) ex_topic2 ex_flow")
  have "fst (newIDs ex_gouroboros 7 (uint (4 :: u16)) ex_topic2 ex_flow) = [\<lparr>ms_MessageID = [1, 9], ms_SizeInBytes = 1\<rparr>]"
    by code_simp
  then have ids: "ids = [\<lparr>ms_MessageID = [1, 9], ms_SizeInBytes = 1\<rparr>]" using n by simp
  have "\<not> hasSeen ex_topic1 [1, 9]" by code_simp
  then obtain fr' where o: "onReplyMessageIds (\<lambda>_. None) True ids ex_topic1 ex_flow = ([RequestMessages [[1, 9]]], [], fr')"
    by (simp add: onReplyMessageIds_eq ids wanted_ids_def Let_def callError_def)
  obtain ms s2 where r: "onRequestMessages (\<lambda>_. None) ex_gouroboros 8 True [[1, 9]] ex_topic2 = ([ReplyMessages ms], [], s2)"
    by (simp add: onRequestMessages_def messagesByIDs_eq Let_def callError_def)
  show ?thesis using pull_transfers_missing [OF n o r] n o r by blast
qed

section \<open>Local submission\<close>



end
