(* ===== verification/Node_Service.thy ===== *)
theory Node_Service
  imports Submission_Correctness
begin

text \<open>
  \<^verbatim>\<open>network.go\<close>: the node-to-node service of a topic. Sockets, the muxer and the handshake are
  the parameters \<open>listen\<close> (\<^verbatim>\<open>net.Listen\<close>, giving a listener identity), \<open>closeListener\<close>
  (\<^verbatim>\<open>listener.Close\<close>) and the outcomes of dialling, accepting and connecting; everything the
  service itself decides and keeps is modelled. What a goroutine does is a function of the
  sequence of outcomes it sees.
\<close>

section \<open>State\<close>

record NodeToNodeService =
  ns_topic :: string
  ns_cfg :: NodeToNodeConfig
  ns_cancelled :: bool
  ns_closed :: bool
  ns_listener :: "nat option"
  ns_peers :: "nat list"
  ns_outbound :: "string list"
  ns_dialed :: "Peer list"
  ns_listenErr :: "go_error option"

text \<open>
  \<open>ns_outbound\<close> are the keys of the outbound map; \<open>ns_dialed\<close> the peers an outbound loop
  was started for, in order.
\<close>

datatype service_hook =
    OnPeerConnected string Peer
  | OnPeerDisconnected string Peer "go_error option"
  | OnServiceError string go_error
  | TopicHook hook_call

definition newNodeToNodeService :: "string \<Rightarrow> NodeToNodeConfig \<Rightarrow> NodeToNodeService" where
  "newNodeToNodeService topic cfg =
     \<lparr>ns_topic = topic, ns_cfg = cfg\<lparr>nc_Reconnect := defaultReconnectConfig (nc_Reconnect cfg)\<rparr>,
      ns_cancelled = False, ns_closed = False, ns_listener = None, ns_peers = [], ns_outbound = [],
      ns_dialed = [], ns_listenErr = None\<rparr>"

section \<open>Peers\<close>

definition normalizeNodeToNodePeer :: "Peer \<Rightarrow> Peer option" where
  "normalizeNodeToNodePeer peer =
     (let step = (\<lambda>peer. if p_Source peer = [] then peer\<lparr>p_Source := PeerSourceStatic\<rparr> else peer)
      in if p_Address peer = [] then
           (if p_Host peer = [] then None else Some (step (newPeer (p_Host peer) (p_Port peer) peer)))
         else Some (step peer))"

definition AddPeer :: "Peer \<Rightarrow> NodeToNodeService \<Rightarrow> NodeToNodeService" where
  "AddPeer peer s =
     (case normalizeNodeToNodePeer peer of
        None \<Rightarrow> s
      | Some p \<Rightarrow>
          if ns_closed s then s
          else if p_Address p \<in> set (ns_outbound s) then s
          else s\<lparr>ns_outbound := p_Address p # ns_outbound s, ns_dialed := ns_dialed s @ [p]\<rparr>)"

definition addConnection :: "nat \<Rightarrow> NodeToNodeService \<Rightarrow> bool \<times> NodeToNodeService" where
  "addConnection conn s =
     (if ns_closed s then (True, s) else (False, s\<lparr>ns_peers := List.insert conn (ns_peers s)\<rparr>))"

definition removeConnection :: "nat \<Rightarrow> NodeToNodeService \<Rightarrow> NodeToNodeService" where
  "removeConnection conn s = s\<lparr>ns_peers := removeAll conn (ns_peers s)\<rparr>"

definition PeerCount :: "NodeToNodeService \<Rightarrow> nat" where
  "PeerCount s = length (ns_peers s)"

definition ListenAddr :: "NodeToNodeService \<Rightarrow> nat option" where
  "ListenAddr s = (case ns_listener s of None \<Rightarrow> None | Some l \<Rightarrow> Some l)"

definition setListenError :: "go_error \<Rightarrow> NodeToNodeService \<Rightarrow> NodeToNodeService" where
  "setListenError err s = s\<lparr>ns_listenErr := Some err\<rparr>"

definition requestInterval :: "NodeToNodeService \<Rightarrow> duration" where
  "requestInterval s = (if nc_RequestInterval (ns_cfg s) > 0 then nc_RequestInterval (ns_cfg s)
     else defaultNodeToNodeRequestInterval)"

definition requestCount :: "NodeToNodeService \<Rightarrow> u16" where
  "requestCount s = (if nc_RequestCount (ns_cfg s) > 0 then nc_RequestCount (ns_cfg s)
     else defaultNodeToNodeRequestCount)"

definition dialTimeout :: "NodeToNodeService \<Rightarrow> duration" where
  "dialTimeout s = (if nc_DialTimeout (ns_cfg s) > 0 then nc_DialTimeout (ns_cfg s) else 10 * Second)"

section \<open>Hooks\<close>

definition callPeerConnected :: "NodeToNodeService \<Rightarrow> Peer \<Rightarrow> service_hook list" where
  "callPeerConnected s peer =
     (if nh_OnPeerConnected (nc_Hooks (ns_cfg s)) then [OnPeerConnected (ns_topic s) peer] else [])"

definition callPeerDisconnected :: "NodeToNodeService \<Rightarrow> Peer \<Rightarrow> go_error option \<Rightarrow> service_hook list" where
  "callPeerDisconnected s peer err =
     (if nh_OnPeerDisconnected (nc_Hooks (ns_cfg s)) then [OnPeerDisconnected (ns_topic s) peer err] else [])"

definition serviceCallError :: "topicRuntime \<Rightarrow> NodeToNodeService \<Rightarrow> go_error option \<Rightarrow> service_hook list" where
  "serviceCallError rt s err =
     (case err of None \<Rightarrow> []
      | Some e \<Rightarrow> map TopicHook (callError rt (Some e))
          @ (if nh_OnError (nc_Hooks (ns_cfg s)) then [OnServiceError (ns_topic s) e] else []))"

text \<open>Errors of an ended connection that are not reported.\<close>

definition quietError :: "go_error \<Rightarrow> bool" where
  "quietError e = (errors_is e ContextCanceled \<or> errors_is e NetErrClosed)"

definition reportPeerError :: "topicRuntime \<Rightarrow> NodeToNodeService \<Rightarrow> Peer \<Rightarrow> go_error option \<Rightarrow> service_hook list" where
  "reportPeerError rt s peer err =
     (case err of None \<Rightarrow> []
      | Some e \<Rightarrow> if quietError e then []
          else serviceCallError rt s (Some (Errorf ''DMQ node-to-node peer %s: %w'' [StrArg (p_Address peer), WrapArg e])))"

section \<open>Reconnecting\<close>

text \<open>
  The loop of \<^verbatim>\<open>outboundLoop\<close> over the outcomes of \<^verbatim>\<open>dialAndServe\<close>: the waits between
  the attempts and the hook calls. Each outcome comes with whether the wait was cut short by the
  end of the service's context. Doubling is 64-bit.
\<close>

definition nextBackoff :: "ReconnectConfig \<Rightarrow> duration \<Rightarrow> duration" where
  "nextBackoff cfg backoff =
     (let backoff = to_int64 (backoff * 2)
      in if backoff > rc_MaxBackoff cfg then rc_MaxBackoff cfg else backoff)"

fun outboundLoop :: "topicRuntime \<Rightarrow> NodeToNodeService \<Rightarrow> Peer \<Rightarrow> duration \<Rightarrow> (go_error option \<times> bool) list \<Rightarrow>
    duration list \<times> service_hook list" where
  "outboundLoop rt s peer backoff [] = ([], [])"
| "outboundLoop rt s peer backoff ((err, done) # outcomes) =
     (let cfg = nc_Reconnect (ns_cfg s);
          backoff = (if err = None then rc_InitialBackoff cfg else backoff);
          calls = reportPeerError rt s peer err
      in if done then ([backoff], calls)
         else let (waits, calls') = outboundLoop rt s peer (nextBackoff cfg backoff) outcomes
              in (backoff # waits, calls @ calls'))"

definition startOutbound :: "topicRuntime \<Rightarrow> NodeToNodeService \<Rightarrow> Peer \<Rightarrow> (go_error option \<times> bool) list \<Rightarrow>
    duration list \<times> service_hook list" where
  "startOutbound rt s peer outcomes = outboundLoop rt s peer (rc_InitialBackoff (nc_Reconnect (ns_cfg s))) outcomes"

section \<open>Connections\<close>

text \<open>
  \<^verbatim>\<open>handleConnection\<close>: the handshake outcome, the identity of the connection, and the error
  it ended with once \<^verbatim>\<open>Wait\<close> returned. The result lists the hooks, whether the connection was
  closed at once because the service was, the returned error and the state after it.
\<close>

definition handleConnection :: "Peer \<Rightarrow> nat result \<Rightarrow> go_error option \<Rightarrow> NodeToNodeService \<Rightarrow>
    service_hook list \<times> go_error option \<times> NodeToNodeService" where
  "handleConnection peer newConn endErr s =
     (case newConn of
        Inl err \<Rightarrow> ([], Some err, s)
      | Inr conn \<Rightarrow>
          (let (closedNow, s1) = addConnection conn s;
               s2 = removeConnection conn s1
           in (callPeerConnected s peer @ callPeerDisconnected s2 peer endErr, endErr, s2)))"

text \<open>\<^verbatim>\<open>dialAndServe\<close>, with the error of dialling; the dialler waits \<open>dialTimeout\<close>.\<close>

definition dialAndServe :: "Peer \<Rightarrow> (duration \<Rightarrow> string \<Rightarrow> go_error option) \<Rightarrow> nat result \<Rightarrow> go_error option \<Rightarrow> NodeToNodeService \<Rightarrow>
    service_hook list \<times> go_error option \<times> NodeToNodeService" where
  "dialAndServe peer dial newConn endErr s =
     (case dial (dialTimeout s) (p_Address peer) of
        Some err \<Rightarrow> ([], Some err, s)
      | None \<Rightarrow> handleConnection peer newConn endErr s)"

text \<open>What \<^verbatim>\<open>listener.Accept\<close> returns, and how a handled connection ended.\<close>

datatype accept_result =
    AcceptError go_error bool
  | AcceptNil
  | AcceptNoAddr
  | Accepted string "nat result" "go_error option"

text \<open>
  \<^verbatim>\<open>acceptLoop\<close>: hooks, whether the loop closed the listener, and the service. The
  connection goroutines are run in the order they are started. The flag of \<open>AcceptError\<close> is
  whether the service's context had ended.
\<close>

fun acceptLoop :: "topicRuntime \<Rightarrow> accept_result list \<Rightarrow> NodeToNodeService \<Rightarrow> service_hook list \<times> bool \<times> NodeToNodeService" where
  "acceptLoop rt [] s = ([], False, s)"
| "acceptLoop rt (AcceptError err done # rs) s =
     (if done then ([], False, s)
      else (serviceCallError rt s (Some (Errorf ''accept DMQ node-to-node peer: %w'' [WrapArg err])), True,
            (setListenError err s)\<lparr>ns_cancelled := True\<rparr>))"
| "acceptLoop rt (AcceptNil # rs) s =
     (let err = ErrorNew ''accept DMQ node-to-node peer: accepted nil connection''
      in (serviceCallError rt s (Some err), True, (setListenError err s)\<lparr>ns_cancelled := True\<rparr>))"
| "acceptLoop rt (AcceptNoAddr # rs) s =
     (let calls = serviceCallError rt s
            (Some (ErrorNew ''accept DMQ node-to-node peer: accepted connection with nil remote address''));
          (calls', closed, s') = acceptLoop rt rs s
      in (calls @ calls', closed, s'))"
| "acceptLoop rt (Accepted addr newConn endErr # rs) s =
     (let peer = zero_Peer\<lparr>p_Address := addr, p_Source := PeerSourcePeerSharing\<rparr>;
          (calls, err, s1) = handleConnection peer newConn endErr s;
          calls2 = reportPeerError rt s1 peer err;
          (calls', closed, s') = acceptLoop rt rs s1
      in (calls @ calls2 @ calls', closed, s'))"

section \<open>Closing\<close>

text \<open>
  \<^verbatim>\<open>Close\<close>: the error, the listener and the connections it closes, the service and the
  manager. \<open>atWait\<close> is \<^verbatim>\<open>listenErr\<close> as it is once the goroutines have ended.
\<close>

definition closeService :: "(nat \<Rightarrow> go_error option) \<Rightarrow> go_error option \<Rightarrow> nat \<Rightarrow> NodeToNodeService \<Rightarrow> Manager \<Rightarrow>
    go_error option \<times> nat list \<times> nat list \<times> NodeToNodeService \<times> Manager" where
  "closeService closeListener atWait sid s m =
     (if ns_closed s then (ns_listenErr s, [], [], s, m)
      else
        (let s' = s\<lparr>ns_closed := True, ns_cancelled := True, ns_listenErr := atWait\<rparr>;
             ls = (case ns_listener s of None \<Rightarrow> [] | Some l \<Rightarrow> [l]);
             errs = map closeListener ls
               @ (case atWait of None \<Rightarrow> [] | Some e \<Rightarrow> if errors_is e NetErrClosed then [] else [Some e])
         in (errors_Join errs, ls, ns_peers s, s', unregisterService sid m)))"

section \<open>Starting\<close>

definition dialTopicPeers :: "Peer list \<Rightarrow> NodeToNodeService \<Rightarrow> NodeToNodeService" where
  "dialTopicPeers peers s = foldl (\<lambda>s p. AddPeer p s) s (peers @ nc_Peers (ns_cfg s))"

text \<open>The first part of \<^verbatim>\<open>start\<close>: the listener, if one is configured.\<close>

definition listening :: "(string \<Rightarrow> nat result) \<Rightarrow> NodeToNodeService \<Rightarrow> NodeToNodeService result" where
  "listening listen s =
     (if nc_ListenAddress (ns_cfg s) = [] then Inr s
      else case listen (nc_ListenAddress (ns_cfg s)) of
        Inl err \<Rightarrow> Inl (Errorf ''listen DMQ node-to-node address %q: %w''
          [StrArg (nc_ListenAddress (ns_cfg s)), WrapArg err])
      | Inr l \<Rightarrow> Inr (s\<lparr>ns_listener := Some l\<rparr>))"

text \<open>
  \<^verbatim>\<open>start\<close>, with no other goroutine running between its steps: the error, the listeners it
  closed again, the topic's hook calls, the service and the manager (\<open>None\<close> if peer discovery
  panics).
\<close>

definition startService :: "(string \<Rightarrow> nat result) \<Rightarrow> (nat \<Rightarrow> go_error option) \<Rightarrow> gocontext \<Rightarrow> nat \<Rightarrow> NodeToNodeService \<Rightarrow>
    Manager \<Rightarrow> (go_error option \<times> nat list \<times> hook_call list \<times> NodeToNodeService \<times> Manager) option" where
  "startService listen closeListener ctx sid s m =
     (case ctx_Err ctx of
        Some e \<Rightarrow> Some (Some e, [], [], s, m)
      | None \<Rightarrow>
          (case listening listen s of
             Inl err \<Rightarrow> Some (Some err, [], [], s, m)
           | Inr s1 \<Rightarrow>
               (case TopicPeers ctx (ns_topic s1) m of
                  None \<Rightarrow> None
                | Some (Inr peers, calls, m1) \<Rightarrow> Some (None, [], calls, dialTopicPeers peers s1, m1)
                | Some (Inl err, calls, m1) \<Rightarrow>
                    (let (e, closed, conns, s2, m2) = closeService closeListener (ns_listenErr s1) sid s1 m1
                     in Some (Some err, closed, calls, s2, m2)))))"

definition StartNodeToNode :: "(string \<Rightarrow> nat result) \<Rightarrow> (nat \<Rightarrow> go_error option) \<Rightarrow> gocontext option \<Rightarrow> nat \<Rightarrow> string \<Rightarrow>
    NodeToNodeConfig \<Rightarrow> Manager \<Rightarrow> (NodeToNodeService result \<times> nat list \<times> hook_call list \<times> Manager) option" where
  "StartNodeToNode listen closeListener ctx sid topic cfg m =
     (case ctx of
        None \<Rightarrow> Some (Inl (ErrorNew ''context is nil''), [], [], m)
      | Some c \<Rightarrow>
          (case topicOf m topic of
             Inl err \<Rightarrow> Some (Inl err, [], [], m)
           | Inr rt \<Rightarrow>
               if tc_NetworkMagic (tr_cfg rt) = 0 then Some (Inl (Sentinel ErrNetworkMagicRequired), [], [], m)
               else if \<not> ac_Required (tc_Authentication (tr_cfg rt))
                       \<and> \<not> ac_AllowUnauthenticated (tc_Authentication (tr_cfg rt))
               then Some (Inl (Sentinel ErrAuthenticationRequired), [], [], m)
               else
                 (let s = newNodeToNodeService (tr_name rt) cfg in
                  case registerService sid m of
                    (Some err, m1) \<Rightarrow> Some (Inl err, [], [], m1)
                  | (None, m1) \<Rightarrow>
                      (case startService listen closeListener c sid s m1 of
                         None \<Rightarrow> None
                       | Some (None, closed, calls, s2, m2) \<Rightarrow> Some (Inr s2, closed, calls, m2)
                       | Some (Some err, closed, calls, s2, m2) \<Rightarrow>
                           (let (e, closed2, conns, s3, m3) = closeService closeListener (ns_listenErr s2) sid s2 m2
                            in Some (Inl err, closed @ closed2, calls, m3))))))"

section \<open>Shutdown of the manager with its services\<close>

record node_world =
  nw_mgr :: Manager
  nw_services :: "(nat \<times> NodeToNodeService) list"

text \<open>The services of the manager are closed one by one, their errors collected.\<close>

fun closeServices :: "(nat \<Rightarrow> go_error option) \<Rightarrow> nat list \<Rightarrow> node_world \<Rightarrow> go_error option list \<times> node_world" where
  "closeServices closeListener [] w = ([], w)"
| "closeServices closeListener (sid # sids) w =
     (case map_of (nw_services w) sid of
        None \<Rightarrow> closeServices closeListener sids w
      | Some s \<Rightarrow>
          (let (err, ls, conns, s', m') = closeService closeListener (ns_listenErr s) sid s (nw_mgr w);
               (errs, w') = closeServices closeListener sids
                  (w\<lparr>nw_mgr := m', nw_services := go_map_put sid s' (nw_services w)\<rparr>)
           in (err # errs, w')))"

text \<open>
  \<^verbatim>\<open>Shutdown\<close>: the closing goroutine runs to its end; \<open>doneFirst\<close> is the choice of the
  final \<^verbatim>\<open>select\<close> between its result and the end of the caller's context.
\<close>

definition Shutdown :: "(nat \<Rightarrow> go_error option) \<Rightarrow> gocontext \<Rightarrow> bool \<Rightarrow> node_world \<Rightarrow> (go_error option \<times> node_world) option" where
  "Shutdown closeListener ctx doneFirst w =
     (case shutdownBegin (nw_mgr w) of
        (None, m) \<Rightarrow> Some (None, w)
      | (Some (topics, services), m) \<Rightarrow>
          (let (errs, w1) = closeServices closeListener services (w\<lparr>nw_mgr := m\<rparr>)
           in case closeTopics topics (nw_mgr w1) of
                None \<Rightarrow> None
              | Some m2 \<Rightarrow> Some (if doneFirst then errors_Join errs else ctx_Err ctx, w1\<lparr>nw_mgr := m2\<rparr>)))"

end
