(* ===== verification/Node_Correctness.thy ===== *)
theory Node_Correctness
  imports Node_Service
begin

text \<open>
  The correctness of the node-to-node service: the reconnect backoff and where it overflows, one
  outbound loop per address, the guards of starting a service and that a failed start leaves
  nothing behind, the complete shutdown of a manager, and the interleaving of \<^verbatim>\<open>start\<close> and
  \<^verbatim>\<open>Close\<close> that leaks the listener.
\<close>

section \<open>Backoff\<close>

text \<open>The backoff before the \<open>k\<close>-th of a series of failed attempts.\<close>

definition backoff_after :: "ReconnectConfig \<Rightarrow> nat \<Rightarrow> duration" where
  "backoff_after cfg k = min (rc_MaxBackoff cfg) (rc_InitialBackoff cfg * 2 ^ k)"

definition sane_backoff :: "ReconnectConfig \<Rightarrow> bool" where
  "sane_backoff cfg = (sane_reconnect cfg \<and> rc_MaxBackoff cfg < 2 ^ 62)"

lemma nextBackoff_double:
  assumes "sane_backoff cfg" "0 < b" "b \<le> rc_MaxBackoff cfg"
  shows "nextBackoff cfg b = min (rc_MaxBackoff cfg) (b * 2)"
proof -
  have "to_int64 (b * 2) = b * 2"
    using assms by (intro to_int64_id) (simp_all add: sane_backoff_def minDuration_def maxDuration_def)
  then show ?thesis by (simp add: nextBackoff_def Let_def min_def)
qed

lemma backoff_after_range:
  assumes "sane_backoff cfg"
  shows "0 < backoff_after cfg k" "rc_InitialBackoff cfg \<le> backoff_after cfg k" "backoff_after cfg k \<le> rc_MaxBackoff cfg"
proof -
  have r: "0 < rc_InitialBackoff cfg" "rc_InitialBackoff cfg \<le> rc_MaxBackoff cfg"
    using assms by (simp_all add: sane_backoff_def sane_reconnect_def)
  then have "rc_InitialBackoff cfg * 1 \<le> rc_InitialBackoff cfg * 2 ^ k" by (intro mult_left_mono) simp_all
  then show "0 < backoff_after cfg k" "rc_InitialBackoff cfg \<le> backoff_after cfg k" "backoff_after cfg k \<le> rc_MaxBackoff cfg"
    using r by (simp_all add: backoff_after_def)
qed

lemma nextBackoff_after:
  assumes "sane_backoff cfg"
  shows "nextBackoff cfg (backoff_after cfg k) = backoff_after cfg (Suc k)"
proof -
  have "nextBackoff cfg (backoff_after cfg k) = min (rc_MaxBackoff cfg) (backoff_after cfg k * 2)"
    using backoff_after_range [OF assms] by (intro nextBackoff_double [OF assms])
  also have "\<dots> = backoff_after cfg (Suc k)"
    using assms by (auto simp: backoff_after_def min_def sane_backoff_def sane_reconnect_def)
  finally show ?thesis .
qed

lemma outboundLoop_waits:
  assumes "sane_backoff (nc_Reconnect (ns_cfg s))"
  shows "list_all (\<lambda>w. rc_InitialBackoff (nc_Reconnect (ns_cfg s)) \<le> w \<and> w \<le> rc_MaxBackoff (nc_Reconnect (ns_cfg s)))
     (fst (outboundLoop rt s peer (backoff_after (nc_Reconnect (ns_cfg s)) k) outcomes))"
proof (induction outcomes arbitrary: k)
  case (Cons out os)
  obtain err d where o: "out = (err, d)" by (cases out)
  let ?c = "nc_Reconnect (ns_cfg s)"
  have z: "backoff_after ?c 0 = rc_InitialBackoff ?c"
    using assms by (simp add: backoff_after_def sane_backoff_def sane_reconnect_def)
  show ?case
    using Cons.IH [of "Suc k"] Cons.IH [of "Suc 0"] backoff_after_range [OF assms] backoff_after_range(3) [OF assms, of 0]
    by (auto simp: o Let_def nextBackoff_after [OF assms] z [symmetric] split: prod.splits)
qed simp

lemma outboundLoop_failures:
  assumes "sane_backoff (nc_Reconnect (ns_cfg s))"
  shows "fst (outboundLoop rt s peer (backoff_after (nc_Reconnect (ns_cfg s)) k) (map (\<lambda>e. (Some e, False)) errs))
     = map (\<lambda>j. backoff_after (nc_Reconnect (ns_cfg s)) (k + j)) [0..<length errs]"
proof (induction errs arbitrary: k)
  case (Cons e errs)
  show ?case
    using Cons.IH [of "Suc k"]
    by (simp add: Let_def nextBackoff_after [OF assms] split_beta map_Suc_upt [symmetric] upt_conv_Cons comp_def del: upt_Suc)
qed simp

text \<open>
  C37: The reconnect backoff of a service is exponential and bounded. With a maximum below
  \<open>2^62\<close> nanoseconds (146 years), \<open>n\<close> failed attempts in a row wait for the initial
  backoff doubled each time and capped at the maximum, and whatever the outcomes, every wait is
  between the initial and the maximum backoff.
\<close>

theorem reconnect_backoff:
  assumes "rc = defaultReconnectConfig (nc_Reconnect cfg)" "rc_MaxBackoff rc < 2 ^ 62"
  shows "fst (startOutbound rt (newNodeToNodeService topic cfg) peer (map (\<lambda>e. (Some e, False)) errs))
       = map (\<lambda>k. min (rc_MaxBackoff rc) (rc_InitialBackoff rc * 2 ^ k)) [0..<length errs]
    \<and> list_all (\<lambda>w. rc_InitialBackoff rc \<le> w \<and> w \<le> rc_MaxBackoff rc)
        (fst (startOutbound rt (newNodeToNodeService topic cfg) peer outcomes))"
proof -
  let ?s = "newNodeToNodeService topic cfg"
  have rc: "nc_Reconnect (ns_cfg ?s) = rc" using assms(1) by (simp add: newNodeToNodeService_def)
  have sane: "sane_backoff (nc_Reconnect (ns_cfg ?s))"
    using assms unfolding rc by (simp add: sane_backoff_def)
  have z: "backoff_after rc 0 = rc_InitialBackoff rc"
    using sane unfolding rc by (simp add: backoff_after_def sane_backoff_def sane_reconnect_def)
  show ?thesis
    using outboundLoop_failures [OF sane, of rt peer 0 errs, unfolded rc z]
      outboundLoop_waits [OF sane, of rt peer 0 outcomes, unfolded rc z]
    by (simp add: startOutbound_def rc backoff_after_def)
qed

definition ex_node_config :: NodeToNodeConfig where
  "ex_node_config = \<lparr>nc_ListenAddress = ''127.0.0.1:0'', nc_Peers = [], nc_RequestInterval = 0, nc_RequestCount = 0,
     nc_DialTimeout = 0, nc_Reconnect = \<lparr>rc_InitialBackoff = 0, rc_MaxBackoff = 0\<rparr>,
     nc_Hooks = \<lparr>nh_OnPeerConnected = True, nh_OnPeerDisconnected = True, nh_OnError = True\<rparr>\<rparr>"

theorem reconnect_backoff_witness:
  "fst (startOutbound ex_topic1 (newNodeToNodeService ''t'' ex_node_config) zero_Peer
      (map (\<lambda>e. (Some e, False)) (replicate 9 (ErrorNew ''refused''))))
   = [Second, 2 * Second, 4 * Second, 8 * Second, 16 * Second, 32 * Second, 64 * Second, 2 * Minute, 2 * Minute]"
proof -
  have "rc_MaxBackoff (defaultReconnectConfig (nc_Reconnect ex_node_config)) < 2 ^ 62" by code_simp
  from reconnect_backoff [OF refl this, of ex_topic1 "''t''" zero_Peer "replicate 9 (ErrorNew ''refused'')"]
  have "fst (startOutbound ex_topic1 (newNodeToNodeService ''t'' ex_node_config) zero_Peer
      (map (\<lambda>e. (Some e, False)) (replicate 9 (ErrorNew ''refused''))))
    = map (\<lambda>k. min (2 * Minute) (Second * 2 ^ k)) [0..<9]"
    by (simp add: ex_node_config_def defaultReconnectConfig_def)
  also have "\<dots> = [Second, 2 * Second, 4 * Second, 8 * Second, 16 * Second, 32 * Second, 64 * Second, 2 * Minute, 2 * Minute]"
    by code_simp
  finally show ?thesis .
qed

lemma overflow_waits:
  assumes rc: "nc_Reconnect (ns_cfg s) = \<lparr>rc_InitialBackoff = 2 ^ 62, rc_MaxBackoff = 2 ^ 63 - 1\<rparr>"
  shows "fst (outboundLoop rt s peer (2 ^ 62) (map (\<lambda>e. (Some e, False)) (e # e' # errs)))
    = 2 ^ 62 # - (2 ^ 63) # replicate (length errs) 0"
proof -
  have nb: "nextBackoff (nc_Reconnect (ns_cfg s)) (2 ^ 62) = - (2 ^ 63)"
    "nextBackoff (nc_Reconnect (ns_cfg s)) (- (2 ^ 63)) = 0" "nextBackoff (nc_Reconnect (ns_cfg s)) 0 = 0"
    unfolding rc by (simp_all add: nextBackoff_def to_int64_def)
  have "fst (outboundLoop rt s peer 0 (map (\<lambda>e. (Some e, False)) errs)) = replicate (length errs) 0" for errs
    by (induction errs) (simp_all add: Let_def nb split_beta)
  then show ?thesis
    by (simp only: list.map outboundLoop.simps Let_def nb split_beta fst_conv snd_conv option.distinct if_False)
qed

text \<open>
  Without that bound the doubling overflows. With an initial backoff of \<open>2^62\<close>
  nanoseconds and the largest maximum, which the defaults leave alone, every wait from the
  second on is negative or zero, so the loop redials without any delay.
\<close>

theorem reconnect_backoff_overflows:
  "fst (startOutbound rt (newNodeToNodeService topic (cfg\<lparr>nc_Reconnect := \<lparr>rc_InitialBackoff = 2 ^ 62, rc_MaxBackoff = 2 ^ 63 - 1\<rparr>\<rparr>))
      peer (map (\<lambda>e. (Some e, False)) (e # e' # errs)))
   = 2 ^ 62 # - (2 ^ 63) # replicate (length errs) 0"
proof -
  let ?s = "newNodeToNodeService topic (cfg\<lparr>nc_Reconnect := \<lparr>rc_InitialBackoff = 2 ^ 62, rc_MaxBackoff = 2 ^ 63 - 1\<rparr>\<rparr>)"
  have rc: "nc_Reconnect (ns_cfg ?s) = \<lparr>rc_InitialBackoff = 2 ^ 62, rc_MaxBackoff = 2 ^ 63 - 1\<rparr>"
    by (simp add: newNodeToNodeService_def defaultReconnectConfig_def)
  have "rc_InitialBackoff (nc_Reconnect (ns_cfg ?s)) = 2 ^ 62" unfolding rc by simp
  then show ?thesis unfolding startOutbound_def using overflow_waits [OF rc] by (simp only:)
qed

section \<open>One loop per address\<close>

definition outbound_ok :: "NodeToNodeService \<Rightarrow> bool" where
  "outbound_ok s = (distinct (map p_Address (ns_dialed s)) \<and> set (ns_outbound s) = set (map p_Address (ns_dialed s))
     \<and> list_all (\<lambda>p. p_Address p \<noteq> [] \<and> p_Source p \<noteq> []) (ns_dialed s))"

lemma normalize_address:
  "normalizeNodeToNodePeer peer = Some p \<Longrightarrow> p_Address p \<noteq> [] \<and> p_Source p \<noteq> []"
  by (auto simp: normalizeNodeToNodePeer_def newPeer_def Let_def split: if_splits)

lemma outbound_ok_AddPeer: "outbound_ok s \<Longrightarrow> outbound_ok (AddPeer p s)"
  by (auto simp: outbound_ok_def AddPeer_def dest: normalize_address split: option.splits)

lemma outbound_ok_fold: "outbound_ok s \<Longrightarrow> outbound_ok (foldl (\<lambda>s p. AddPeer p s) s ps)"
  by (induction ps arbitrary: s) (simp_all add: outbound_ok_AddPeer)

lemma AddPeer_dials:
  "\<not> ns_closed s \<Longrightarrow> set (ns_outbound (foldl (\<lambda>s p. AddPeer p s) s ps))
     = set (ns_outbound s) \<union> {p_Address q |p q. p \<in> set ps \<and> normalizeNodeToNodePeer p = Some q}"
proof (induction ps arbitrary: s)
  case (Cons p ps)
  have "\<not> ns_closed (AddPeer p s)" using Cons.prems by (simp add: AddPeer_def split: option.splits)
  moreover have "set (ns_outbound (AddPeer p s))
      = set (ns_outbound s) \<union> {p_Address q |q. normalizeNodeToNodePeer p = Some q}"
    using Cons.prems by (auto simp: AddPeer_def split: option.splits)
  ultimately show ?case using Cons.IH [of "AddPeer p s"] by auto
qed simp

text \<open>
  However peers are added, a service runs at most one outbound loop per address; every
  loop has a non-empty address and source; every added peer that has an address or a host has a
  loop for its address; and a closed service starts none.
\<close>

theorem one_loop_per_address:
  "(let s = foldl (\<lambda>s p. AddPeer p s) (newNodeToNodeService topic cfg) ps in
      distinct (map p_Address (ns_dialed s)) \<and> list_all (\<lambda>p. p_Address p \<noteq> [] \<and> p_Source p \<noteq> []) (ns_dialed s)
      \<and> set (map p_Address (ns_dialed s)) = {p_Address q |p q. p \<in> set ps \<and> normalizeNodeToNodePeer p = Some q})
   \<and> (ns_closed t \<longrightarrow> AddPeer p t = t)"
proof -
  have "outbound_ok (newNodeToNodeService topic cfg)" by (simp add: outbound_ok_def newNodeToNodeService_def)
  from outbound_ok_fold [OF this, of ps] AddPeer_dials [of "newNodeToNodeService topic cfg" ps]
  show ?thesis by (auto simp: outbound_ok_def newNodeToNodeService_def AddPeer_def Let_def split: option.splits)
qed

theorem one_loop_per_address_witness:
  "AddPeer (zero_Peer\<lparr>p_Address := ''a:1''\<rparr>) ((newNodeToNodeService ''t'' ex_node_config)\<lparr>ns_closed := True\<rparr>)
     = (newNodeToNodeService ''t'' ex_node_config)\<lparr>ns_closed := True\<rparr>"
  using one_loop_per_address by simp

section \<open>Starting a service\<close>

definition networkable :: "TopicConfig \<Rightarrow> bool" where
  "networkable cfg = (tc_NetworkMagic cfg \<noteq> 0
     \<and> (ac_Required (tc_Authentication cfg) \<or> ac_AllowUnauthenticated (tc_Authentication cfg)))"

lemma closeService_open:
  "\<not> ns_closed s \<Longrightarrow> closeService cl w sid s m = (e, ls, conns, s', m') \<Longrightarrow>
     ls = (case ns_listener s of None \<Rightarrow> [] | Some l \<Rightarrow> [l]) \<and> conns = ns_peers s \<and> ns_closed s'
     \<and> ns_cancelled s' \<and> m' = unregisterService sid m"
  by (auto simp: closeService_def Let_def)

lemma AddPeer_fields:
  "ns_closed (foldl (\<lambda>s p. AddPeer p s) s ps) = ns_closed s"
  "ns_listener (foldl (\<lambda>s p. AddPeer p s) s ps) = ns_listener s"
  by (induction ps arbitrary: s) (auto simp: AddPeer_def split: option.splits)

lemma TopicPeers_services: "TopicPeers ctx n m = Some (r, calls, m') \<Longrightarrow> mg_services m' = mg_services m"
  by (auto simp: TopicPeers_def callTopic_def topicOf_def split: sum.splits if_splits option.splits prod.splits)

lemma startService_ok:
  assumes "startService listen cl ctx sid s m = Some (None, closed, calls, s2, m2)" "\<not> ns_closed s"
  shows "\<not> ns_closed s2 \<and> closed = [] \<and> mg_services m2 = mg_services m
    \<and> dom (map_of (mg_topics m2)) = dom (map_of (mg_topics m)) \<and> mg_closed m2 = mg_closed m"
proof -
  obtain s1 peers where s1: "listening listen s = Inr s1"
    and t: "TopicPeers ctx (ns_topic s1) m = Some (Inr peers, calls, m2)" "s2 = dialTopicPeers peers s1" "closed = []"
    using assms(1) by (auto simp: startService_def Let_def split: option.splits sum.splits prod.splits)
  have "\<not> ns_closed s1" using s1 assms(2) by (auto simp: listening_def split: if_splits sum.splits)
  moreover have "mg_services m2 = mg_services m"
    using t(1) by (rule TopicPeers_services)
  moreover have "dom (map_of (mg_topics m2)) = dom (map_of (mg_topics m)) \<and> mg_closed m2 = mg_closed m"
    using discover_op.call_frame t(1) unfolding TopicPeers_def by blast
  ultimately show ?thesis using t by (simp add: dialTopicPeers_def AddPeer_fields)
qed

lemma startService_failed:
  assumes "startService listen cl ctx sid s m = Some (Some err, closed, calls, s2, m2)" "\<not> ns_closed s"
    "ns_listener s = None"
  shows "closed = (case listening listen s of Inl e \<Rightarrow> []
       | Inr s1 \<Rightarrow> if ctx_Err ctx = None then (case ns_listener s1 of None \<Rightarrow> [] | Some l \<Rightarrow> [l]) else [])
    \<and> (closed \<noteq> [] \<longrightarrow> ns_closed s2) \<and> (ns_closed s2 \<or> ns_listener s2 = None)
    \<and> (ns_closed s2 \<longrightarrow> sid \<notin> set (mg_services m2)) \<and> set (mg_services m2) - {sid} = set (mg_services m) - {sid}"
proof (cases "ctx_Err ctx")
  case (Some e)
  then show ?thesis using assms by (auto simp: startService_def split: sum.splits)
next
  case None
  show ?thesis
  proof (cases "listening listen s")
    case (Inl e)
    then show ?thesis using None assms by (simp add: startService_def)
  next
    case (Inr s1)
    have op: "\<not> ns_closed s1" using Inr assms(2) by (auto simp: listening_def split: if_splits sum.splits)
    obtain m1 e conns where t: "TopicPeers ctx (ns_topic s1) m = Some (Inl err, calls, m1)"
      and c: "closeService cl (ns_listenErr s1) sid s1 m1 = (e, closed, conns, s2, m2)"
      using assms(1) None Inr by (auto simp: startService_def split: option.splits prod.splits sum.splits)
    have "mg_services m1 = mg_services m"
      using t by (rule TopicPeers_services)
    then show ?thesis using closeService_open [OF op c] None Inr by (auto simp: unregisterService_def)
  qed
qed

lemma StartNodeToNode_spec:
  assumes "sid \<notin> set (mg_services m)" "StartNodeToNode listen cl ctx sid topic cfg m = Some (r, closed, calls, m')"
  shows "(case r of
      Inr s \<Rightarrow> \<not> mg_closed m \<and> (\<exists>rt. map_of (mg_topics m) topic = Some rt \<and> networkable (tr_cfg rt))
        \<and> \<not> ns_closed s \<and> sid \<in> set (mg_services m') \<and> closed = []
        \<and> dom (map_of (mg_topics m')) = dom (map_of (mg_topics m)) \<and> \<not> mg_closed m'
    | Inl err \<Rightarrow> set (mg_services m') = set (mg_services m)
        \<and> (\<forall>c rt. ctx = Some c \<longrightarrow> topicOf m topic = Inr rt \<longrightarrow> networkable (tr_cfg rt) \<longrightarrow>
             closed = (case listening listen (newNodeToNodeService (tr_name rt) cfg) of Inl e \<Rightarrow> []
               | Inr s1 \<Rightarrow> if ctx_Err c = None then (case ns_listener s1 of None \<Rightarrow> [] | Some l \<Rightarrow> [l]) else [])))"
proof (cases "\<exists>c rt. ctx = Some c \<and> topicOf m topic = Inr rt \<and> networkable (tr_cfg rt)")
  case False
  then have "\<exists>err. r = Inl err \<and> closed = [] \<and> m' = m"
    using assms(2) by (auto simp: StartNodeToNode_def networkable_def split: option.splits sum.splits if_splits)
  then show ?thesis using False by auto
next
  case True
  then obtain c rt where c: "ctx = Some c" "topicOf m topic = Inr rt" "networkable (tr_cfg rt)" by blast
  let ?s = "newNodeToNodeService (tr_name rt) cfg"
  have open_m: "\<not> mg_closed m" "map_of (mg_topics m) topic = Some rt"
    using c(2) by (auto simp: topicOf_def split: if_splits option.splits)
  define m1 where "m1 = m\<lparr>mg_services := List.insert sid (mg_services m)\<rparr>"
  have reg: "registerService sid m = (None, m1)" using open_m by (simp add: registerService_def m1_def)
  have s: "\<not> ns_closed ?s" "ns_listener ?s = None" by (simp_all add: newNodeToNodeService_def)
  have start: "StartNodeToNode listen cl ctx sid topic cfg m =
    (case startService listen cl c sid ?s m1 of None \<Rightarrow> None
     | Some (None, closed, calls, s2, m2) \<Rightarrow> Some (Inr s2, closed, calls, m2)
     | Some (Some err, closed, calls, s2, m2) \<Rightarrow>
         (let (e, closed2, conns, s3, m3) = closeService cl (ns_listenErr s2) sid s2 m2
          in Some (Inl err, closed @ closed2, calls, m3)))"
    using c reg by (auto simp: StartNodeToNode_def networkable_def Let_def)
  show ?thesis
  proof (cases r)
    case (Inr s2)
    then have "startService listen cl c sid ?s m1 = Some (None, closed, calls, s2, m')"
      using assms(2) unfolding start by (auto simp: Let_def split: option.splits prod.splits)
    from startService_ok [OF this s(1)] show ?thesis using Inr open_m c(3) by (simp add: m1_def)
  next
    case (Inl err)
    then obtain cl1 s2 m2 e cl2 conns s3 where
      st: "startService listen cl c sid ?s m1 = Some (Some err, cl1, calls, s2, m2)"
      and cs: "closeService cl (ns_listenErr s2) sid s2 m2 = (e, cl2, conns, s3, m')" "closed = cl1 @ cl2"
      using assms(2) unfolding start by (auto simp: Let_def split: option.splits prod.splits)
    note f = startService_failed [OF st s]
    have "cl2 = [] \<and> sid \<notin> set (mg_services m') \<and> set (mg_services m') - {sid} = set (mg_services m2) - {sid}"
    proof (cases "ns_closed s2")
      case True
      then have "cl2 = []" "m' = m2" using cs(1) by (simp_all add: closeService_def)
      then show ?thesis using f True by simp
    next
      case False
      from closeService_open [OF this cs(1)] show ?thesis using f False by (auto simp: unregisterService_def)
    qed
    then have "closed = cl1" "set (mg_services m') = set (mg_services m)"
      using f cs(2) assms(1) by (auto simp: m1_def)
    then show ?thesis using f Inl c by simp
  qed
qed


definition ex_net_manager :: Manager where
  "ex_net_manager = snd (RegisterTopic ''a'' (ex_topic_config\<lparr>tc_Authentication :=
     \<lparr>ac_Required = False, ac_Authenticator = None, ac_AllowUnauthenticated = True\<rparr>\<rparr>)
     (NewManager \<lparr>mc_Signer = None, mc_Authenticator = None\<rparr>))"

definition ex_started :: "(NodeToNodeService result \<times> nat list \<times> hook_call list \<times> Manager) option" where
  "ex_started = StartNodeToNode (\<lambda>_. Inr 7) (\<lambda>_. None) (Some \<lparr>ctx_id = 0, ctx_Err = None\<rparr>) 0 ''a'' ex_node_config ex_net_manager"

lemma ex_started_ok: "\<exists>s closed calls m'. ex_started = Some (Inr s, closed, calls, m')"
proof (cases ex_started)
  case None
  moreover have "ex_started \<noteq> None" by code_simp
  ultimately show ?thesis by simp
next
  case (Some x)
  obtain r closed calls m' where x: "x = (r, closed, calls, m')" by (cases x)
  have "(case ex_started of Some (Inr s, closed, calls, m') \<Rightarrow> True | _ \<Rightarrow> False)" by code_simp
  then show ?thesis unfolding Some x by (cases r) auto
qed


section \<open>Shutting a manager down\<close>

definition service_open :: "node_world \<Rightarrow> nat \<Rightarrow> bool" where
  "service_open w sid = (\<exists>s. map_of (nw_services w) sid = Some s \<and> \<not> ns_closed s)"

lemma closeServices_spec:
  assumes "distinct sids" "\<forall>sid \<in> set sids. service_open w sid"
  shows "(case closeServices cl sids w of (errs, w') \<Rightarrow>
      nw_mgr w' = (nw_mgr w)\<lparr>mg_services := filter (\<lambda>k. k \<notin> set sids) (mg_services (nw_mgr w))\<rparr>
      \<and> (\<forall>k. k \<notin> set sids \<longrightarrow> map_of (nw_services w') k = map_of (nw_services w) k)
      \<and> (\<forall>k \<in> set sids. \<exists>s. map_of (nw_services w') k = Some s \<and> ns_closed s))"
  using assms
proof (induction sids arbitrary: w)
  case (Cons sid sids)
  obtain s where s: "map_of (nw_services w) sid = Some s" "\<not> ns_closed s"
    using Cons.prems(2) by (auto simp: service_open_def)
  obtain e ls conns s' m' where c: "closeService cl (ns_listenErr s) sid s (nw_mgr w) = (e, ls, conns, s', m')"
    by (cases "closeService cl (ns_listenErr s) sid s (nw_mgr w)")
  note cs = closeService_open [OF s(2) c]
  define w1 where "w1 = w\<lparr>nw_mgr := m', nw_services := go_map_put sid s' (nw_services w)\<rparr>"
  have op: "\<forall>k \<in> set sids. service_open w1 k"
    using Cons.prems by (auto simp: w1_def service_open_def)
  obtain errs w' where r: "closeServices cl sids w1 = (errs, w')" by (cases "closeServices cl sids w1")
  have step: "closeServices cl (sid # sids) w = (e # errs, w')" using s(1) c r by (simp add: w1_def)
  have mgr: "nw_mgr w' = m'\<lparr>mg_services := filter (\<lambda>k. k \<notin> set sids) (mg_services m')\<rparr>"
    and keep: "\<And>k. k \<notin> set sids \<Longrightarrow> map_of (nw_services w') k = map_of (nw_services w1) k"
    and cl: "\<And>k. k \<in> set sids \<Longrightarrow> \<exists>s. map_of (nw_services w') k = Some s \<and> ns_closed s"
    using Cons.IH [OF _ op] Cons.prems(1) r by (auto simp: w1_def)
  have "removeAll sid xs = filter (\<lambda>k. k \<noteq> sid) xs" for xs by (induction xs) auto
  then have "nw_mgr w' = (nw_mgr w)\<lparr>mg_services := filter (\<lambda>k. k \<notin> set (sid # sids)) (mg_services (nw_mgr w))\<rparr>"
    using mgr cs by (simp add: unregisterService_def)
  moreover have "map_of (nw_services w') k = map_of (nw_services w) k" if "k \<notin> set (sid # sids)" for k
    using keep [of k] that by (simp add: w1_def)
  moreover have "\<exists>s. map_of (nw_services w') k = Some s \<and> ns_closed s" if "k \<in> set (sid # sids)" for k
  proof (cases "k = sid")
    case True
    then show ?thesis using keep [of sid] Cons.prems(1) cs by (simp add: w1_def)
  qed (use that cl in simp)
  ultimately show ?case unfolding step prod.case by blast
qed simp

lemma closeTopics_spec:
  assumes "mgr_inv g m" "set ns \<subseteq> dom (map_of (mg_topics m))"
  shows "\<exists>m'. closeTopics ns m = Some m' \<and> mgr_inv g m' \<and> mg_closed m' = mg_closed m \<and> mg_services m' = mg_services m
    \<and> dom (map_of (mg_topics m')) = dom (map_of (mg_topics m))
    \<and> (\<forall>n rt. map_of (mg_topics m') n = Some rt \<longrightarrow> n \<in> set ns \<or> (\<exists>rt0. map_of (mg_topics m) n = Some rt0 \<and> tr_closed rt0)
          \<longrightarrow> tr_closed rt)"
  using assms
proof (induction ns arbitrary: m)
  case (Cons n ns)
  obtain rt where rt: "map_of (mg_topics m) n = Some rt" using Cons.prems(2) by auto
  note ok = reach_facts(2) [OF mgr_invD(3) [OF Cons.prems(1) rt]]
  define rt' where "rt' = (if tr_closed rt then rt else closed_topic rt)"
  have ct: "closeTopic rt = Some rt'" "tr_closed rt'" using closeTopic_eq [OF ok] by (simp_all add: rt'_def closed_topic_def)
  define m1 where "m1 = m\<lparr>mg_topics := go_map_put n rt' (mg_topics m)\<rparr>"
  have "topic_step g 0 rt rt'" using step_close [OF ct(1)] .
  then have inv: "mgr_inv g m1" unfolding m1_def by (intro mgr_inv_topic_steps [OF Cons.prems(1) rt]) blast
  have "set ns \<subseteq> dom (map_of (mg_topics m1))" using Cons.prems(2) by (auto simp: m1_def)
  from Cons.IH [OF inv this] obtain m' where m': "closeTopics ns m1 = Some m'" "mgr_inv g m'"
    "mg_closed m' = mg_closed m1" "mg_services m' = mg_services m1"
    "dom (map_of (mg_topics m')) = dom (map_of (mg_topics m1))"
    "\<And>k r. map_of (mg_topics m') k = Some r \<Longrightarrow> k \<in> set ns \<or> (\<exists>r0. map_of (mg_topics m1) k = Some r0 \<and> tr_closed r0) \<Longrightarrow> tr_closed r"
    by blast
  have "closeTopics (n # ns) m = Some m'" using rt ct m'(1) by (simp add: m1_def)
  moreover have "tr_closed r" if "map_of (mg_topics m') k = Some r"
    "k \<in> set (n # ns) \<or> (\<exists>r0. map_of (mg_topics m) k = Some r0 \<and> tr_closed r0)" for k r
    using that m'(6) [OF that(1)] ct(2) by (auto simp: m1_def split: if_splits)
  ultimately show ?case using m' rt by (auto simp: m1_def)
qed auto


definition ex_world :: node_world where
  "ex_world = \<lparr>nw_mgr = ex_net_manager\<lparr>mg_services := [0]\<rparr>, nw_services = [(0, newNodeToNodeService ''a'' ex_node_config)]\<rparr>"

lemma ex_world_reach: "mgr_reach ex_gouroboros (nw_mgr ex_world)"
proof -
  have "mgr_reach ex_gouroboros ex_net_manager"
    unfolding ex_net_manager_def by (intro mgr_reach_register mgr_reach_New)
  moreover have "registerService 0 ex_net_manager = (None, nw_mgr ex_world)"
    by (simp add: registerService_def ex_world_def ex_net_manager_def RegisterTopic_def NewManager_def Let_def
        fillTopicConfig_def defaultTopicConfig_def)
  ultimately show ?thesis using reach_step ms_service by metis
qed


section \<open>The race between start and Close\<close>

text \<open>
  \<^verbatim>\<open>start\<close> opens the listener and stores it in the service in two steps, without looking at
  \<^verbatim>\<open>closed\<close>; \<^verbatim>\<open>Close\<close> takes its copy of the listener when it marks the service closed. The
  service is already registered with the manager then, so a shutdown can run \<^verbatim>\<open>Close\<close> at any
  point. The steps below are these critical sections, with \<open>ra_open\<close> the listeners that are
  open.
\<close>

datatype start_pc = S_Begin | S_Listened nat | S_Stored

record race =
  ra_svc :: NodeToNodeService
  ra_open :: "nat set"
  ra_start :: start_pc
  ra_closing :: "nat option"

inductive race_step :: "race \<Rightarrow> race \<Rightarrow> bool" where
  race_listen: "ra_start w = S_Begin \<Longrightarrow> l \<notin> ra_open w
    \<Longrightarrow> race_step w (w\<lparr>ra_open := insert l (ra_open w), ra_start := S_Listened l\<rparr>)"
| race_store: "ra_start w = S_Listened l
    \<Longrightarrow> race_step w (w\<lparr>ra_svc := (ra_svc w)\<lparr>ns_listener := Some l\<rparr>, ra_start := S_Stored\<rparr>)"
| race_close: "\<not> ns_closed (ra_svc w) \<Longrightarrow>
    race_step w (w\<lparr>ra_svc := (ra_svc w)\<lparr>ns_closed := True, ns_cancelled := True\<rparr>, ra_closing := ns_listener (ra_svc w)\<rparr>)"
| race_close_again: "ns_closed (ra_svc w) \<Longrightarrow> race_step w w"
| race_close_listener: "ra_closing w = Some l \<Longrightarrow> race_step w (w\<lparr>ra_open := ra_open w - {l}, ra_closing := None\<rparr>)"

inductive_cases race_stepE: "race_step w w'"

definition race_init :: "NodeToNodeService \<Rightarrow> race" where
  "race_init s = \<lparr>ra_svc = s, ra_open = {}, ra_start = S_Begin, ra_closing = None\<rparr>"

definition leaked :: "nat \<Rightarrow> race \<Rightarrow> bool" where
  "leaked l w = (ns_closed (ra_svc w) \<and> ra_closing w = None \<and> ra_start w = S_Stored \<and> l \<in> ra_open w)"

interpretation leak_sm: inductive_invariant "leaked l" race_step "leaked l" for l
  by unfold_locales (auto simp: leaked_def elim: race_stepE)

text \<open>
  C12: A service that is closed while it is starting leaks its listener: there is an
  interleaving of \<^verbatim>\<open>start\<close> with one \<^verbatim>\<open>Close\<close> after which the service is closed, both have
  finished, the listener is open, and no later step of the service, including any number of
  further calls of \<^verbatim>\<open>Close\<close>, ever closes it.
\<close>

theorem start_close_race_leaks:
  "\<exists>w. race_step\<^sup>*\<^sup>* (race_init (newNodeToNodeService topic cfg)) w \<and> leaked l w
     \<and> (\<forall>w'. race_step\<^sup>*\<^sup>* w w' \<longrightarrow> ns_closed (ra_svc w') \<and> l \<in> ra_open w')"
proof -
  let ?s = "newNodeToNodeService topic cfg"
  let ?w1 = "(race_init ?s)\<lparr>ra_open := {l}, ra_start := S_Listened l\<rparr>"
  let ?w2 = "?w1\<lparr>ra_svc := ?s\<lparr>ns_closed := True, ns_cancelled := True\<rparr>, ra_closing := None\<rparr>"
  let ?w3 = "?w2\<lparr>ra_svc := ?s\<lparr>ns_closed := True, ns_cancelled := True, ns_listener := Some l\<rparr>, ra_start := S_Stored\<rparr>"
  have "race_step (race_init ?s) ?w1" using race_listen [of "race_init ?s" l] by (simp add: race_init_def)
  moreover have "race_step ?w1 ?w2"
    using race_close [of ?w1] by (simp add: race_init_def newNodeToNodeService_def)
  moreover have "race_step ?w2 ?w3" using race_store [of ?w2 l] by (simp add: race_init_def newNodeToNodeService_def)
  ultimately have "race_step\<^sup>*\<^sup>* (race_init ?s) ?w3" by (meson converse_rtranclp_into_rtranclp rtranclp.rtrancl_refl)
  moreover have "leaked l ?w3" by (simp add: leaked_def race_init_def)
  moreover have "ns_closed (ra_svc w') \<and> l \<in> ra_open w'" if "race_step\<^sup>*\<^sup>* ?w3 w'" for w'
    using leak_sm.steps_inv [OF that \<open>leaked l ?w3\<close>] by (simp add: leaked_def)
  ultimately show ?thesis by blast
qed

theorem start_close_race_leaks_witness:
  "\<exists>w. race_step\<^sup>*\<^sup>* (race_init (newNodeToNodeService ''t'' ex_node_config)) w \<and> ns_closed (ra_svc w) \<and> 7 \<in> ra_open w"
  using start_close_race_leaks [of "''t''" ex_node_config 7] by blast

end
