(* ===== verification/Topic_Node.thy ===== *)
theory Topic_Node
  imports Node_Correctness
begin

text \<open>
  \<^verbatim>\<open>topic_node.go\<close> and \<^verbatim>\<open>NewDiscoveryConfig\<close> of \<^verbatim>\<open>discovery.go\<close>: the single-topic node that
  bundles a manager, its topic and, when configured, a service. The topology parser is the
  parameter \<open>parseTopology\<close>.
\<close>

section \<open>Configuration\<close>

record TopicNodeConfig =
  nd_Topic :: string
  nd_ManagerConfig :: ManagerConfig
  nd_TopicConfig :: TopicConfig
  nd_TopologyFile :: string
  nd_StaticPeers :: "Peer list"
  nd_NodeToNode :: NodeToNodeConfig

record TopicNode =
  tn_topic :: string
  tn_manager :: Manager
  tn_service :: "NodeToNodeService option"

definition zero_DiscoveryConfig :: DiscoveryConfig where
  "zero_DiscoveryConfig = \<lparr>dc_Topology = None, dc_StaticPeers = [], dc_PeerSharing = False, dc_PeerSharingQuota = 0,
     dc_TopologyQuota = 0, dc_LedgerPeers = \<lparr>ld_Enabled = False, ld_UseLedgerAfterSlot = 0, ld_RefreshInterval = 0,
       ld_Target = 0, ld_BigLedgerTarget = 0, ld_Provider = None, ld_AllowUnsupported = False\<rparr>\<rparr>"

definition NewDiscoveryConfig :: "(string \<Rightarrow> TopologyConfig result) \<Rightarrow> string \<Rightarrow> Peer list \<Rightarrow> DiscoveryConfig result" where
  "NewDiscoveryConfig parseTopology topologyFile staticPeers =
     (let cfg = zero_DiscoveryConfig\<lparr>dc_StaticPeers :=
            map (\<lambda>p. if p_Source p = [] then p\<lparr>p_Source := PeerSourceStatic\<rparr> else p) (clonePeers staticPeers)\<rparr>
      in if topologyFile = [] then Inr cfg
         else case parseTopology topologyFile of
           Inl err \<Rightarrow> Inl err
         | Inr topology \<Rightarrow> Inr (cfg\<lparr>dc_Topology := Some topology\<rparr>))"

definition mergeDiscoveryConfig :: "DiscoveryConfig \<Rightarrow> DiscoveryConfig \<Rightarrow> DiscoveryConfig" where
  "mergeDiscoveryConfig base overlay =
     (let base = (if dc_Topology overlay \<noteq> None then base\<lparr>dc_Topology := dc_Topology overlay\<rparr> else base)
      in if length (dc_StaticPeers overlay) > 0
         then base\<lparr>dc_StaticPeers := clonePeers (dc_StaticPeers base) @ dc_StaticPeers overlay\<rparr>
         else base)"

definition topicNodeNetworkConfigured :: "TopicConfig \<Rightarrow> NodeToNodeConfig \<Rightarrow> bool" where
  "topicNodeNetworkConfigured topicCfg nodeCfg =
     (nc_ListenAddress nodeCfg \<noteq> [] \<or> length (nc_Peers nodeCfg) > 0
      \<or> dc_Topology (tc_Discovery topicCfg) \<noteq> None
      \<or> length (dc_StaticPeers (tc_Discovery topicCfg)) > 0
      \<or> ld_Enabled (dc_LedgerPeers (tc_Discovery topicCfg)))"

definition nodeTopicConfig :: "(string \<Rightarrow> TopologyConfig result) \<Rightarrow> TopicNodeConfig \<Rightarrow> TopicConfig result" where
  "nodeTopicConfig parseTopology cfg =
     (if nd_TopologyFile cfg \<noteq> [] \<or> length (nd_StaticPeers cfg) > 0
      then (case NewDiscoveryConfig parseTopology (nd_TopologyFile cfg) (nd_StaticPeers cfg) of
              Inl err \<Rightarrow> Inl err
            | Inr discovery \<Rightarrow> Inr ((nd_TopicConfig cfg)\<lparr>tc_Discovery :=
                mergeDiscoveryConfig (tc_Discovery (nd_TopicConfig cfg)) discovery\<rparr>))
      else Inr (nd_TopicConfig cfg))"

section \<open>The node\<close>

text \<open>
  \<^verbatim>\<open>NewTopicNode\<close>: the node or the error, the listeners closed again and the hook calls. On
  failure the new manager is shut down and dropped; it has no service then, and its only topic
  has no subscribers.
\<close>

definition NewTopicNode :: "(string \<Rightarrow> TopologyConfig result) \<Rightarrow> (string \<Rightarrow> nat result) \<Rightarrow> (nat \<Rightarrow> go_error option) \<Rightarrow>
    gocontext option \<Rightarrow> TopicNodeConfig \<Rightarrow> (TopicNode result \<times> nat list \<times> hook_call list) option" where
  "NewTopicNode parseTopology listen closeListener ctx cfg =
     (case ctx of
        None \<Rightarrow> Some (Inl (ErrorNew ''context is nil''), [], [])
      | Some c \<Rightarrow>
          (case nodeTopicConfig parseTopology cfg of
             Inl err \<Rightarrow> Some (Inl err, [], [])
           | Inr topicCfg \<Rightarrow>
               (case RegisterTopic (nd_Topic cfg) topicCfg (NewManager (nd_ManagerConfig cfg)) of
                  (Some err, m) \<Rightarrow> Some (Inl err, [], [])
                | (None, m) \<Rightarrow>
                    if topicNodeNetworkConfigured topicCfg (nd_NodeToNode cfg)
                    then (case StartNodeToNode listen closeListener ctx 0 (nd_Topic cfg) (nd_NodeToNode cfg) m of
                            None \<Rightarrow> None
                          | Some (Inl err, closed, calls, m') \<Rightarrow> Some (Inl err, closed, calls)
                          | Some (Inr service, closed, calls, m') \<Rightarrow>
                              Some (Inr \<lparr>tn_topic = nd_Topic cfg, tn_manager = m', tn_service = Some service\<rparr>, closed, calls))
                    else Some (Inr \<lparr>tn_topic = nd_Topic cfg, tn_manager = m, tn_service = None\<rparr>, [], []))))"

abbreviation errTopicNodeNil :: go_error where
  "errTopicNodeNil \<equiv> ErrorNew ''dmq topic node is nil''"

text \<open>The delegating methods; a nil node is \<open>None\<close>.\<close>

definition NodeTopic :: "TopicNode option \<Rightarrow> string" where
  "NodeTopic n = (case n of None \<Rightarrow> [] | Some nd \<Rightarrow> tn_topic nd)"

definition onNode :: "(go_error \<Rightarrow> 'a) \<Rightarrow> (string \<Rightarrow> Manager \<Rightarrow> ('a \<times> hook_call list \<times> Manager) option) \<Rightarrow> TopicNode option \<Rightarrow>
    ('a \<times> hook_call list \<times> TopicNode option) option" where
  "onNode fail op n =
     (case n of
        None \<Rightarrow> Some (fail errTopicNodeNil, [], None)
      | Some nd \<Rightarrow> map_option (\<lambda>(r, calls, m). (r, calls, Some (nd\<lparr>tn_manager := m\<rparr>))) (op (tn_topic nd) (tn_manager nd)))"

definition NodePublish :: "gouroboros \<Rightarrow> gotime \<Rightarrow> gotime \<Rightarrow> gotime \<Rightarrow> gocontext \<Rightarrow> bytes \<Rightarrow> TopicNode option \<Rightarrow>
    (DmqMessage option result \<times> hook_call list \<times> TopicNode option) option" where
  "NodePublish g now0 now1 now2 ctx body = onNode Inl (\<lambda>topic. Publish g now0 now1 now2 ctx topic body)"

definition NodeSubmitSigned :: "gouroboros \<Rightarrow> gotime \<Rightarrow> gotime \<Rightarrow> DmqMessage option \<Rightarrow> TopicNode option \<Rightarrow>
    (go_error option \<times> hook_call list \<times> TopicNode option) option" where
  "NodeSubmitSigned g now1 now2 msg = onNode Some (\<lambda>topic. SubmitSigned g now1 now2 topic msg)"

definition NodeSubscribe :: "TopicNode option \<Rightarrow> (Subscription result \<times> hook_call list \<times> TopicNode option) option" where
  "NodeSubscribe = onNode Inl Subscribe"

definition NodeListenAddr :: "TopicNode option \<Rightarrow> nat option" where
  "NodeListenAddr n = (case n of None \<Rightarrow> None
     | Some nd \<Rightarrow> (case tn_service nd of None \<Rightarrow> None | Some s \<Rightarrow> ListenAddr s))"

definition NodePeerCount :: "TopicNode option \<Rightarrow> nat" where
  "NodePeerCount n = (case n of None \<Rightarrow> 0
     | Some nd \<Rightarrow> (case tn_service nd of None \<Rightarrow> 0 | Some s \<Rightarrow> PeerCount s))"

definition NodeShutdown :: "(nat \<Rightarrow> go_error option) \<Rightarrow> gocontext option \<Rightarrow> bool \<Rightarrow> TopicNode option \<Rightarrow>
    (go_error option \<times> TopicNode option) option" where
  "NodeShutdown closeListener ctx doneFirst n =
     (case n of
        None \<Rightarrow> Some (None, None)
      | Some nd \<Rightarrow>
          (case ctx of
             None \<Rightarrow> Some (Some (ErrorNew ''context is nil''), n)
           | Some c \<Rightarrow>
               map_option (\<lambda>(err, w). (err, Some (nd\<lparr>tn_manager := nw_mgr w, tn_service := map_of (nw_services w) 0\<rparr>)))
                 (Shutdown closeListener c doneFirst
                    \<lparr>nw_mgr = tn_manager nd, nw_services = (case tn_service nd of None \<Rightarrow> [] | Some s \<Rightarrow> [(0, s)])\<rparr>)))"

definition NodeManager :: "TopicNode option \<Rightarrow> Manager option" where
  "NodeManager n = (case n of None \<Rightarrow> None | Some nd \<Rightarrow> Some (tn_manager nd))"

definition NodeService :: "TopicNode option \<Rightarrow> NodeToNodeService option" where
  "NodeService n = (case n of None \<Rightarrow> None | Some nd \<Rightarrow> tn_service nd)"

text \<open>\<^verbatim>\<open>Close\<close> shuts down under the background context, which is never done.\<close>

definition NodeClose :: "(nat \<Rightarrow> go_error option) \<Rightarrow> TopicNode option \<Rightarrow> (go_error option \<times> TopicNode option) option" where
  "NodeClose closeListener n = NodeShutdown closeListener (Some \<lparr>ctx_id = 0, ctx_Err = None\<rparr>) True n"

section \<open>Properties\<close>

lemma RegisterTopic_fresh:
  assumes "RegisterTopic n c (NewManager mc) = (None, m)"
  shows "n \<noteq> []" "mg_services m = []" "\<not> mg_closed m"
    "\<exists>rt. map_of (mg_topics m) = [n \<mapsto> rt] \<and> rt = newTopicRuntime n (fillTopicConfig (NewManager mc) c)"
  using assms by (auto simp: RegisterTopic_def NewManager_def Let_def split: if_splits)

lemma networked_node:
  assumes "StartNodeToNode listen cl (Some c) 0 n cfg m = Some (r, closed, calls, m')"
    and "map_of (mg_topics m) = [n \<mapsto> rt]" "mg_services m = []" "\<not> mg_closed m"
  shows "(case r of Inr s \<Rightarrow> networkable (tr_cfg rt) \<and> \<not> ns_closed s \<and> 0 \<in> set (mg_services m') \<and> closed = []
        \<and> dom (map_of (mg_topics m')) = {n} \<and> \<not> mg_closed m'
    | Inl err \<Rightarrow> closed = [] \<or> (\<exists>l. listen (nc_ListenAddress cfg) = Inr l \<and> closed = [l]))"
proof (cases "networkable (tr_cfg rt)")
  case True
  have "topicOf m n = Inr rt" using assms(2,4) by (simp add: topicOf_def)
  then show ?thesis
    using StartNodeToNode_spec [OF _ assms(1)] assms(2-4) True
    by (auto simp: listening_def newNodeToNodeService_def split: sum.splits if_splits option.splits)
next
  case False
  then have "\<exists>err. r = Inl err \<and> closed = []"
    using assms by (auto simp: StartNodeToNode_def topicOf_def networkable_def split: if_splits)
  then show ?thesis by auto
qed


definition ex_node_cfg :: TopicNodeConfig where
  "ex_node_cfg = \<lparr>nd_Topic = ''a'', nd_ManagerConfig = \<lparr>mc_Signer = None, mc_Authenticator = None\<rparr>,
     nd_TopicConfig = ex_topic_config\<lparr>tc_Authentication :=
       \<lparr>ac_Required = False, ac_Authenticator = None, ac_AllowUnauthenticated = True\<rparr>\<rparr>,
     nd_TopologyFile = [], nd_StaticPeers = [], nd_NodeToNode = ex_node_config\<rparr>"

definition ex_node :: "(TopicNode result \<times> nat list \<times> hook_call list) option" where
  "ex_node = NewTopicNode (\<lambda>_. Inl (ErrorNew ''none'')) (\<lambda>_. Inr 7) (\<lambda>_. None) (Some \<lparr>ctx_id = 0, ctx_Err = None\<rparr>) ex_node_cfg"


text \<open>
  Merging the node's topology file and static peers into the topic's discovery settings
  keeps every other setting; a topology file replaces the configured topology, the static peers
  are appended after the configured ones, and those without a source are marked static. A
  topology that cannot be parsed is the only error.
\<close>

theorem nodeTopicConfig_merges:
  "(case nodeTopicConfig parseTopology cfg of
      Inl err \<Rightarrow> nd_TopologyFile cfg \<noteq> [] \<and> parseTopology (nd_TopologyFile cfg) = Inl err
    | Inr c \<Rightarrow>
        c = (nd_TopicConfig cfg)\<lparr>tc_Discovery := (tc_Discovery (nd_TopicConfig cfg))
              \<lparr>dc_Topology := (if nd_TopologyFile cfg = [] then dc_Topology (tc_Discovery (nd_TopicConfig cfg))
                 else Some (projr (parseTopology (nd_TopologyFile cfg)))),
               dc_StaticPeers := dc_StaticPeers (tc_Discovery (nd_TopicConfig cfg))
                 @ map (\<lambda>p. if p_Source p = [] then p\<lparr>p_Source := PeerSourceStatic\<rparr> else p) (nd_StaticPeers cfg)\<rparr>\<rparr>)"
  by (auto simp: nodeTopicConfig_def NewDiscoveryConfig_def mergeDiscoveryConfig_def zero_DiscoveryConfig_def Let_def
      clonePeers_def split: sum.splits)

end
