(* ===== verification/Go_Encoding.thy ===== *)
theory Go_Encoding
  imports Peer_Discovery
begin

text \<open>
  The standard library's text and byte codecs the signing code uses: \<^verbatim>\<open>strings.TrimSpace\<close>,
  \<^verbatim>\<open>encoding/hex\<close>, \<^verbatim>\<open>base64.StdEncoding\<close> and \<^verbatim>\<open>binary.BigEndian.PutUint64\<close>. A Go string is a
  list of bytes, written as \<open>char\<close>s.
\<close>

unbundle bit_operations_syntax

section \<open>strings.TrimSpace\<close>

text \<open>The UTF-8 encodings of the runes \<^verbatim>\<open>unicode.IsSpace\<close> accepts.\<close>

definition space_encodings :: "string list" where
  "space_encodings =
     [[CHR 0x09], [CHR 0x0A], [CHR 0x0B], [CHR 0x0C], [CHR 0x0D], [CHR 0x20], [CHR 0xC2, CHR 0x85],
      [CHR 0xC2, CHR 0xA0], [CHR 0xE1, CHR 0x9A, CHR 0x80], [CHR 0xE2, CHR 0x80, CHR 0x80],
      [CHR 0xE2, CHR 0x80, CHR 0x81], [CHR 0xE2, CHR 0x80, CHR 0x82], [CHR 0xE2, CHR 0x80, CHR 0x83],
      [CHR 0xE2, CHR 0x80, CHR 0x84], [CHR 0xE2, CHR 0x80, CHR 0x85], [CHR 0xE2, CHR 0x80, CHR 0x86],
      [CHR 0xE2, CHR 0x80, CHR 0x87], [CHR 0xE2, CHR 0x80, CHR 0x88], [CHR 0xE2, CHR 0x80, CHR 0x89],
      [CHR 0xE2, CHR 0x80, CHR 0x8A], [CHR 0xE2, CHR 0x80, CHR 0xA8], [CHR 0xE2, CHR 0x80, CHR 0xA9],
      [CHR 0xE2, CHR 0x80, CHR 0xAF], [CHR 0xE2, CHR 0x81, CHR 0x9F], [CHR 0xE3, CHR 0x80, CHR 0x80]]"

lemma is_prefix_of_iff: "is_prefix_of e s \<longleftrightarrow> (\<exists>t. s = e @ t)"
  by (induction e s rule: is_prefix_of.induct) auto

function trim_prefixes :: "string list \<Rightarrow> string \<Rightarrow> string" where
  "trim_prefixes encs s =
     (case find (\<lambda>e. e \<noteq> [] \<and> is_prefix_of e s) encs of
        None \<Rightarrow> s
      | Some e \<Rightarrow> trim_prefixes encs (drop (length e) s))"
  by pat_completeness auto

termination
  by (relation "measure (\<lambda>(encs, s). length s)") (auto simp: find_Some_iff is_prefix_of_iff)

declare trim_prefixes.simps [simp del]

definition strings_TrimSpace :: "string \<Rightarrow> string" where
  "strings_TrimSpace s =
     rev (trim_prefixes (map rev space_encodings) (rev (trim_prefixes space_encodings s)))"

section \<open>encoding/hex\<close>

definition fromHexChar :: "char \<Rightarrow> nat option" where
  "fromHexChar c =
     (let n = of_char c in
      if 48 \<le> n \<and> n \<le> 57 then Some (n - 48)
      else if 97 \<le> n \<and> n \<le> 102 then Some (n - 87)
      else if 65 \<le> n \<and> n \<le> 70 then Some (n - 55)
      else None)"

definition invalid_hex :: "char \<Rightarrow> go_error" where
  "invalid_hex c = Errorf ''encoding/hex: invalid byte: %#U'' [StrArg [c]]"

fun hex_DecodeString :: "string \<Rightarrow> bytes result" where
  "hex_DecodeString [] = Inr []"
| "hex_DecodeString [c] =
     (case fromHexChar c of None \<Rightarrow> Inl (invalid_hex c)
      | Some _ \<Rightarrow> Inl (ErrorNew ''encoding/hex: odd length hex string''))"
| "hex_DecodeString (c # d # s) =
     (case fromHexChar c of None \<Rightarrow> Inl (invalid_hex c)
      | Some a \<Rightarrow> (case fromHexChar d of None \<Rightarrow> Inl (invalid_hex d)
          | Some b \<Rightarrow> map_sum id (\<lambda>bs. word_of_nat (16 * a + b) # bs) (hex_DecodeString s)))"

definition hex_EncodeToString :: "bytes \<Rightarrow> string" where
  "hex_EncodeToString b = concat (map hex_byte b)"

section \<open>base64.StdEncoding\<close>

definition base64_alphabet :: string where
  "base64_alphabet = ''ABCDEFGHIJKLMNOPQRSTUVWXYZabcdefghijklmnopqrstuvwxyz0123456789+/''"

definition base64_value :: "char \<Rightarrow> nat option" where
  "base64_value c =
     (let n = of_char c in
      if 65 \<le> n \<and> n \<le> 90 then Some (n - 65)
      else if 97 \<le> n \<and> n \<le> 122 then Some (n - 71)
      else if 48 \<le> n \<and> n \<le> 57 then Some (n + 4)
      else if n = 43 then Some 62 else if n = 47 then Some 63 else None)"

definition b64_first :: "nat \<Rightarrow> nat \<Rightarrow> byte" where
  "b64_first x y = word_of_nat (4 * x + y div 16)"
definition b64_second :: "nat \<Rightarrow> nat \<Rightarrow> byte" where
  "b64_second y z = word_of_nat (16 * (y mod 16) + z div 4)"
definition b64_third :: "nat \<Rightarrow> nat \<Rightarrow> byte" where
  "b64_third z w = word_of_nat (64 * (z mod 4) + w)"

text \<open>
  Groups of four characters; \<^verbatim>\<open>=\<close> pads the last group only, and the unused low bits of a padded
  group are ignored, as the encoding is not strict.
\<close>

fun base64_quanta :: "string \<Rightarrow> bytes option" where
  "base64_quanta [] = Some []"
| "base64_quanta (a # b # c # d # s) =
     (case (base64_value a, base64_value b) of
        (Some x, Some y) \<Rightarrow>
          if c = CHR ''='' then (if d = CHR ''='' \<and> s = [] then Some [b64_first x y] else None)
          else (case base64_value c of None \<Rightarrow> None | Some z \<Rightarrow>
            if d = CHR ''='' then (if s = [] then Some [b64_first x y, b64_second y z] else None)
            else (case base64_value d of None \<Rightarrow> None | Some w \<Rightarrow>
              map_option (\<lambda>bs. b64_first x y # b64_second y z # b64_third z w # bs) (base64_quanta s)))
      | _ \<Rightarrow> None)"
| "base64_quanta s = None"

text \<open>Line breaks are skipped. The error's text also gives an offset, which is left out.\<close>

definition base64_DecodeString :: "string \<Rightarrow> bytes result" where
  "base64_DecodeString s =
     (case base64_quanta (filter (\<lambda>c. c \<noteq> CHR 0x0A \<and> c \<noteq> CHR 0x0D) s) of
        None \<Rightarrow> Inl (ErrorNew ''illegal base64 data'')
      | Some b \<Rightarrow> Inr b)"

section \<open>binary.BigEndian.PutUint64\<close>

definition binary_PutUint64 :: "u64 \<Rightarrow> bytes" where
  "binary_PutUint64 v =
     [ucast (drop_bit 56 v), ucast (drop_bit 48 v), ucast (drop_bit 40 v), ucast (drop_bit 32 v),
      ucast (drop_bit 24 v), ucast (drop_bit 16 v), ucast (drop_bit 8 v), ucast v]"

section \<open>Correctness of the codecs\<close>

subsection \<open>Trimming\<close>

definition printable :: "char \<Rightarrow> bool" where
  "printable c = (32 < (of_char c :: nat) \<and> (of_char c :: nat) < 127)"

text \<open>No rune of the code is the beginning of another.\<close>

definition prefix_free :: "string list \<Rightarrow> bool" where
  "prefix_free encs = list_all (\<lambda>e. list_all (\<lambda>e'. is_prefix_of e e' \<longrightarrow> e = e') encs) encs"

lemma prefix_freeD: "prefix_free encs \<Longrightarrow> e \<in> set encs \<Longrightarrow> e' \<in> set encs \<Longrightarrow> is_prefix_of e e' \<Longrightarrow> e = e'"
  by (auto simp: prefix_free_def list_all_iff)

lemma is_prefix_of_comparable: "is_prefix_of e s \<Longrightarrow> is_prefix_of e' s \<Longrightarrow> is_prefix_of e e' \<or> is_prefix_of e' e"
  by (auto simp: is_prefix_of_iff append_eq_append_conv2)

lemma trim_prefixes_step:
  assumes "prefix_free encs" "e \<in> set encs" "e \<noteq> []"
  shows "trim_prefixes encs (e @ s) = trim_prefixes encs s"
proof -
  have "e' = e" if "e' \<in> set encs" "is_prefix_of e' (e @ s)" for e'
    using is_prefix_of_comparable [OF that(2), of e] prefix_freeD [OF assms(1)] assms(2) that(1)
    by (auto simp: is_prefix_of_iff)
  moreover obtain e' where "find (\<lambda>e'. e' \<noteq> [] \<and> is_prefix_of e' (e @ s)) encs = Some e'"
    using assms(2,3) by (cases "find (\<lambda>e'. e' \<noteq> [] \<and> is_prefix_of e' (e @ s)) encs")
      (auto simp: find_None_iff is_prefix_of_iff)
  ultimately have "find (\<lambda>e'. e' \<noteq> [] \<and> is_prefix_of e' (e @ s)) encs = Some e"
    by (metis find_Some_iff nth_mem)
  then show ?thesis by (subst trim_prefixes.simps) simp
qed

lemma trim_prefixes_concat:
  assumes "prefix_free encs" "[] \<notin> set encs" "set es \<subseteq> set encs"
  shows "trim_prefixes encs (concat es @ s) = trim_prefixes encs s"
  using assms(3)
proof (induction es)
  case (Cons e es)
  then have "e \<in> set encs" "e \<noteq> []" using assms(2) by auto
  then show ?case using Cons trim_prefixes_step [OF assms(1)] by simp
qed simp

lemma trim_prefixes_fixed:
  assumes "s \<noteq> []" "\<And>e. e \<in> set encs \<Longrightarrow> e \<noteq> [] \<and> hd e \<noteq> hd s"
  shows "trim_prefixes encs s = s"
proof -
  have "find (\<lambda>e. e \<noteq> [] \<and> is_prefix_of e s) encs = None"
    using assms(2) by (fastforce simp: find_None_iff is_prefix_of_iff)
  then show ?thesis by (subst trim_prefixes.simps) simp
qed

lemma space_encodings_free:
  "prefix_free space_encodings" "prefix_free (map rev space_encodings)"
  by (simp_all add: prefix_free_def space_encodings_def)

lemma space_encodings_nonempty: "[] \<notin> set space_encodings" "[] \<notin> set (map rev space_encodings)"
  by (auto simp: space_encodings_def)

lemma space_encodings_not_printable:
  "list_all (\<lambda>e. e \<noteq> [] \<and> \<not> printable (hd e)) space_encodings"
  "list_all (\<lambda>e. e \<noteq> [] \<and> \<not> printable (hd e)) (map rev space_encodings)"
  by (simp_all add: space_encodings_def printable_def)

lemma strings_TrimSpace_padded:
  assumes "set es \<subseteq> set space_encodings" "set es' \<subseteq> set space_encodings"
    and "s \<noteq> []" "printable (hd s)" "printable (last s)"
  shows "strings_TrimSpace (concat es @ s @ concat es') = s"
proof -
  have "trim_prefixes space_encodings (s @ concat es') = s @ concat es'"
    using assms(3,4) space_encodings_not_printable(1) by (intro trim_prefixes_fixed) (auto simp: list_all_iff)
  moreover have "rev (s @ concat es') = concat (rev (map rev es')) @ rev s"
    by (simp add: rev_concat rev_map)
  moreover have "set (rev (map rev es')) \<subseteq> set (map rev space_encodings)" using assms(2) by auto
  moreover have "trim_prefixes (map rev space_encodings) (rev s) = rev s"
    using assms(3,5) space_encodings_not_printable(2)
    by (intro trim_prefixes_fixed) (auto simp: list_all_iff hd_rev)
  ultimately show ?thesis
    using trim_prefixes_concat [OF space_encodings_free(1) space_encodings_nonempty(1) assms(1)]
      trim_prefixes_concat [OF space_encodings_free(2) space_encodings_nonempty(2)]
    unfolding strings_TrimSpace_def by (metis rev_rev_ident)
qed

lemma trim_prefixes_first:
  "trim_prefixes encs s = t \<Longrightarrow> e \<in> set encs \<Longrightarrow> e \<noteq> [] \<Longrightarrow> \<not> is_prefix_of e t"
proof (induction encs s arbitrary: t rule: trim_prefixes.induct)
  case (1 encs s)
  show ?case
  proof (cases "find (\<lambda>e. e \<noteq> [] \<and> is_prefix_of e s) encs")
    case None
    moreover have "trim_prefixes encs s = s" using None by (subst trim_prefixes.simps) simp
    ultimately show ?thesis using 1 by (auto simp: find_None_iff)
  next
    case (Some e')
    moreover have "trim_prefixes encs s = trim_prefixes encs (drop (length e') s)"
      using Some by (subst trim_prefixes.simps) simp
    ultimately show ?thesis using 1 by auto
  qed
qed

subsection \<open>Hexadecimal\<close>

lemma hex_DecodeString_empty: "hex_DecodeString s = Inr b \<Longrightarrow> b = [] \<longleftrightarrow> s = []"
  by (cases s rule: hex_DecodeString.cases) (auto split: option.splits simp: map_sum_def split: sum.splits)

lemma fromHexChar_hex_digit: "n < 16 \<Longrightarrow> fromHexChar (hex_digit n) = Some n"
  by (auto simp: fromHexChar_def hex_digit_def Let_def)

lemma printable_hex_digit: "n < 16 \<Longrightarrow> printable (hex_digit n)"
  by (auto simp: printable_def hex_digit_def)

lemma byte_nibbles: "unat (b :: byte) div 16 < 16" "16 * (unat b div 16) + unat b mod 16 = unat b"
  using unsigned_less [of b, where 'a = nat] by simp_all

lemma hex_roundtrip: "hex_DecodeString (hex_EncodeToString b) = Inr b"
  using byte_nibbles by (induction b) (simp_all add: hex_EncodeToString_def hex_byte_def fromHexChar_hex_digit)

lemma hex_EncodeToString_printable: "c \<in> set (hex_EncodeToString b) \<Longrightarrow> printable c"
  using byte_nibbles by (auto simp: hex_EncodeToString_def hex_byte_def printable_hex_digit)

lemma hex_EncodeToString_empty [simp]: "hex_EncodeToString b = [] \<longleftrightarrow> b = []"
  by (cases b) (simp_all add: hex_EncodeToString_def hex_byte_def)

lemma length_hex_EncodeToString [simp]: "length (hex_EncodeToString b) = 2 * length b"
  by (induction b) (simp_all add: hex_EncodeToString_def hex_byte_def)

subsection \<open>Big-endian words\<close>

lemma binary_PutUint64_nth:
  assumes "k < 8"
  shows "binary_PutUint64 v ! (7 - k) = ucast (drop_bit (8 * k) v)"
proof -
  have "k \<in> {0, 1, 2, 3, 4, 5, 6, 7}" using assms by auto
  then show ?thesis by (elim insertE) (simp_all add: binary_PutUint64_def)
qed

lemma binary_PutUint64_bit:
  assumes "n < 64"
  shows "bit v n = bit (binary_PutUint64 v ! (7 - n div 8)) (n mod 8)"
  using assms by (simp add: binary_PutUint64_nth bit_simps)

lemma binary_PutUint64_inject: "binary_PutUint64 v = binary_PutUint64 w \<longleftrightarrow> v = w"
proof
  assume "binary_PutUint64 v = binary_PutUint64 w"
  then show "v = w" using binary_PutUint64_bit [of _ v] binary_PutUint64_bit [of _ w]
    by (intro bit_word_eqI) simp
qed simp

lemma length_binary_PutUint64 [simp]: "length (binary_PutUint64 v) = 8"
  by (simp add: binary_PutUint64_def)

subsection \<open>Base64\<close>

text \<open>The encoder that \<^verbatim>\<open>RFC 4648\<close> prescribes, as the reference the decoder is measured against.\<close>

definition base64_char :: "nat \<Rightarrow> char" where
  "base64_char n =
     (if n < 26 then char_of (65 + n) else if n < 52 then char_of (71 + n)
      else if n < 62 then char_of (n - 4) else if n = 62 then CHR ''+'' else CHR ''/'')"

fun base64_encode :: "bytes \<Rightarrow> string" where
  "base64_encode [] = []"
| "base64_encode [p] = [base64_char (unat p div 4), base64_char (16 * (unat p mod 4)), CHR ''='', CHR ''='']"
| "base64_encode [p, q] =
     [base64_char (unat p div 4), base64_char (16 * (unat p mod 4) + unat q div 16),
      base64_char (4 * (unat q mod 16)), CHR ''='']"
| "base64_encode (p # q # r # s) =
     base64_char (unat p div 4) # base64_char (16 * (unat p mod 4) + unat q div 16)
     # base64_char (4 * (unat q mod 16) + unat r div 64) # base64_char (unat r mod 64) # base64_encode s"

lemma of_char_char_of: "n < 256 \<Longrightarrow> of_char (char_of n :: char) = (n :: nat)"
  by simp

lemma base64_char_code:
  assumes "n < 64"
  shows "base64_value (base64_char n) = Some n" "base64_char n \<noteq> CHR ''=''"
    "base64_char n \<noteq> CHR 0x0A" "base64_char n \<noteq> CHR 0x0D" "printable (base64_char n)"
proof -
  have c: "of_char (base64_char n) = (if n < 26 then 65 + n else if n < 52 then 71 + n
      else if n < 62 then n - 4 else if n = 62 then 43 else 47 :: nat)"
    using assms by (simp add: base64_char_def)
  then show "base64_value (base64_char n) = Some n" using assms by (auto simp: base64_value_def Let_def)
  have ne: "base64_char n \<noteq> d" if "of_char d \<in> {10, 13, 61 :: nat}" for d
    using c that by (auto split: if_splits)
  show "base64_char n \<noteq> CHR ''=''" "base64_char n \<noteq> CHR 0x0A" "base64_char n \<noteq> CHR 0x0D"
    by (rule ne; simp)+
  show "printable (base64_char n)" using assms c by (auto simp: printable_def)
qed

lemma byte_b64:
  fixes p q r :: byte
  shows "unat p div 4 < 64" "16 * (unat p mod 4) + unat q div 16 < 64" "4 * (unat q mod 16) + unat r div 64 < 64"
    "16 * (unat p mod 4) < 64" "4 * (unat q mod 16) < 64" "unat r mod 64 < 64"
  using unsigned_less [of p, where 'a = nat] unsigned_less [of q, where 'a = nat]
    unsigned_less [of r, where 'a = nat] by simp_all

lemma byte_b64_decode:
  fixes p q r :: byte
  shows "b64_first (unat p div 4) (16 * (unat p mod 4) + unat q div 16) = p"
    "b64_first (unat p div 4) (16 * (unat p mod 4)) = p"
    "b64_second (16 * (unat p mod 4) + unat q div 16) (4 * (unat q mod 16) + unat r div 64) = q"
    "b64_second (16 * (unat p mod 4) + unat q div 16) (4 * (unat q mod 16)) = q"
    "b64_third (4 * (unat q mod 16) + unat r div 64) (unat r mod 64) = r"
proof -
  have u: "unat p < 256" "unat q < 256" "unat r < 256"
    using unsigned_less [of p, where 'a = nat] unsigned_less [of q, where 'a = nat]
      unsigned_less [of r, where 'a = nat] by simp_all
  have d: "unat q div 16 < 16" "unat r div 64 < 4" using u by simp_all
  have w: "word_of_nat m = x" if "m = unat x" for m and x :: byte using that by simp
  show "b64_first (unat p div 4) (16 * (unat p mod 4) + unat q div 16) = p"
    "b64_first (unat p div 4) (16 * (unat p mod 4)) = p" using d unfolding b64_first_def by (intro w; simp)+
  show "b64_second (16 * (unat p mod 4) + unat q div 16) (4 * (unat q mod 16) + unat r div 64) = q"
    "b64_second (16 * (unat p mod 4) + unat q div 16) (4 * (unat q mod 16)) = q"
    using d unfolding b64_second_def by (intro w; simp)+
  show "b64_third (4 * (unat q mod 16) + unat r div 64) (unat r mod 64) = r" using d unfolding b64_third_def by (intro w) simp
qed

lemma base64_quanta_encode: "base64_quanta (base64_encode b) = Some b"
  by (induction b rule: base64_encode.induct) (simp_all add: base64_char_code byte_b64 byte_b64_decode)

lemma base64_encode_chars: "c \<in> set (base64_encode b) \<Longrightarrow> printable c \<and> c \<noteq> CHR 0x0A \<and> c \<noteq> CHR 0x0D"
proof (induction b rule: base64_encode.induct)
  case (2 p)
  then show ?case using base64_char_code byte_b64 by (auto simp: printable_def)
next
  case (3 p q)
  then show ?case using base64_char_code byte_b64 by (auto simp: printable_def)
next
  case (4 p q r s)
  then show ?case using base64_char_code byte_b64 by (auto simp: printable_def)
qed simp

lemma base64_roundtrip: "base64_DecodeString (base64_encode b) = Inr b"
proof -
  have "filter (\<lambda>c. c \<noteq> CHR 0x0A \<and> c \<noteq> CHR 0x0D) (base64_encode b) = base64_encode b"
    by (rule filter_True) (use base64_encode_chars in blast)
  then show ?thesis by (simp add: base64_DecodeString_def base64_quanta_encode)
qed

lemma base64_encode_empty [simp]: "base64_encode b = [] \<longleftrightarrow> b = []"
  by (cases b rule: base64_encode.cases) simp_all

lemma base64_quanta_empty: "base64_quanta s = Some b \<Longrightarrow> b = [] \<longleftrightarrow> s = []"
  by (cases s rule: base64_quanta.cases) (auto split: option.splits if_splits)

end
