(* ===== verification/Cardano_Time.thy ===== *)
theory Cardano_Time
  imports Go_Errors
begin

text \<open>
  \<^verbatim>\<open>cardano.go\<close>: slots, epochs and KES periods from the wall clock. File access, JSON decoding,
  RFC 3339 parsing and the two operations on a \<^verbatim>\<open>float64\<close> (kept as its 64 bits) are parameters.
\<close>

unbundle bit_operations_syntax

section \<open>Network parameters\<close>

abbreviation CardanoSlotsPerKESPeriod :: u64 where
  "CardanoSlotsPerKESPeriod \<equiv> 129600"
abbreviation CardanoMainnetShelleyStartSlot :: u64 where
  "CardanoMainnetShelleyStartSlot \<equiv> 4492800"
abbreviation CardanoPreprodShelleyStartSlot :: u64 where
  "CardanoPreprodShelleyStartSlot \<equiv> 86400"

text \<open>Days from the epoch to a proleptic Gregorian date, as \<^verbatim>\<open>time.Date\<close> counts them.\<close>

definition days_from_civil :: "int \<Rightarrow> int \<Rightarrow> int \<Rightarrow> int" where
  "days_from_civil year month day =
     (let y = (if month \<le> 2 then year - 1 else year);
          doy = (153 * ((month + 9) mod 12) + 2) div 5 + day - 1
      in 365 * y + y div 4 - y div 100 + y div 400 + doy - 719468)"

definition time_Date :: "int \<Rightarrow> int \<Rightarrow> int \<Rightarrow> int \<Rightarrow> int \<Rightarrow> int \<Rightarrow> gotime" where
  "time_Date year month day hour mn sec =
     (days_from_civil year month day * 86400 + hour * 3600 + mn * 60 + sec) * Second"

definition cardanoMainnetShelleyStart :: gotime where
  "cardanoMainnetShelleyStart = time_Date 2020 7 29 21 44 51"

definition cardanoPreprodShelleyStart :: gotime where
  "cardanoPreprodShelleyStart = time_Date 2022 6 21 0 0 0"

text \<open>The zero \<^verbatim>\<open>time.Time\<close>.\<close>

definition zeroTime :: gotime where
  "zeroTime = time_Date 1 1 1 0 0 0"

record NetworkParams =
  np_Start :: gotime
  np_AbsoluteStartSlot :: u64
  np_SlotLength :: duration
  np_EpochLength :: u64
  np_SlotsPerKESPeriod :: u64
  np_MaxKESEvolutions :: u64

definition NetworkParamsForMagic :: "u32 \<Rightarrow> NetworkParams result" where
  "NetworkParamsForMagic magic =
     (if magic = 764824073 then
        Inr \<lparr>np_Start = cardanoMainnetShelleyStart, np_AbsoluteStartSlot = CardanoMainnetShelleyStartSlot,
          np_SlotLength = Second, np_EpochLength = 432000, np_SlotsPerKESPeriod = CardanoSlotsPerKESPeriod,
          np_MaxKESEvolutions = 62\<rparr>
      else if magic = 1 then
        Inr \<lparr>np_Start = cardanoPreprodShelleyStart, np_AbsoluteStartSlot = CardanoPreprodShelleyStartSlot,
          np_SlotLength = Second, np_EpochLength = 432000, np_SlotsPerKESPeriod = CardanoSlotsPerKESPeriod,
          np_MaxKESEvolutions = 62\<rparr>
      else if magic = 2 then
        Inr \<lparr>np_Start = time_Date 2022 10 25 0 0 0, np_AbsoluteStartSlot = 0,
          np_SlotLength = Second, np_EpochLength = 86400, np_SlotsPerKESPeriod = CardanoSlotsPerKESPeriod,
          np_MaxKESEvolutions = 62\<rparr>
      else Inl (Errorf ''unknown network magic %d (mainnet=764824073, preprod=1, preview=2)'' [IntArg (uint magic)]))"

section \<open>Genesis files\<close>

record ShelleyGenesis =
  sg_SystemStart :: string
  sg_SlotLength :: "u64 option"
  sg_EpochLength :: u64
  sg_SlotsPerKESPeriod :: u64
  sg_MaxKESEvolutions :: u64
  sg_NetworkMagic :: u32
  sg_AbsoluteStartSlot :: "u64 option"

record genesis_io =
  io_ReadFile :: "string \<Rightarrow> bytes result"
  io_Unmarshal :: "bytes \<Rightarrow> ShelleyGenesis result"
  io_ParseRFC3339 :: "string \<Rightarrow> gotime result"
  io_floatNonPositive :: "u64 \<Rightarrow> bool"
  io_floatSeconds :: "u64 \<Rightarrow> duration"

definition genesisSlotLength :: "genesis_io \<Rightarrow> string \<Rightarrow> ShelleyGenesis \<Rightarrow> duration result" where
  "genesisSlotLength io path genesis =
     (case sg_SlotLength genesis of
        None \<Rightarrow> Inr Second
      | Some x \<Rightarrow>
          (let invalid = Inl (Errorf ''shelley genesis %q has invalid slotLength %v'' [StrArg path, IntArg (uint x)])
           in if io_floatNonPositive io x then invalid
              else if io_floatSeconds io x \<le> 0 then invalid
              else Inr (io_floatSeconds io x)))"

definition NetworkParamsFromShelleyGenesis :: "genesis_io \<Rightarrow> string \<Rightarrow> NetworkParams result" where
  "NetworkParamsFromShelleyGenesis io path =
     (case io_ReadFile io path of
        Inl err \<Rightarrow> Inl (Errorf ''read Shelley genesis %q: %w'' [StrArg path, WrapArg err])
      | Inr raw \<Rightarrow>
          (case io_Unmarshal io raw of
             Inl err \<Rightarrow> Inl (Errorf ''parse Shelley genesis %q: %w'' [StrArg path, WrapArg err])
           | Inr genesis \<Rightarrow>
               if sg_SystemStart genesis = [] then Inl (Errorf ''shelley genesis %q missing systemStart'' [StrArg path])
               else (case io_ParseRFC3339 io (sg_SystemStart genesis) of
                  Inl err \<Rightarrow> Inl (Errorf ''parse Shelley genesis systemStart %q: %w''
                    [StrArg (sg_SystemStart genesis), WrapArg err])
                | Inr start \<Rightarrow>
                    if sg_SlotsPerKESPeriod genesis = 0
                    then Inl (Errorf ''shelley genesis %q missing slotsPerKESPeriod'' [StrArg path])
                    else (case genesisSlotLength io path genesis of
                       Inl err \<Rightarrow> Inl err
                     | Inr slotLength \<Rightarrow>
                         if sg_EpochLength genesis = 0
                         then Inl (Errorf ''shelley genesis %q missing epochLength'' [StrArg path])
                         else
                           (let (start, absoluteStartSlot) =
                              (case sg_AbsoluteStartSlot genesis of
                                 Some slot \<Rightarrow> (start, slot)
                               | None \<Rightarrow> if sg_NetworkMagic genesis = 764824073
                                   then (cardanoMainnetShelleyStart, CardanoMainnetShelleyStartSlot) else (start, 0))
                            in Inr \<lparr>np_Start = start, np_AbsoluteStartSlot = absoluteStartSlot,
                                 np_SlotLength = slotLength, np_EpochLength = sg_EpochLength genesis,
                                 np_SlotsPerKESPeriod = sg_SlotsPerKESPeriod genesis,
                                 np_MaxKESEvolutions = sg_MaxKESEvolutions genesis\<rparr>)))))"

section \<open>The clock in slots, epochs and KES periods\<close>

definition slotLengthOf :: "NetworkParams \<Rightarrow> duration" where
  "slotLengthOf p = (if np_SlotLength p \<le> 0 then Second else np_SlotLength p)"

definition clockBeforeStart :: "gotime \<Rightarrow> gotime \<Rightarrow> go_error" where
  "clockBeforeStart now start = Errorf ''clock %s is before network start %s'' [TimeArg now, TimeArg start]"

definition CurrentSlotFor :: "NetworkParams \<Rightarrow> gotime \<Rightarrow> u64 result" where
  "CurrentSlotFor p now =
     (if now < np_Start p then Inl (clockBeforeStart now (np_Start p))
      else
        (let slotDuration = go_div (time_Sub now (np_Start p)) (slotLengthOf p)
         in if slotDuration < 0 then Inl (clockBeforeStart now (np_Start p))
            else Inr (word_of_int slotDuration)))"

definition currentAbsoluteSlotFor :: "NetworkParams \<Rightarrow> gotime \<Rightarrow> u64 result" where
  "currentAbsoluteSlotFor p now =
     (case CurrentSlotFor p now of
        Inl err \<Rightarrow> Inl err
      | Inr slot \<Rightarrow>
          if slot > (NOT 0) - np_AbsoluteStartSlot p
          then Inl (Errorf ''slot overflow: absolute start slot %d plus relative slot %d''
                 [IntArg (uint (np_AbsoluteStartSlot p)), IntArg (uint slot)])
          else Inr (np_AbsoluteStartSlot p + slot))"

definition CurrentKESPeriodFor :: "NetworkParams \<Rightarrow> gotime \<Rightarrow> u64 result" where
  "CurrentKESPeriodFor p now =
     (if np_SlotsPerKESPeriod p = 0 then Inl (ErrorNew ''slotsPerKESPeriod must be > 0'')
      else case currentAbsoluteSlotFor p now of
        Inl err \<Rightarrow> Inl err
      | Inr slot \<Rightarrow> Inr (slot div np_SlotsPerKESPeriod p))"

definition CurrentKESPeriod :: "u32 \<Rightarrow> gotime \<Rightarrow> u64 result" where
  "CurrentKESPeriod magic now =
     (case NetworkParamsForMagic magic of Inl err \<Rightarrow> Inl err | Inr p \<Rightarrow> CurrentKESPeriodFor p now)"

definition CurrentEpochFor :: "NetworkParams \<Rightarrow> gotime \<Rightarrow> u64 result" where
  "CurrentEpochFor p now =
     (if np_EpochLength p = 0 then Inl (ErrorNew ''epochLength must be > 0'')
      else case CurrentSlotFor p now of
        Inl err \<Rightarrow> Inl err
      | Inr slot \<Rightarrow> Inr (slot div np_EpochLength p))"

text \<open>\<^verbatim>\<open>bits.Mul64\<close>: the high and the low word of a product.\<close>

definition bits_Mul64 :: "u64 \<Rightarrow> u64 \<Rightarrow> u64 \<times> u64" where
  "bits_Mul64 x y = (word_of_int (uint x * uint y div 2 ^ 64), x * y)"

definition KESPeriodStart :: "NetworkParams \<Rightarrow> u64 \<Rightarrow> gotime" where
  "KESPeriodStart p period =
     (let (slotsHi, slots) = bits_Mul64 period (np_SlotsPerKESPeriod p)
      in if slotsHi \<noteq> 0 then zeroTime
         else if slots < np_AbsoluteStartSlot p then zeroTime
         else
           (let (nanosHi, nanos) = bits_Mul64 (slots - np_AbsoluteStartSlot p) (word_of_int (slotLengthOf p))
            in if nanosHi \<noteq> 0 \<or> nanos > 2 ^ 63 - 1 then zeroTime
               else time_Add (np_Start p) (uint nanos)))"

section \<open>Exactness\<close>

text \<open>Parameters as every constructor of them yields: positive periods, a slot length in range.\<close>

definition sane_params :: "NetworkParams \<Rightarrow> bool" where
  "sane_params p = (np_SlotsPerKESPeriod p \<noteq> 0 \<and> slotLengthOf p \<le> maxDuration)"

lemma slotLengthOf_pos: "0 < slotLengthOf p"
  by (simp add: slotLengthOf_def)

text \<open>The slot as a number: whole slots since the start.\<close>

definition slot_number :: "NetworkParams \<Rightarrow> gotime \<Rightarrow> int" where
  "slot_number p now = (now - np_Start p) div slotLengthOf p"

definition kes_number :: "NetworkParams \<Rightarrow> gotime \<Rightarrow> int" where
  "kes_number p now = (uint (np_AbsoluteStartSlot p) + slot_number p now) div uint (np_SlotsPerKESPeriod p)"

definition in_range :: "NetworkParams \<Rightarrow> gotime \<Rightarrow> bool" where
  "in_range p now = (np_Start p \<le> now \<and> now - np_Start p \<le> maxDuration
     \<and> uint (np_AbsoluteStartSlot p) + slot_number p now < 2 ^ 64)"

lemma uint_of_int_u64: "0 \<le> x \<Longrightarrow> x < 2 ^ 64 \<Longrightarrow> uint (word_of_int x :: u64) = x"
  by (simp add: uint_word_of_int)

lemma slot_number_range:
  assumes "np_Start p \<le> now" "now - np_Start p \<le> maxDuration"
  shows "0 \<le> slot_number p now" "slot_number p now < 2 ^ 63"
proof -
  have "0 \<le> now - np_Start p" using assms by simp
  then show "0 \<le> slot_number p now"
    using slotLengthOf_pos [of p] by (simp add: slot_number_def pos_imp_zdiv_nonneg_iff)
  have "slot_number p now \<le> (now - np_Start p) div 1"
    unfolding slot_number_def using slotLengthOf_pos [of p] assms(1) by (intro zdiv_mono2) simp_all
  then show "slot_number p now < 2 ^ 63" using assms(2) by (simp add: maxDuration_def)
qed

lemma CurrentSlotFor_eq:
  assumes "np_Start p \<le> now" "now - np_Start p \<le> maxDuration"
  shows "CurrentSlotFor p now = Inr (word_of_int (slot_number p now))"
proof -
  have "time_Sub now (np_Start p) = now - np_Start p"
    using assms by (intro time_Sub_exact) (simp_all add: minDuration_def)
  then have "go_div (time_Sub now (np_Start p)) (slotLengthOf p) = slot_number p now"
    using assms(1) slotLengthOf_pos [of p] by (simp add: slot_number_def go_div_nonneg)
  then show ?thesis using assms slot_number_range [OF assms] by (simp add: CurrentSlotFor_def Let_def)
qed

lemma currentAbsoluteSlotFor_eq:
  assumes "in_range p now"
  shows "\<exists>s. currentAbsoluteSlotFor p now = Inr s \<and> uint s = uint (np_AbsoluteStartSlot p) + slot_number p now"
proof -
  let ?A = "np_AbsoluteStartSlot p" and ?k = "slot_number p now"
  have r: "np_Start p \<le> now" "now - np_Start p \<le> maxDuration" "uint ?A + ?k < 2 ^ 64"
    using assms by (simp_all add: in_range_def)
  note k = slot_number_range [OF r(1,2)]
  have u: "uint (word_of_int ?k :: u64) = ?k" using k by (intro uint_of_int_u64) simp_all
  have "uint ((NOT 0) - ?A) = 2 ^ 64 - 1 - uint ?A"
  proof -
    have "(NOT 0 :: u64) = - 1" by simp
    moreover have "uint (- 1 - ?A) = 2 ^ 64 - 1 - uint ?A"
    proof -
      have "?A \<le> - 1" by simp
      then have "uint (- 1 - ?A) = uint (- 1 :: u64) - uint ?A" by (rule uint_minus_simple_alt [THEN iffD1])
      then show ?thesis by (simp add: uint_word_ariths)
    qed
    ultimately show ?thesis by simp
  qed
  then have "\<not> word_of_int ?k > (NOT 0) - ?A" using r(3) u by (simp add: word_less_def)
  moreover have "uint (?A + word_of_int ?k) = uint ?A + ?k"
    using r(3) u k(1) by (simp add: uint_word_ariths)
  ultimately show ?thesis by (simp add: currentAbsoluteSlotFor_def CurrentSlotFor_eq [OF r(1,2)])
qed

lemma CurrentKESPeriodFor_eq:
  assumes "sane_params p" "in_range p now"
  shows "\<exists>k. CurrentKESPeriodFor p now = Inr k \<and> uint k = kes_number p now"
proof -
  obtain s where "currentAbsoluteSlotFor p now = Inr s" "uint s = uint (np_AbsoluteStartSlot p) + slot_number p now"
    using currentAbsoluteSlotFor_eq [OF assms(2)] by blast
  then show ?thesis using assms(1)
    by (simp add: CurrentKESPeriodFor_def kes_number_def sane_params_def uint_div)
qed

definition period_offset :: "NetworkParams \<Rightarrow> int \<Rightarrow> int" where
  "period_offset p k = (k * uint (np_SlotsPerKESPeriod p) - uint (np_AbsoluteStartSlot p)) * slotLengthOf p"

definition start_representable :: "NetworkParams \<Rightarrow> int \<Rightarrow> bool" where
  "start_representable p k = (k * uint (np_SlotsPerKESPeriod p) < 2 ^ 64
     \<and> uint (np_AbsoluteStartSlot p) \<le> k * uint (np_SlotsPerKESPeriod p) \<and> period_offset p k \<le> maxDuration)"

lemma bits_Mul64_eq:
  "bits_Mul64 x y = (hi, lo) \<Longrightarrow> hi = 0 \<longleftrightarrow> uint x * uint y < 2 ^ 64"
  "bits_Mul64 x y = (hi, lo) \<Longrightarrow> uint x * uint y < 2 ^ 64 \<Longrightarrow> uint lo = uint x * uint y"
proof -
  assume b: "bits_Mul64 x y = (hi, lo)"
  have "uint x < 2 ^ 64" "uint y < 2 ^ 64" using uint_lt2p [of x] uint_lt2p [of y] by simp_all
  then have "uint x * uint y < 2 ^ 64 * 2 ^ 64" by (intro mult_strict_mono) simp_all
  then have "uint x * uint y div 2 ^ 64 < 2 ^ 64" by simp
  moreover have "0 \<le> uint x * uint y div 2 ^ 64" by (intro pos_imp_zdiv_nonneg_iff [THEN iffD2]) simp_all
  ultimately have "uint hi = uint x * uint y div 2 ^ 64" using b uint_of_int_u64 by (auto simp: bits_Mul64_def)
  moreover have "hi = 0 \<longleftrightarrow> uint hi = 0" by (simp add: word_uint_eq_iff)
  moreover have "0 \<le> uint x * uint y" by simp
  ultimately show "hi = 0 \<longleftrightarrow> uint x * uint y < 2 ^ 64"
    using zdiv_eq_0_iff [of "uint x * uint y" "2 ^ 64"] by auto
next
  assume "bits_Mul64 x y = (hi, lo)" "uint x * uint y < 2 ^ 64"
  then show "uint lo = uint x * uint y" by (auto simp: bits_Mul64_def uint_word_ariths)
qed

lemma KESPeriodStart_eq:
  assumes "sane_params p"
  shows "KESPeriodStart p k = (if start_representable p (uint k) then np_Start p + period_offset p (uint k) else zeroTime)"
proof -
  let ?A = "np_AbsoluteStartSlot p" and ?S = "np_SlotsPerKESPeriod p" and ?L = "slotLengthOf p"
  obtain hi lo where b: "bits_Mul64 k ?S = (hi, lo)" by (cases "bits_Mul64 k ?S")
  obtain nhi nlo where n: "bits_Mul64 (lo - ?A) (word_of_int ?L) = (nhi, nlo)"
    by (cases "bits_Mul64 (lo - ?A) (word_of_int ?L)")
  have L: "uint (word_of_int ?L :: u64) = ?L"
    using assms slotLengthOf_pos [of p] by (intro uint_of_int_u64) (simp_all add: sane_params_def maxDuration_def)
  note mul = bits_Mul64_eq [OF b] bits_Mul64_eq [OF n]
  show ?thesis
  proof (cases "uint k * uint ?S < 2 ^ 64 \<and> uint ?A \<le> uint k * uint ?S")
    case True
    then have lo: "uint lo = uint k * uint ?S" "\<not> lo < ?A" using mul(2) by (simp_all add: word_less_def)
    then have off: "uint (lo - ?A) * ?L = period_offset p (uint k)"
      using uint_minus_simple_alt [of ?A lo] by (simp add: period_offset_def not_less)
    have "nhi \<noteq> 0 \<or> nlo > 2 ^ 63 - 1 \<longleftrightarrow> \<not> period_offset p (uint k) \<le> maxDuration"
    proof (cases "period_offset p (uint k) < 2 ^ 64")
      case True
      then have "nhi = 0" "uint nlo = period_offset p (uint k)" using mul(3,4) off L by simp_all
      moreover have "uint (2 ^ 63 - 1 :: u64) = 2 ^ 63 - 1" by simp
      ultimately show ?thesis by (simp add: word_less_def maxDuration_def not_le)
    next
      case False
      then show ?thesis using mul(3) off L by (simp add: maxDuration_def)
    qed
    moreover have "uint nlo = period_offset p (uint k)" if "period_offset p (uint k) \<le> maxDuration"
      using mul(4) off L that by (simp add: maxDuration_def)
    ultimately show ?thesis
      using True b n lo mul(1) by (auto simp: KESPeriodStart_def start_representable_def Let_def time_Add_def)
  next
    case False
    then have "hi \<noteq> 0 \<or> lo < ?A" using mul(1,2) by (auto simp: word_less_def not_le)
    then show ?thesis using False b by (auto simp: KESPeriodStart_def start_representable_def Let_def)
  qed
qed

section \<open>Properties\<close>

text \<open>
  The KES period of an instant brackets it: as long as the clock is within 292 years of the
  network start and the period's bounds are representable, the period at \<open>now\<close> starts at or
  before \<open>now\<close> and the next one after it, with all arithmetic on 64-bit integers.
\<close>

theorem KES_period_brackets:
  assumes "sane_params p" "in_range p now" "CurrentKESPeriodFor p now = Inr k"
    and "start_representable p (uint k)" "start_representable p (uint k + 1)" "uint k + 1 < 2 ^ 64"
  shows "KESPeriodStart p k \<le> now \<and> now < KESPeriodStart p (k + 1)"
proof -
  let ?A = "uint (np_AbsoluteStartSlot p)" and ?S = "uint (np_SlotsPerKESPeriod p)" and ?L = "slotLengthOf p"
  let ?d = "now - np_Start p"
  have k: "uint k = kes_number p now" using CurrentKESPeriodFor_eq [OF assms(1,2)] assms(3) by auto
  have S: "0 < ?S" using assms(1) by (simp add: sane_params_def word_neq_0_conv word_less_def)
  have L: "0 < ?L" by (rule slotLengthOf_pos)
  have k1: "uint (k + 1) = uint k + 1" using assms(6) by (simp add: uint_word_ariths)
  define n where "n = slot_number p now"
  have lo: "uint k * ?S \<le> ?A + n" and hi: "?A + n < (uint k + 1) * ?S"
    using int_div_bracket [OF S] unfolding k kes_number_def n_def by simp_all
  have d: "n * ?L \<le> ?d" "?d < (n + 1) * ?L"
    using int_div_bracket [OF L] unfolding n_def slot_number_def by simp_all
  have "(uint k * ?S - ?A) * ?L \<le> n * ?L" using lo L by (intro mult_right_mono) simp_all
  moreover have "(n + 1) * ?L \<le> ((uint k + 1) * ?S - ?A) * ?L" using hi L by (intro mult_right_mono) simp_all
  ultimately show ?thesis
    using d assms(4,5) by (simp add: KESPeriodStart_eq [OF assms(1)] k1 period_offset_def)
qed

definition ex_preview :: NetworkParams where
  "ex_preview = \<lparr>np_Start = time_Date 2022 10 25 0 0 0, np_AbsoluteStartSlot = 0, np_SlotLength = Second,
     np_EpochLength = 86400, np_SlotsPerKESPeriod = CardanoSlotsPerKESPeriod, np_MaxKESEvolutions = 62\<rparr>"

lemma ex_preview_sane: "sane_params ex_preview"
  by (simp add: sane_params_def ex_preview_def slotLengthOf_def maxDuration_def)

theorem KES_period_brackets_witness:
  "CurrentKESPeriod 2 (time_Date 2022 10 27 0 0 0) = Inr 1
   \<and> KESPeriodStart ex_preview 1 \<le> time_Date 2022 10 27 0 0 0
   \<and> time_Date 2022 10 27 0 0 0 < KESPeriodStart ex_preview 2"
proof -
  let ?now = "time_Date 2022 10 27 0 0 0"
  have r: "in_range ex_preview ?now"
    by (simp add: in_range_def ex_preview_def slot_number_def slotLengthOf_def time_Date_def days_from_civil_def
        maxDuration_def)
  obtain k where k: "CurrentKESPeriodFor ex_preview ?now = Inr k" "uint k = kes_number ex_preview ?now"
    using CurrentKESPeriodFor_eq [OF ex_preview_sane r] by blast
  have "kes_number ex_preview ?now = 1"
    by (simp add: kes_number_def ex_preview_def slot_number_def slotLengthOf_def time_Date_def days_from_civil_def)
  then have k1: "k = 1" using k(2) by (simp add: word_uint_eq_iff)
  have rep: "start_representable ex_preview (uint (1 :: u64))" "start_representable ex_preview (uint (1 :: u64) + 1)"
    by (simp_all add: start_representable_def ex_preview_def period_offset_def slotLengthOf_def maxDuration_def)
  have "CurrentKESPeriod 2 ?now = CurrentKESPeriodFor ex_preview ?now"
    by (simp add: CurrentKESPeriod_def NetworkParamsForMagic_def ex_preview_def)
  then show ?thesis
    using KES_period_brackets [OF ex_preview_sane r k(1) [unfolded k1] rep] k(1) k1 by simp
qed

text \<open>
  C39: The start of a KES period and the period of an instant are inverse: the start of a
  representable period lies in that period. A period that is before the network start, or whose
  start does not fit 64 bits, gets the zero time.
\<close>

theorem KESPeriodStart_roundtrip:
  assumes "sane_params p"
  shows "if start_representable p (uint k)
    then CurrentKESPeriodFor p (KESPeriodStart p k) = Inr k else KESPeriodStart p k = zeroTime"
proof (cases "start_representable p (uint k)")
  case True
  let ?A = "uint (np_AbsoluteStartSlot p)" and ?S = "uint (np_SlotsPerKESPeriod p)"
  let ?now = "KESPeriodStart p k"
  have S: "0 < ?S" using assms by (simp add: sane_params_def word_neq_0_conv word_less_def)
  have now: "?now = np_Start p + period_offset p (uint k)" using True KESPeriodStart_eq [OF assms] by simp
  have nonneg: "0 \<le> period_offset p (uint k)" "period_offset p (uint k) \<le> maxDuration"
    using True slotLengthOf_pos [of p] by (simp_all add: start_representable_def period_offset_def)
  have slot: "slot_number p ?now = uint k * ?S - ?A"
    using slotLengthOf_pos [of p] by (simp add: now slot_number_def period_offset_def)
  have range: "in_range p ?now"
    using nonneg True slot now by (simp add: in_range_def start_representable_def)
  have "kes_number p ?now = uint k" using S by (simp add: kes_number_def slot)
  then have "CurrentKESPeriodFor p ?now = Inr k"
    using CurrentKESPeriodFor_eq [OF assms range] by (auto simp: word_uint_eq_iff)
  then show ?thesis using True by simp
next
  case False
  then show ?thesis using KESPeriodStart_eq [OF assms] by simp
qed

theorem KESPeriodStart_roundtrip_witness:
  "CurrentKESPeriodFor ex_preview (KESPeriodStart ex_preview 3) = Inr 3"
proof -
  have "start_representable ex_preview (uint (3 :: u64))"
    by (simp add: start_representable_def ex_preview_def period_offset_def slotLengthOf_def maxDuration_def)
  then show ?thesis using KESPeriodStart_roundtrip [OF ex_preview_sane, of 3] by simp
qed

text \<open>
  For each well-known network, the clock readings agree with the network's timeline at any
  instant within 292 years of its Shelley start: the slot counts whole seconds, the KES period is
  the absolute slot divided by 129600 and the epoch the slot divided by the epoch length; before
  the start there is only an error.
\<close>

theorem well_known_networks:
  assumes "NetworkParamsForMagic magic = Inr p"
  shows "sane_params p
    \<and> (now < np_Start p \<longrightarrow> (\<exists>e. CurrentSlotFor p now = Inl e) \<and> (\<exists>e. CurrentKESPeriodFor p now = Inl e)
         \<and> (\<exists>e. CurrentEpochFor p now = Inl e))
    \<and> (np_Start p \<le> now \<and> now - np_Start p \<le> maxDuration \<longrightarrow>
        (\<exists>s k e. CurrentSlotFor p now = Inr s \<and> uint s = (now - np_Start p) div Second
          \<and> CurrentKESPeriodFor p now = Inr k \<and> uint k = (uint (np_AbsoluteStartSlot p) + uint s) div 129600
          \<and> CurrentEpochFor p now = Inr e \<and> uint e = uint s div uint (np_EpochLength p)))"
proof -
  have p: "slotLengthOf p = Second" "np_SlotsPerKESPeriod p = 129600" "np_EpochLength p \<noteq> 0"
    "uint (np_AbsoluteStartSlot p) < 2 ^ 63"
    using assms by (auto simp: NetworkParamsForMagic_def slotLengthOf_def split: if_splits)
  then have sane: "sane_params p" by (simp add: sane_params_def maxDuration_def)
  have early: "\<exists>e. CurrentSlotFor p now = Inl e" "\<exists>e. CurrentKESPeriodFor p now = Inl e"
    "\<exists>e. CurrentEpochFor p now = Inl e" if "now < np_Start p"
    using that p(2,3)
    by (simp_all add: CurrentSlotFor_def CurrentKESPeriodFor_def currentAbsoluteSlotFor_def CurrentEpochFor_def)
  have "\<exists>s k e. CurrentSlotFor p now = Inr s \<and> uint s = (now - np_Start p) div Second
      \<and> CurrentKESPeriodFor p now = Inr k \<and> uint k = (uint (np_AbsoluteStartSlot p) + uint s) div 129600
      \<and> CurrentEpochFor p now = Inr e \<and> uint e = uint s div uint (np_EpochLength p)"
    if "np_Start p \<le> now" "now - np_Start p \<le> maxDuration"
  proof -
    note n = slot_number_range [OF that]
    have range: "in_range p now" using that n p(4) by (simp add: in_range_def)
    define s :: u64 where "s = word_of_int (slot_number p now)"
    have s: "CurrentSlotFor p now = Inr s" "uint s = slot_number p now"
      using CurrentSlotFor_eq [OF that] uint_of_int_u64 [OF n(1)] n(2) by (simp_all add: s_def)
    obtain k where k: "CurrentKESPeriodFor p now = Inr k" "uint k = kes_number p now"
      using CurrentKESPeriodFor_eq [OF sane range] by blast
    have "CurrentEpochFor p now = Inr (s div np_EpochLength p)" using s p(3) by (simp add: CurrentEpochFor_def)
    then show ?thesis using s k p by (simp add: slot_number_def kes_number_def uint_div)
  qed
  then show ?thesis using sane early by blast
qed

theorem well_known_networks_witness:
  "\<exists>p s. NetworkParamsForMagic 764824073 = Inr p \<and> CurrentSlotFor p (time_Date 2020 7 30 0 0 0) = Inr s \<and> uint s = 8109"
proof -
  let ?now = "time_Date 2020 7 30 0 0 0"
  obtain p where p: "NetworkParamsForMagic 764824073 = Inr p" "np_Start p = time_Date 2020 7 29 21 44 51"
    by (simp add: NetworkParamsForMagic_def cardanoMainnetShelleyStart_def)
  have "np_Start p \<le> ?now" "?now - np_Start p \<le> maxDuration" "(?now - np_Start p) div Second = 8109"
    by (simp_all add: p(2) time_Date_def days_from_civil_def maxDuration_def)
  then show ?thesis using well_known_networks [OF p(1), of ?now] p(1) by auto
qed

end
