(* ===== verification/Kes_Credentials.thy ===== *)
theory Kes_Credentials
  imports Dmq_Payload Go_Encoding Cardano_Time
begin

text \<open>
  The first half of \<^verbatim>\<open>kes_payload.go\<close>: KES keys and operational certificates, their loading, CBOR
  form and cold-key signature, and the validity window of a certificate. The libraries it calls
  (bursa, the KES and CBOR packages of gOuroboros, ed25519, blake2b, file access and JSON) are
  the record \<open>kes_lib\<close>, a parameter of the definitions. A \<open>moment\<close> numbers the calls to
  what changes by itself, the clock and the files.
\<close>

unbundle bit_operations_syntax

section \<open>Data\<close>

type_synonym moment = nat

text \<open>A \<^verbatim>\<open>func() time.Time\<close>, by the moment it is called at.\<close>

type_synonym clock = "moment \<Rightarrow> gotime"

record TextEnvelope =
  te_Type :: string
  te_Description :: string
  te_CborHex :: string

record KESSigningKey =
  sk_SecretKeyBytes :: bytes
  sk_VerificationKey :: bytes

record KESSigningCertificate =
  kc_KESVKey :: bytes
  kc_IssueNumber :: u64
  kc_KESPeriod :: u64
  kc_Signature :: bytes
  kc_ColdVKey :: bytes

record SignedKESPayload =
  sp_VKey :: bytes
  sp_Period :: u64
  sp_Signature :: bytes

record OperationalCredentialStatus =
  os_KESVKey :: bytes
  os_OpCertKESPeriod :: u64
  os_CurrentKESPeriod :: u64
  os_RelativeKESPeriod :: u64
  os_MaxKESEvolutions :: u64
  os_RemainingKESEvolutions :: u64
  os_ExpiresAt :: gotime

text \<open>The zero value of the certificate struct, which nil receivers return.\<close>

definition zeroCertificate :: KESSigningCertificate where
  "zeroCertificate = \<lparr>kc_KESVKey = [], kc_IssueNumber = 0, kc_KESPeriod = 0, kc_Signature = [], kc_ColdVKey = []\<rparr>"

section \<open>The libraries\<close>

text \<open>
  The results of the library calls: \<^verbatim>\<open>bursa.LoadedKey\<close>, \<^verbatim>\<open>kes.SecretKey\<close>, a hash in
  progress, and the values a decoder puts into a \<^verbatim>\<open>[]any\<close>, with the type name \<^verbatim>\<open>%T\<close> prints.
\<close>

record LoadedKey =
  lk_SKey :: bytes
  lk_VKey :: bytes
  lk_OpCertIssueNumber :: u64
  lk_OpCertKesPeriod :: u64
  lk_OpCertSignature :: bytes
  lk_OpCertColdVKey :: bytes

record KesSecretKey =
  kk_Depth :: u64
  kk_Period :: u64
  kk_Data :: bytes

record blake_hash =
  bh_Write :: "bytes \<Rightarrow> go_error option"
  bh_Sum :: "bytes \<Rightarrow> bytes"

datatype cbor_any =
    CborArray "cbor_any list"
  | CborBytes bytes
  | CborUint64 u64
  | CborInt64 u64
  | CborOther string

fun go_type_name :: "cbor_any \<Rightarrow> string" where
  "go_type_name (CborArray _) = ''[]interface {}''"
| "go_type_name (CborBytes _) = ''[]uint8''"
| "go_type_name (CborUint64 _) = ''uint64''"
| "go_type_name (CborInt64 _) = ''int64''"
| "go_type_name (CborOther t) = t"

record kes_lib =
  kl_ReadFile :: "moment \<Rightarrow> string \<Rightarrow> bytes result"
  kl_UnmarshalEnvelope :: "bytes \<Rightarrow> TextEnvelope result"
  kl_LoadKeyFromFile :: "moment \<Rightarrow> string \<Rightarrow> LoadedKey result"
  kl_CardanoKesDepth :: u64
  kl_CardanoKesSecretKeySize :: nat
  kl_Update :: "KesSecretKey \<Rightarrow> KesSecretKey result"
  kl_Sign :: "KesSecretKey \<Rightarrow> u64 \<Rightarrow> bytes \<Rightarrow> bytes result"
  kl_VerifySignedKES :: "bytes \<Rightarrow> u64 \<Rightarrow> bytes \<Rightarrow> bytes \<Rightarrow> bool"
  kl_Ed25519Verify :: "bytes \<Rightarrow> bytes \<Rightarrow> bytes \<Rightarrow> bool"
  kl_Blake2bNew :: "nat \<Rightarrow> blake_hash result"
  kl_DecodeAny :: "bytes \<Rightarrow> cbor_any list result"
  kl_EncodePayload :: "DmqMessagePayload \<Rightarrow> bytes result"
  kl_EncodeBytes :: "bytes \<Rightarrow> bytes result"
  kl_SetComputedMessageID :: "DmqMessage \<Rightarrow> DmqMessage result"

abbreviation PublicKeySize :: nat where
  "PublicKeySize \<equiv> 32"
abbreviation SignatureSize :: nat where
  "SignatureSize \<equiv> 64"

section \<open>Loading keys and certificates\<close>

definition ReadTextEnvelope :: "kes_lib \<Rightarrow> moment \<Rightarrow> string \<Rightarrow> (bytes \<times> string) result" where
  "ReadTextEnvelope L i path =
     (case kl_ReadFile L i path of
        Inl err \<Rightarrow> Inl (Errorf ''read %q: %w'' [StrArg path, WrapArg err])
      | Inr raw \<Rightarrow> (case kl_UnmarshalEnvelope L raw of
          Inl err \<Rightarrow> Inl (Errorf ''parse text-envelope %q: %w'' [StrArg path, WrapArg err])
        | Inr env \<Rightarrow> (case hex_DecodeString (te_CborHex env) of
            Inl err \<Rightarrow> Inl (Errorf ''decode cborHex of %q: %w'' [StrArg path, WrapArg err])
          | Inr cborData \<Rightarrow> Inr (cborData, te_Type env))))"

definition LoadKESSigningKey :: "kes_lib \<Rightarrow> moment \<Rightarrow> string \<Rightarrow> KESSigningKey result" where
  "LoadKESSigningKey L i path =
     (case kl_LoadKeyFromFile L i path of
        Inl err \<Rightarrow> Inl (Errorf ''load KES signing key: %w'' [WrapArg err])
      | Inr loaded \<Rightarrow>
          if length (lk_SKey loaded) \<noteq> kl_CardanoKesSecretKeySize L
          then Inl (Errorf ''invalid KES signing key size: expected %d got %d''
                 [IntArg (int (kl_CardanoKesSecretKeySize L)), IntArg (int (length (lk_SKey loaded)))])
          else if length (lk_VKey loaded) \<noteq> PublicKeySize
          then Inl (Errorf ''invalid KES verification key size: expected %d got %d''
                 [IntArg (int PublicKeySize), IntArg (int (length (lk_VKey loaded)))])
          else Inr \<lparr>sk_SecretKeyBytes = cloneBytes (lk_SKey loaded),
                 sk_VerificationKey = cloneBytes (lk_VKey loaded)\<rparr>)"

text \<open>The 48 bytes the cold key signs.\<close>

definition opcert_body :: "bytes \<Rightarrow> u64 \<Rightarrow> u64 \<Rightarrow> bytes" where
  "opcert_body vkey issue period =
     take 32 (vkey @ replicate 32 0) @ binary_PutUint64 issue @ binary_PutUint64 period"

definition ValidateOperationalCertificate :: "kes_lib \<Rightarrow> KESSigningCertificate \<Rightarrow> go_error option" where
  "ValidateOperationalCertificate L cert =
     (if length (kc_KESVKey cert) \<noteq> PublicKeySize
      then Some (Errorf ''opcert KES verification key size: got %d, want %d''
             [IntArg (int (length (kc_KESVKey cert))), IntArg (int PublicKeySize)])
      else if length (kc_ColdVKey cert) \<noteq> PublicKeySize
      then Some (Errorf ''opcert cold verification key size: got %d, want %d''
             [IntArg (int (length (kc_ColdVKey cert))), IntArg (int PublicKeySize)])
      else if length (kc_Signature cert) \<noteq> SignatureSize
      then Some (Errorf ''opcert cold signature size: got %d, want %d''
             [IntArg (int (length (kc_Signature cert))), IntArg (int SignatureSize)])
      else if \<not> kl_Ed25519Verify L (kc_ColdVKey cert)
                  (opcert_body (kc_KESVKey cert) (kc_IssueNumber cert) (kc_KESPeriod cert)) (kc_Signature cert)
      then Some (ErrorNew ''opcert cold signature verification failed'')
      else None)"

definition LoadOperationalCertificate :: "kes_lib \<Rightarrow> moment \<Rightarrow> string \<Rightarrow> KESSigningCertificate result" where
  "LoadOperationalCertificate L i path =
     (case kl_LoadKeyFromFile L i path of
        Inl err \<Rightarrow> Inl (Errorf ''load operational certificate: %w'' [WrapArg err])
      | Inr loaded \<Rightarrow>
          (let cert = \<lparr>kc_KESVKey = cloneBytes (lk_VKey loaded), kc_IssueNumber = lk_OpCertIssueNumber loaded,
                 kc_KESPeriod = lk_OpCertKesPeriod loaded, kc_Signature = cloneBytes (lk_OpCertSignature loaded),
                 kc_ColdVKey = cloneBytes (lk_OpCertColdVKey loaded)\<rparr>
           in case ValidateOperationalCertificate L cert of Some err \<Rightarrow> Inl err | None \<Rightarrow> Inr cert))"

fun readCBORUint :: "cbor_any \<Rightarrow> string \<Rightarrow> u64 result" where
  "readCBORUint (CborUint64 x) name = Inr x"
| "readCBORUint (CborInt64 x) name =
     (if sint x < 0 then Inl (Errorf ''op cert: %s negative'' [StrArg name]) else Inr x)"
| "readCBORUint v name = Inl (Errorf ''op cert: %s has unexpected type %T'' [StrArg name, StrArg (go_type_name v)])"

text \<open>\<^verbatim>\<open>v.([]byte)\<close> with a required length.\<close>

fun bytes_of_size :: "nat \<Rightarrow> cbor_any \<Rightarrow> bytes option" where
  "bytes_of_size n (CborBytes b) = (if length b = n then Some b else None)"
| "bytes_of_size n _ = None"

definition ParseOperationalCertificateCBOR :: "kes_lib \<Rightarrow> bytes \<Rightarrow> KESSigningCertificate result" where
  "ParseOperationalCertificateCBOR L certBytes =
     (case kl_DecodeAny L certBytes of
        Inl err \<Rightarrow> Inl (Errorf ''decode op cert cbor: %w'' [WrapArg err])
      | Inr outer \<Rightarrow>
          if length outer \<noteq> 2
          then Inl (Errorf ''op cert outer: want 2 elements, got %d'' [IntArg (int (length outer))])
          else (case outer ! 0 of
            CborArray inner \<Rightarrow>
              if length inner \<noteq> 4
              then Inl (Errorf ''op cert inner: want 4 elements, got %d'' [IntArg (int (length inner))])
              else (case bytes_of_size PublicKeySize (outer ! 1) of
                None \<Rightarrow> Inl (ErrorNew ''op cert: cold_vkey not 32 bytes'')
              | Some coldVKey \<Rightarrow> (case bytes_of_size PublicKeySize (inner ! 0) of
                  None \<Rightarrow> Inl (ErrorNew ''op cert: kes_vkey not 32 bytes'')
                | Some kesVKey \<Rightarrow> (case readCBORUint (inner ! 1) ''issue_number'' of
                    Inl err \<Rightarrow> Inl err
                  | Inr issueNumber \<Rightarrow> (case readCBORUint (inner ! 2) ''kes_period'' of
                      Inl err \<Rightarrow> Inl err
                    | Inr kesPeriod \<Rightarrow> (case bytes_of_size SignatureSize (inner ! 3) of
                        None \<Rightarrow> Inl (ErrorNew ''op cert: cold-key signature not 64 bytes'')
                      | Some sig \<Rightarrow> Inr \<lparr>kc_KESVKey = cloneBytes kesVKey, kc_IssueNumber = issueNumber,
                          kc_KESPeriod = kesPeriod, kc_Signature = cloneBytes sig,
                          kc_ColdVKey = cloneBytes coldVKey\<rparr>)))))
          | _ \<Rightarrow> Inl (ErrorNew ''op cert: first element not an array'')))"

definition ValidateOperationalCredentials :: "kes_lib \<Rightarrow> moment \<Rightarrow> string \<Rightarrow> string \<Rightarrow> go_error option" where
  "ValidateOperationalCredentials L i kesKeyPath opCertPath =
     (case LoadKESSigningKey L i kesKeyPath of
        Inl err \<Rightarrow> Some err
      | Inr kesKey \<Rightarrow> (case LoadOperationalCertificate L i opCertPath of
          Inl err \<Rightarrow> Some err
        | Inr cert \<Rightarrow> if sk_VerificationKey kesKey \<noteq> kc_KESVKey cert then Some (Sentinel ErrKESKeyMismatch) else None))"

definition KESVerificationKeyFromOpCert :: "kes_lib \<Rightarrow> moment \<Rightarrow> string \<Rightarrow> bytes result" where
  "KESVerificationKeyFromOpCert L i path =
     (case LoadOperationalCertificate L i path of Inl err \<Rightarrow> Inl err | Inr cert \<Rightarrow> Inr (cloneBytes (kc_KESVKey cert)))"

definition ColdVerificationKeyFromOpCert :: "kes_lib \<Rightarrow> moment \<Rightarrow> string \<Rightarrow> bytes result" where
  "ColdVerificationKeyFromOpCert L i path =
     (case LoadOperationalCertificate L i path of Inl err \<Rightarrow> Inl err | Inr cert \<Rightarrow> Inr (cloneBytes (kc_ColdVKey cert)))"

definition PoolIDFromColdKey :: "kes_lib \<Rightarrow> bytes \<Rightarrow> string result" where
  "PoolIDFromColdKey L coldVKey =
     (if length coldVKey \<noteq> PublicKeySize
      then Inl (Errorf ''cold_vkey size: got %d, want %d'' [IntArg (int (length coldVKey)), IntArg (int PublicKeySize)])
      else case kl_Blake2bNew L 28 of
        Inl err \<Rightarrow> Inl (Errorf ''blake2b-224: %w'' [WrapArg err])
      | Inr h \<Rightarrow> (case bh_Write h coldVKey of
          Some err \<Rightarrow> Inl (Errorf ''hash cold_vkey: %w'' [WrapArg err])
        | None \<Rightarrow> Inr (hex_EncodeToString (bh_Sum h coldVKey))))"

definition cloneKESSigningCertificate :: "KESSigningCertificate \<Rightarrow> KESSigningCertificate" where
  "cloneKESSigningCertificate src =
     \<lparr>kc_KESVKey = cloneBytes (kc_KESVKey src), kc_IssueNumber = kc_IssueNumber src, kc_KESPeriod = kc_KESPeriod src,
       kc_Signature = cloneBytes (kc_Signature src), kc_ColdVKey = cloneBytes (kc_ColdVKey src)\<rparr>"

section \<open>The KES validity window\<close>

definition cryptoMaxKESEvolutions :: "u64 \<Rightarrow> u64" where
  "cryptoMaxKESEvolutions depth = (if depth \<ge> 63 then push_bit 63 1 else push_bit (unat depth) 1)"

definition effectiveMaxKESEvolutions :: "NetworkParams \<Rightarrow> u64 \<Rightarrow> u64" where
  "effectiveMaxKESEvolutions network depth =
     (let cryptoMax = cryptoMaxKESEvolutions depth
      in if np_MaxKESEvolutions network = 0 \<or> np_MaxKESEvolutions network > cryptoMax then cryptoMax
         else np_MaxKESEvolutions network)"

definition pastValidity :: "u64 \<Rightarrow> u64 \<Rightarrow> go_error" where
  "pastValidity period maxPeriod =
     Errorf ''KES period %d past op cert validity (max %d) - rotate operational certificate''
       [IntArg (uint period), IntArg (uint (maxPeriod - 1))]"

definition beforeOpCert :: "u64 \<Rightarrow> u64 \<Rightarrow> go_error" where
  "beforeOpCert absPeriod certPeriod =
     Errorf ''system clock yields KES period %d, before op cert period %d''
       [IntArg (uint absPeriod), IntArg (uint certPeriod)]"

definition validateRelativeKESPeriodForNetwork :: "kes_lib \<Rightarrow> u64 \<Rightarrow> NetworkParams \<Rightarrow> go_error option" where
  "validateRelativeKESPeriodForNetwork L period network =
     (let maxPeriod = effectiveMaxKESEvolutions network (kl_CardanoKesDepth L)
      in if period \<ge> maxPeriod then Some (pastValidity period maxPeriod) else None)"

definition currentRelativePeriodFor ::
  "kes_lib \<Rightarrow> NetworkParams \<Rightarrow> KESSigningCertificate \<Rightarrow> gotime \<Rightarrow> u64 result" where
  "currentRelativePeriodFor L network cert now =
     (case CurrentKESPeriodFor network now of
        Inl err \<Rightarrow> Inl err
      | Inr absPeriod \<Rightarrow>
          if absPeriod < kc_KESPeriod cert then Inl (beforeOpCert absPeriod (kc_KESPeriod cert))
          else
            (let relPeriod = absPeriod - kc_KESPeriod cert
             in case validateRelativeKESPeriodForNetwork L relPeriod network of
                  Some err \<Rightarrow> Inl err
                | None \<Rightarrow> Inr relPeriod))"

definition paramsRequired :: go_error where
  "paramsRequired = ErrorNew ''network params: start and slotsPerKESPeriod are required''"

definition paramsMissing :: "NetworkParams \<Rightarrow> bool" where
  "paramsMissing params = (np_Start params = zeroTime \<or> np_SlotsPerKESPeriod params = 0)"

text \<open>The optional check of the key file against the certificate.\<close>

definition crossCheckKey :: "kes_lib \<Rightarrow> moment \<Rightarrow> string \<Rightarrow> KESSigningCertificate \<Rightarrow> go_error option" where
  "crossCheckKey L i kesKeyPath cert =
     (if strings_TrimSpace kesKeyPath \<noteq> []
      then (case LoadKESSigningKey L i kesKeyPath of
         Inl err \<Rightarrow> Some err
       | Inr kesKey \<Rightarrow> if sk_VerificationKey kesKey \<noteq> kc_KESVKey cert then Some (Sentinel ErrKESKeyMismatch) else None)
      else None)"

definition NewOperationalCredentialStatus ::
  "kes_lib \<Rightarrow> moment \<Rightarrow> string \<Rightarrow> string \<Rightarrow> NetworkParams \<Rightarrow> gotime \<Rightarrow> OperationalCredentialStatus result" where
  "NewOperationalCredentialStatus L i kesKeyPath opCertPath params now =
     (if paramsMissing params then Inl paramsRequired
      else case LoadOperationalCertificate L i opCertPath of
        Inl err \<Rightarrow> Inl err
      | Inr cert \<Rightarrow>
          (case crossCheckKey L i kesKeyPath cert of
             Some err \<Rightarrow> Inl err
           | None \<Rightarrow> (case CurrentKESPeriodFor params now of
               Inl err \<Rightarrow> Inl err
             | Inr absPeriod \<Rightarrow>
                 if absPeriod < kc_KESPeriod cert then Inl (beforeOpCert absPeriod (kc_KESPeriod cert))
                 else
                   (let relPeriod = absPeriod - kc_KESPeriod cert;
                        maxPeriod = effectiveMaxKESEvolutions params (kl_CardanoKesDepth L)
                    in if relPeriod \<ge> maxPeriod then Inl (pastValidity relPeriod maxPeriod)
                       else Inr \<lparr>os_KESVKey = cloneBytes (kc_KESVKey cert), os_OpCertKESPeriod = kc_KESPeriod cert,
                              os_CurrentKESPeriod = absPeriod, os_RelativeKESPeriod = relPeriod,
                              os_MaxKESEvolutions = maxPeriod, os_RemainingKESEvolutions = maxPeriod - relPeriod,
                              os_ExpiresAt = KESPeriodStart params (kc_KESPeriod cert + maxPeriod)\<rparr>))))"

section \<open>Certificates\<close>

lemma cloneKESSigningCertificate_id [simp]: "cloneKESSigningCertificate c = c"
  by (simp add: cloneKESSigningCertificate_def)

lemma opcert_body_eq: "length vk = 32 \<Longrightarrow> opcert_body vk n k = vk @ binary_PutUint64 n @ binary_PutUint64 k"
  by (simp add: opcert_body_def)

lemma opcert_body_inject:
  assumes "length vk = 32" "length vk' = 32"
  shows "opcert_body vk n k = opcert_body vk' n' k' \<longleftrightarrow> vk = vk' \<and> n = n' \<and> k = k'"
  using assms by (simp add: opcert_body_eq binary_PutUint64_inject)

definition well_sized :: "KESSigningCertificate \<Rightarrow> bool" where
  "well_sized c = (length (kc_KESVKey c) = 32 \<and> length (kc_ColdVKey c) = 32 \<and> length (kc_Signature c) = 64)"

definition cold_signed :: "kes_lib \<Rightarrow> KESSigningCertificate \<Rightarrow> bool" where
  "cold_signed L c = kl_Ed25519Verify L (kc_ColdVKey c)
     (kc_KESVKey c @ binary_PutUint64 (kc_IssueNumber c) @ binary_PutUint64 (kc_KESPeriod c)) (kc_Signature c)"

lemma ValidateOperationalCertificate_None:
  "ValidateOperationalCertificate L c = None \<longleftrightarrow> well_sized c \<and> cold_signed L c"
  by (auto simp: ValidateOperationalCertificate_def well_sized_def cold_signed_def opcert_body_eq)

lemma LoadOperationalCertificate_Inr:
  "LoadOperationalCertificate L i path = Inr c \<Longrightarrow> well_sized c \<and> cold_signed L c"
  using ValidateOperationalCertificate_None
  by (auto simp: LoadOperationalCertificate_def Let_def split: sum.splits option.splits)

text \<open>
  C23: An operational certificate is accepted exactly when its keys and signature have their
  sizes and the cold key signed the 48 bytes of KES key, issue number and start period, and
  these bytes commit to the three: certificates that differ in one of them are signed over
  different bytes.
\<close>

theorem opcert_signature_binds:
  "(ValidateOperationalCertificate L c = None \<longleftrightarrow> well_sized c \<and> cold_signed L c)
   \<and> (well_sized c \<and> well_sized c' \<longrightarrow>
        length (opcert_body (kc_KESVKey c) (kc_IssueNumber c) (kc_KESPeriod c)) = 48
        \<and> (opcert_body (kc_KESVKey c) (kc_IssueNumber c) (kc_KESPeriod c)
             = opcert_body (kc_KESVKey c') (kc_IssueNumber c') (kc_KESPeriod c')
           \<longleftrightarrow> kc_KESVKey c = kc_KESVKey c' \<and> kc_IssueNumber c = kc_IssueNumber c' \<and> kc_KESPeriod c = kc_KESPeriod c'))"
  by (simp add: ValidateOperationalCertificate_None well_sized_def opcert_body_eq binary_PutUint64_inject)

text \<open>The CBOR array of a certificate, with an unsigned field as the decoder may deliver it.\<close>

definition uint_value :: "cbor_any \<Rightarrow> u64 \<Rightarrow> bool" where
  "uint_value v x = (v = CborUint64 x \<or> v = CborInt64 x \<and> 0 \<le> sint x)"

definition opcert_any :: "KESSigningCertificate \<Rightarrow> cbor_any list \<Rightarrow> bool" where
  "opcert_any c outer = (\<exists>n k. uint_value n (kc_IssueNumber c) \<and> uint_value k (kc_KESPeriod c)
     \<and> outer = [CborArray [CborBytes (kc_KESVKey c), n, k, CborBytes (kc_Signature c)], CborBytes (kc_ColdVKey c)])"

lemma readCBORUint_Inr: "readCBORUint v name = Inr x \<longleftrightarrow> uint_value v x"
  by (cases v) (auto simp: uint_value_def)

lemma bytes_of_size_Some: "bytes_of_size n v = Some b \<longleftrightarrow> v = CborBytes b \<and> length b = n"
  by (cases v) auto

lemma list_2: "length xs = 2 \<longleftrightarrow> (\<exists>a b. xs = [a, b])"
  by (auto simp: numeral_2_eq_2 length_Suc_conv)

lemma list_4: "length xs = 4 \<longleftrightarrow> (\<exists>a b c d. xs = [a, b, c, d])"
  by (auto simp: numeral_eq_Suc length_Suc_conv)

lemma Parse_outer:
  assumes "ParseOperationalCertificateCBOR L b = Inr c"
  shows "\<exists>outer. kl_DecodeAny L b = Inr outer \<and> length outer = 2"
proof (cases "kl_DecodeAny L b")
  case (Inl err)
  with assms show ?thesis by (simp add: ParseOperationalCertificateCBOR_def)
next
  case (Inr outer)
  with assms have "length outer = 2" by (intro ccontr [of "length outer = 2"]) (simp add: ParseOperationalCertificateCBOR_def)
  with Inr show ?thesis by blast
qed

lemma Parse_inner:
  "kl_DecodeAny L b = Inr [o0, o1] \<Longrightarrow> ParseOperationalCertificateCBOR L b = Inr c
   \<Longrightarrow> \<exists>inner. o0 = CborArray inner \<and> length inner = 4"
  by (cases o0) (simp_all add: ParseOperationalCertificateCBOR_def split: if_splits)

lemma Parse_fields:
  assumes "kl_DecodeAny L b = Inr [CborArray [a, n, k, s], o1]"
  shows "ParseOperationalCertificateCBOR L b = Inr c \<longleftrightarrow>
    bytes_of_size 32 o1 = Some (kc_ColdVKey c) \<and> bytes_of_size 32 a = Some (kc_KESVKey c)
    \<and> readCBORUint n ''issue_number'' = Inr (kc_IssueNumber c) \<and> readCBORUint k ''kes_period'' = Inr (kc_KESPeriod c)
    \<and> bytes_of_size 64 s = Some (kc_Signature c)"
proof -
  have c: "c = \<lparr>kc_KESVKey = vk, kc_IssueNumber = x, kc_KESPeriod = y, kc_Signature = sig, kc_ColdVKey = cold\<rparr>
     \<longleftrightarrow> kc_KESVKey c = vk \<and> kc_IssueNumber c = x \<and> kc_KESPeriod c = y \<and> kc_Signature c = sig \<and> kc_ColdVKey c = cold"
    for vk x y sig cold by (cases c) auto
  show ?thesis
    using assms
    by (cases "bytes_of_size 32 o1"; cases "bytes_of_size 32 a"; cases "readCBORUint n ''issue_number''";
        cases "readCBORUint k ''kes_period''"; cases "bytes_of_size 64 s")
      (simp_all add: ParseOperationalCertificateCBOR_def eq_commute [of _ c] c, auto)
qed

text \<open>
  C24: Decoding an operational certificate is exact: a certificate is returned exactly when the
  CBOR is the two-element array of its fields, with keys and signature of their sizes and
  non-negative numbers, so every well-sized certificate is read back from its own array.
\<close>

theorem ParseOperationalCertificateCBOR_exact:
  "ParseOperationalCertificateCBOR L b = Inr c
   \<longleftrightarrow> (\<exists>outer. kl_DecodeAny L b = Inr outer \<and> opcert_any c outer \<and> well_sized c)"
proof
  assume p: "ParseOperationalCertificateCBOR L b = Inr c"
  then obtain o0 o1 where d: "kl_DecodeAny L b = Inr [o0, o1]" using Parse_outer list_2 by metis
  then obtain a n k s where o0: "o0 = CborArray [a, n, k, s]" using p Parse_inner list_4 by metis
  show "\<exists>outer. kl_DecodeAny L b = Inr outer \<and> opcert_any c outer \<and> well_sized c"
    using p d Parse_fields [of L b a n k s o1 c] unfolding o0 opcert_any_def well_sized_def
    by (auto simp: bytes_of_size_Some readCBORUint_Inr)
next
  assume "\<exists>outer. kl_DecodeAny L b = Inr outer \<and> opcert_any c outer \<and> well_sized c"
  then show "ParseOperationalCertificateCBOR L b = Inr c"
    by (auto simp: opcert_any_def well_sized_def Parse_fields readCBORUint_Inr)
qed

section \<open>The validity window\<close>

lemma uint_2p_u64: "n < 64 \<Longrightarrow> uint (2 ^ n :: u64) = 2 ^ n"
proof (rule uint_2p)
  assume "n < 64"
  then have "bit (2 ^ n :: u64) n" by (simp add: bit_exp_iff)
  then show "(0 :: u64) < 2 ^ n" by (metis bit_0_eq bot_apply bot_bool_def word_neq_0_conv)
qed

lemma cryptoMax_value:
  "uint (cryptoMaxKESEvolutions depth) = 2 ^ (if 63 \<le> depth then 63 else unat depth)"
proof -
  have "unat depth < 64" if "\<not> 63 \<le> depth" using that by (simp add: word_le_nat_alt)
  then show ?thesis using uint_2p_u64 [of "unat depth"] uint_2p_u64 [of 63]
    by (simp add: cryptoMaxKESEvolutions_def push_bit_eq_mult)
qed

lemma cryptoMax_pos: "0 < cryptoMaxKESEvolutions depth"
  by (simp add: word_less_def cryptoMax_value)

lemma effectiveMax_pos: "0 < effectiveMaxKESEvolutions network depth"
  using cryptoMax_pos [of depth] by (simp add: effectiveMaxKESEvolutions_def Let_def word_neq_0_conv [symmetric])

lemma effectiveMax_le: "effectiveMaxKESEvolutions network depth \<le> cryptoMaxKESEvolutions depth"
  by (simp add: effectiveMaxKESEvolutions_def Let_def not_less)

text \<open>A representable period has begun exactly from its start on.\<close>

lemma int_div_less_iff: "0 < b \<Longrightarrow> a div b < c \<longleftrightarrow> a < c * (b :: int)"
proof -
  assume b: "0 < b"
  note br = int_div_bracket [OF b, of a]
  show ?thesis
  proof
    assume "a div b < c"
    then have "(a div b + 1) * b \<le> c * b" using b by (intro mult_right_mono) simp_all
    then show "a < c * b" using br by linarith
  next
    assume l: "a < c * b"
    show "a div b < c"
    proof (rule ccontr)
      assume "\<not> a div b < c"
      then have "c * b \<le> (a div b) * b" using b by (intro mult_right_mono) simp_all
      then show False using br l by linarith
    qed
  qed
qed

lemma kes_number_less_iff:
  assumes "sane_params p" "start_representable p (uint k)"
  shows "kes_number p t < uint k \<longleftrightarrow> t < KESPeriodStart p k"
proof -
  have S: "0 < uint (np_SlotsPerKESPeriod p)"
    using assms(1) by (simp add: sane_params_def word_neq_0_conv word_less_def)
  have "slot_number p t < uint k * uint (np_SlotsPerKESPeriod p) - uint (np_AbsoluteStartSlot p)
     \<longleftrightarrow> t - np_Start p < period_offset p (uint k)"
    unfolding slot_number_def period_offset_def by (rule int_div_less_iff [OF slotLengthOf_pos])
  then show ?thesis
    using assms by (auto simp: kes_number_def int_div_less_iff [OF S] KESPeriodStart_eq)
qed

lemma uint_minus_le: "b \<le> a \<Longrightarrow> uint (a - b :: u64) = uint a - uint b"
  by (rule uint_minus_simple_alt [THEN iffD1])

lemma uint_plus_no_wrap: "uint a + uint b < 2 ^ 64 \<Longrightarrow> uint (a + b :: u64) = uint a + uint b"
  by (simp add: uint_word_ariths)

text \<open>The guard \<^verbatim>\<open>r > math.MaxUint64-k\<close> is the overflow of the sum.\<close>

lemma u64_overflow_guard: "r > NOT 0 - k \<longleftrightarrow> \<not> uint k + uint r < 2 ^ 64" for r k :: u64
proof -
  have "uint (- 1 - k) = uint (- 1 :: u64) - uint k" by (rule uint_minus_le) simp
  moreover have "uint (- 1 :: u64) = 2 ^ 64 - 1" by (simp add: uint_word_ariths)
  ultimately show ?thesis by (auto simp: word_less_def)
qed

text \<open>The relative period at an instant, as a number: inside the window it is the distance from the start.\<close>

lemma currentRelativePeriodFor_Inr:
  assumes "sane_params p" "in_range p now"
  shows "currentRelativePeriodFor L p cert now = Inr r \<longleftrightarrow>
    uint (kc_KESPeriod cert) \<le> kes_number p now
    \<and> uint r = kes_number p now - uint (kc_KESPeriod cert)
    \<and> r < effectiveMaxKESEvolutions p (kl_CardanoKesDepth L)"
proof -
  obtain k where k: "CurrentKESPeriodFor p now = Inr k" "uint k = kes_number p now"
    using CurrentKESPeriodFor_eq [OF assms] by blast
  have "k - kc_KESPeriod cert = r \<longleftrightarrow> uint r = uint k - uint (kc_KESPeriod cert)" if "kc_KESPeriod cert \<le> k"
    using uint_minus_le [OF that] by (auto simp: word_uint_eq_iff)
  then show ?thesis
    using k by (auto simp: currentRelativePeriodFor_def validateRelativeKESPeriodForNetwork_def Let_def
        word_le_def word_less_def split: if_splits)
qed

lemma status_Inr:
  assumes "NewOperationalCredentialStatus L i kp op p now = Inr s"
  shows "\<exists>cert. LoadOperationalCertificate L i op = Inr cert \<and> kc_KESVKey cert = os_KESVKey s
    \<and> kc_KESPeriod cert = os_OpCertKESPeriod s
    \<and> currentRelativePeriodFor L p cert now = Inr (os_RelativeKESPeriod s)
    \<and> CurrentKESPeriodFor p now = Inr (os_CurrentKESPeriod s)
    \<and> os_MaxKESEvolutions s = effectiveMaxKESEvolutions p (kl_CardanoKesDepth L)
    \<and> os_RemainingKESEvolutions s = os_MaxKESEvolutions s - os_RelativeKESPeriod s
    \<and> os_ExpiresAt s = KESPeriodStart p (os_OpCertKESPeriod s + os_MaxKESEvolutions s)"
proof -
  have pm: "\<not> paramsMissing p" using assms by (auto simp: NewOperationalCredentialStatus_def)
  obtain cert where cert: "LoadOperationalCertificate L i op = Inr cert"
    using assms pm by (cases "LoadOperationalCertificate L i op") (simp_all add: NewOperationalCredentialStatus_def)
  have ck: "crossCheckKey L i kp cert = None"
    using assms pm cert by (cases "crossCheckKey L i kp cert") (simp_all add: NewOperationalCredentialStatus_def)
  obtain k where k: "CurrentKESPeriodFor p now = Inr k"
    using assms pm cert ck by (cases "CurrentKESPeriodFor p now") (simp_all add: NewOperationalCredentialStatus_def)
  have le: "\<not> k < kc_KESPeriod cert"
    and lt: "\<not> effectiveMaxKESEvolutions p (kl_CardanoKesDepth L) \<le> k - kc_KESPeriod cert"
    using assms pm cert ck k by (simp_all add: NewOperationalCredentialStatus_def Let_def split: if_splits)
  show ?thesis
    using assms pm cert ck k le lt
    by (auto simp: NewOperationalCredentialStatus_def currentRelativePeriodFor_def
        validateRelativeKESPeriodForNetwork_def Let_def)
qed

text \<open>
  C21: The validity window of an operational certificate is exact. The status counts the
  evolutions without wrapping (used plus remaining is the maximum, and at least one remains),
  and a clock reading allows signing with the certificate exactly from the start of its first
  period until the reported expiry.
\<close>

theorem credential_window:
  assumes "sane_params p" "in_range p now"
    and status: "NewOperationalCredentialStatus L i kp op p now = Inr s"
    and load: "LoadOperationalCertificate L i op = Inr cert"
    and nowrap: "uint (os_OpCertKESPeriod s) + uint (os_MaxKESEvolutions s) < 2 ^ 64"
    and "start_representable p (uint (os_OpCertKESPeriod s))"
    and "start_representable p (uint (os_OpCertKESPeriod s) + uint (os_MaxKESEvolutions s))"
  shows "uint (os_CurrentKESPeriod s) = uint (os_OpCertKESPeriod s) + uint (os_RelativeKESPeriod s)
    \<and> uint (os_RelativeKESPeriod s) + uint (os_RemainingKESEvolutions s) = uint (os_MaxKESEvolutions s)
    \<and> 0 < os_RemainingKESEvolutions s
    \<and> (\<forall>t. in_range p t \<longrightarrow> ((\<exists>r. currentRelativePeriodFor L p cert t = Inr r)
         \<longleftrightarrow> KESPeriodStart p (os_OpCertKESPeriod s) \<le> t \<and> t < os_ExpiresAt s))"
proof -
  let ?c = "os_OpCertKESPeriod s" and ?m = "os_MaxKESEvolutions s"
  have f: "kc_KESPeriod cert = ?c" "currentRelativePeriodFor L p cert now = Inr (os_RelativeKESPeriod s)"
    "CurrentKESPeriodFor p now = Inr (os_CurrentKESPeriod s)"
    "?m = effectiveMaxKESEvolutions p (kl_CardanoKesDepth L)"
    "os_RemainingKESEvolutions s = ?m - os_RelativeKESPeriod s" "os_ExpiresAt s = KESPeriodStart p (?c + ?m)"
    using status_Inr [OF status] load by auto
  have cur: "uint (os_CurrentKESPeriod s) = kes_number p now"
    using CurrentKESPeriodFor_eq [OF assms(1,2)] f(3) by auto
  have rel: "uint (os_RelativeKESPeriod s) = kes_number p now - uint ?c" "os_RelativeKESPeriod s < ?m"
    using f(2) unfolding currentRelativePeriodFor_Inr [OF assms(1,2)] f(1,4) by simp_all
  have rem: "uint (os_RemainingKESEvolutions s) = uint ?m - uint (os_RelativeKESPeriod s)"
    unfolding f(5) using rel(2) by (intro uint_minus_le) simp
  have e: "uint (?c + ?m) = uint ?c + uint ?m" using nowrap by (rule uint_plus_no_wrap)
  have window: "(\<exists>r. currentRelativePeriodFor L p cert t = Inr r) \<longleftrightarrow> KESPeriodStart p ?c \<le> t \<and> t < os_ExpiresAt s"
    if t: "in_range p t" for t
  proof -
    have "t < KESPeriodStart p (?c + ?m) \<longleftrightarrow> kes_number p t < uint ?c + uint ?m"
      using kes_number_less_iff [OF assms(1), of "?c + ?m" t] assms(7) e by simp
    moreover have "KESPeriodStart p ?c \<le> t \<longleftrightarrow> uint ?c \<le> kes_number p t"
      using kes_number_less_iff [OF assms(1,6), of t] by linarith
    moreover have ex: "(\<exists>r :: u64. uint r = x \<and> r < ?m) \<longleftrightarrow> x < uint ?m" if "0 \<le> x" for x
    proof
      assume "x < uint ?m"
      then have "x < 2 ^ 64" using uint_lt2p [of ?m] by simp
      then have "uint (word_of_int x :: u64) = x" using that by (intro uint_of_int_u64)
      then show "\<exists>r :: u64. uint r = x \<and> r < ?m" using \<open>x < uint ?m\<close> by (metis word_less_def)
    qed (auto simp: word_less_def)
    moreover have "(\<exists>r. currentRelativePeriodFor L p cert t = Inr r)
        \<longleftrightarrow> uint ?c \<le> kes_number p t \<and> kes_number p t - uint ?c < uint ?m"
      using ex [of "kes_number p t - uint ?c"]
      unfolding currentRelativePeriodFor_Inr [OF assms(1) t] f(1) f(4) [symmetric] by auto
    ultimately show ?thesis unfolding f(6) by auto
  qed
  show ?thesis using cur rel rem window by (auto simp: word_less_def)
qed

section \<open>A concrete library\<close>

text \<open>
  A toy signature scheme with the laws of the real one, on which the properties are instantiated:
  two files, a key of depth two whose signatures name the key, the period and the payload.
\<close>

definition ex_cert :: KESSigningCertificate where
  "ex_cert = \<lparr>kc_KESVKey = replicate 32 7, kc_IssueNumber = 3, kc_KESPeriod = 1,
     kc_Signature = replicate 64 5, kc_ColdVKey = replicate 32 5\<rparr>"

definition ex_load :: "string \<Rightarrow> LoadedKey result" where
  "ex_load path =
     (if path = ''kes.skey'' then Inr \<lparr>lk_SKey = [7, 1, 2], lk_VKey = replicate 32 7, lk_OpCertIssueNumber = 0,
        lk_OpCertKesPeriod = 0, lk_OpCertSignature = [], lk_OpCertColdVKey = []\<rparr>
      else if path = ''opcert'' then Inr \<lparr>lk_SKey = [], lk_VKey = replicate 32 7, lk_OpCertIssueNumber = 3,
        lk_OpCertKesPeriod = 1, lk_OpCertSignature = replicate 64 5, lk_OpCertColdVKey = replicate 32 5\<rparr>
      else Inl (ErrorNew ''no such file''))"

definition ex_kes :: kes_lib where
  "ex_kes = \<lparr>kl_ReadFile = (\<lambda>i path. Inl (ErrorNew ''no such file'')),
     kl_UnmarshalEnvelope = (\<lambda>b. Inl (ErrorNew ''not JSON'')),
     kl_LoadKeyFromFile = (\<lambda>i. ex_load),
     kl_CardanoKesDepth = 2, kl_CardanoKesSecretKeySize = 3,
     kl_Update = (\<lambda>k. if kk_Period k < 3 then Inr (k\<lparr>kk_Period := kk_Period k + 1\<rparr>) else Inl (ErrorNew ''expired'')),
     kl_Sign = (\<lambda>k p m. if kk_Period k = p then Inr (take 1 (kk_Data k) @ binary_PutUint64 p @ m) else Inl (ErrorNew ''period'')),
     kl_VerifySignedKES = (\<lambda>vk p m sig. sig = take 1 vk @ binary_PutUint64 p @ m),
     kl_Ed25519Verify = (\<lambda>cold body sig. sig = replicate 64 (hd cold)),
     kl_Blake2bNew = (\<lambda>n. Inr \<lparr>bh_Write = (\<lambda>b. None), bh_Sum = take n\<rparr>),
     kl_DecodeAny = (\<lambda>b. Inl (ErrorNew ''not CBOR'')),
     kl_EncodePayload = (\<lambda>p. Inr (pl_MessageBody p @ binary_PutUint64 (pl_KESPeriod p))),
     kl_EncodeBytes = (\<lambda>b. Inr (0x58 # b)),
     kl_SetComputedMessageID = (\<lambda>m. Inr (m\<lparr>m_Payload := (m_Payload m)\<lparr>pl_MessageID :=
        word_of_nat (length (pl_MessageBody (m_Payload m))) # pl_MessageBody (m_Payload m)\<rparr>\<rparr>))\<rparr>"

lemma ex_cert_sized: "well_sized ex_cert"
  by (simp add: well_sized_def ex_cert_def)

lemma ex_opcert: "LoadOperationalCertificate ex_kes i ''opcert'' = Inr ex_cert"
proof -
  have "ValidateOperationalCertificate ex_kes ex_cert = None"
    using ex_cert_sized by (simp add: ValidateOperationalCertificate_None cold_signed_def ex_kes_def)
      (simp add: ex_cert_def)
  then show ?thesis by (simp add: LoadOperationalCertificate_def ex_kes_def ex_load_def ex_cert_def)
qed

lemma ex_key: "LoadKESSigningKey ex_kes i ''kes.skey''
   = Inr \<lparr>sk_SecretKeyBytes = [7, 1, 2], sk_VerificationKey = replicate 32 7\<rparr>"
  by (simp add: LoadKESSigningKey_def ex_kes_def ex_load_def)

theorem opcert_signature_binds_witness:
  "ValidateOperationalCertificate ex_kes ex_cert = None
   \<and> opcert_body (kc_KESVKey ex_cert) 3 1 \<noteq> opcert_body (kc_KESVKey ex_cert) 4 1"
  using opcert_signature_binds [of ex_kes ex_cert "ex_cert\<lparr>kc_IssueNumber := 4\<rparr>"]
  by (simp add: well_sized_def cold_signed_def ex_cert_def ex_kes_def)

text \<open>Two days after the start of the preview network the certificate is in its first period.\<close>

definition ex_now :: gotime where
  "ex_now = time_Date 2022 10 27 0 0 0"

lemma ex_now_range: "in_range ex_preview ex_now"
  by (simp add: in_range_def ex_preview_def slot_number_def slotLengthOf_def time_Date_def days_from_civil_def
      maxDuration_def ex_now_def)

lemma ex_now_period: "CurrentKESPeriodFor ex_preview ex_now = Inr 1"
proof -
  have "kes_number ex_preview ex_now = 1"
    by (simp add: kes_number_def ex_preview_def slot_number_def slotLengthOf_def time_Date_def days_from_civil_def ex_now_def)
  then show ?thesis
    using CurrentKESPeriodFor_eq [OF ex_preview_sane ex_now_range] by (auto simp: word_uint_eq_iff)
qed

lemma ex_max: "effectiveMaxKESEvolutions ex_preview 2 = 4"
  by (simp add: effectiveMaxKESEvolutions_def cryptoMaxKESEvolutions_def ex_preview_def Let_def)

lemma ex_relative: "currentRelativePeriodFor ex_kes ex_preview ex_cert ex_now = Inr 0"
  by (simp add: currentRelativePeriodFor_def ex_now_period validateRelativeKESPeriodForNetwork_def ex_kes_def ex_max)
    (simp add: ex_cert_def)

lemma ex_status:
  "\<exists>s. NewOperationalCredentialStatus ex_kes 0 ''kes.skey'' ''opcert'' ex_preview ex_now = Inr s
     \<and> os_OpCertKESPeriod s = 1 \<and> os_MaxKESEvolutions s = 4 \<and> os_RemainingKESEvolutions s = 4"
proof -
  have "crossCheckKey ex_kes 0 ''kes.skey'' ex_cert = None"
    by (simp add: crossCheckKey_def ex_key) (simp add: ex_cert_def)
  moreover have "\<not> paramsMissing ex_preview"
    by (simp add: paramsMissing_def ex_preview_def zeroTime_def time_Date_def days_from_civil_def)
  moreover have "kl_CardanoKesDepth ex_kes = 2" "kc_KESPeriod ex_cert = 1" by (simp_all add: ex_kes_def ex_cert_def)
  ultimately show ?thesis
    by (simp add: NewOperationalCredentialStatus_def ex_opcert ex_now_period ex_max Let_def)
qed

theorem credential_window_witness:
  "\<exists>s. NewOperationalCredentialStatus ex_kes 0 ''kes.skey'' ''opcert'' ex_preview ex_now = Inr s
     \<and> os_CurrentKESPeriod s = 1
     \<and> KESPeriodStart ex_preview 1 \<le> ex_now \<and> ex_now < os_ExpiresAt s"
proof -
  obtain s where s: "NewOperationalCredentialStatus ex_kes 0 ''kes.skey'' ''opcert'' ex_preview ex_now = Inr s"
    and f: "os_OpCertKESPeriod s = 1" "os_MaxKESEvolutions s = 4"
    using ex_status by blast
  have rep: "start_representable ex_preview (uint (1 :: u64))"
    "start_representable ex_preview (uint (1 :: u64) + uint (4 :: u64))"
    by (simp_all add: start_representable_def ex_preview_def period_offset_def slotLengthOf_def maxDuration_def)
  have c: "os_CurrentKESPeriod s = 1" using status_Inr [OF s] ex_now_period by auto
  have nw: "uint (os_OpCertKESPeriod s) + uint (os_MaxKESEvolutions s) < 2 ^ 64" by (simp add: f)
  have "(\<exists>r. currentRelativePeriodFor ex_kes ex_preview ex_cert ex_now = Inr r)
      \<longleftrightarrow> KESPeriodStart ex_preview (os_OpCertKESPeriod s) \<le> ex_now \<and> ex_now < os_ExpiresAt s"
    using credential_window [OF ex_preview_sane ex_now_range s ex_opcert nw rep [folded f]] ex_now_range by blast
  then show ?thesis using s c f ex_relative by auto
qed

end
