(* ===== verification/Kes_Signer.thy ===== *)
theory Kes_Signer
  imports Kes_Credentials
begin

text \<open>
  The signers of \<^verbatim>\<open>kes_payload.go\<close>: the in-process \<^verbatim>\<open>KESSigner\<close>, which evolves its key forward, and
  the \<^verbatim>\<open>ExternalKESSigner\<close>, which runs a helper process and checks what it prints. A method on a
  pointer receiver takes an option, \<open>None\<close> for nil. A method that may loop returns an option
  over its result, \<open>None\<close> for never returning; \<open>kes_scheme\<close> is what the code relies on
  of the KES library.
\<close>

section \<open>The in-process signer\<close>

record KESSigner =
  ks_network :: NetworkParams
  ks_kesKey :: KesSecretKey
  ks_opCert :: KESSigningCertificate
  ks_now :: clock

text \<open>
  \<^verbatim>\<open>for key.Period < period { key = kes.Update(key) }\<close>, with the key reached and the error that
  stopped it. The two signers that run it differ in what they keep after an error.
\<close>

partial_function (option) update_loop ::
  "kes_lib \<Rightarrow> KesSecretKey \<Rightarrow> u64 \<Rightarrow> (KesSecretKey \<times> go_error option) option" where
  "update_loop L key period =
     (if kk_Period key < period
      then (case kl_Update L key of
         Inl err \<Rightarrow> Some (key, Some err)
       | Inr next \<Rightarrow> update_loop L next period)
      else Some (key, None))"

definition NewKESSignerWithClock ::
  "kes_lib \<Rightarrow> clock \<Rightarrow> moment \<Rightarrow> string \<Rightarrow> string \<Rightarrow> NetworkParams \<Rightarrow> clock option \<Rightarrow> KESSigner result" where
  "NewKESSignerWithClock L timeNow i kesKeyPath opCertPath params now =
     (let now = (case now of None \<Rightarrow> timeNow | Some f \<Rightarrow> f)
      in if paramsMissing params then Inl paramsRequired
         else case LoadKESSigningKey L i kesKeyPath of
           Inl err \<Rightarrow> Inl err
         | Inr kesKey \<Rightarrow> (case LoadOperationalCertificate L i opCertPath of
             Inl err \<Rightarrow> Inl err
           | Inr cert \<Rightarrow>
               if sk_VerificationKey kesKey \<noteq> kc_KESVKey cert then Inl (Sentinel ErrKESKeyMismatch)
               else Inr \<lparr>ks_network = params,
                      ks_kesKey = \<lparr>kk_Depth = kl_CardanoKesDepth L, kk_Period = 0,
                        kk_Data = cloneBytes (sk_SecretKeyBytes kesKey)\<rparr>,
                      ks_opCert = cert, ks_now = now\<rparr>))"

definition NewKESSigner ::
  "kes_lib \<Rightarrow> clock \<Rightarrow> moment \<Rightarrow> string \<Rightarrow> string \<Rightarrow> NetworkParams \<Rightarrow> KESSigner result" where
  "NewKESSigner L timeNow i kesKeyPath opCertPath params =
     NewKESSignerWithClock L timeNow i kesKeyPath opCertPath params (Some timeNow)"

definition KESSigner_OperationalCertificate :: "KESSigner option \<Rightarrow> KESSigningCertificate" where
  "KESSigner_OperationalCertificate s =
     (case s of None \<Rightarrow> zeroCertificate | Some s \<Rightarrow> cloneKESSigningCertificate (ks_opCert s))"

definition KESSigner_CurrentPeriod :: "kes_lib \<Rightarrow> moment \<Rightarrow> KESSigner option \<Rightarrow> u64 result" where
  "KESSigner_CurrentPeriod L i s =
     (case s of
        None \<Rightarrow> Inl (Sentinel ErrSignerRequired)
      | Some s \<Rightarrow> currentRelativePeriodFor L (ks_network s) (ks_opCert s) (ks_now s i))"

definition advanceTo :: "kes_lib \<Rightarrow> KESSigner \<Rightarrow> u64 \<Rightarrow> (go_error option \<times> KESSigner) option" where
  "advanceTo L s period =
     (if period < kk_Period (ks_kesKey s)
      then Some (Some (Errorf ''KES key already at period %d, cannot sign at earlier period %d''
                   [IntArg (uint (kk_Period (ks_kesKey s))), IntArg (uint period)]), s)
      else map_option (\<lambda>(key, err).
             (map_option (\<lambda>err. Errorf ''advance KES key from period %d: %w''
                [IntArg (uint (kk_Period key)), WrapArg err]) err,
              s\<lparr>ks_kesKey := key\<rparr>))
             (update_loop L (ks_kesKey s) period))"

definition signAtLocked ::
  "kes_lib \<Rightarrow> KESSigner \<Rightarrow> u64 \<Rightarrow> bytes \<Rightarrow> (SignedKESPayload result \<times> KESSigner) option" where
  "signAtLocked L s relPeriod payload =
     (case validateRelativeKESPeriodForNetwork L relPeriod (ks_network s) of
        Some err \<Rightarrow> Some (Inl err, s)
      | None \<Rightarrow> (case advanceTo L s relPeriod of
          None \<Rightarrow> None
        | Some (Some err, s) \<Rightarrow> Some (Inl err, s)
        | Some (None, s) \<Rightarrow> (case kl_Sign L (ks_kesKey s) relPeriod payload of
            Inl err \<Rightarrow> Some (Inl (Errorf ''KES sign: %w'' [WrapArg err]), s)
          | Inr signature \<Rightarrow> Some (Inr \<lparr>sp_VKey = cloneBytes (kc_KESVKey (ks_opCert s)), sp_Period = relPeriod,
              sp_Signature = cloneBytes signature\<rparr>, s))))"

definition KESSigner_SignAt ::
  "kes_lib \<Rightarrow> u64 \<Rightarrow> bytes \<Rightarrow> KESSigner option \<Rightarrow> (SignedKESPayload result \<times> KESSigner option) option" where
  "KESSigner_SignAt L period payload s =
     (case s of
        None \<Rightarrow> Some (Inl (Sentinel ErrSignerRequired), None)
      | Some s \<Rightarrow> map_option (map_prod id Some) (signAtLocked L s period payload))"

definition KESSigner_Sign ::
  "kes_lib \<Rightarrow> moment \<Rightarrow> bytes \<Rightarrow> KESSigner option \<Rightarrow> (SignedKESPayload result \<times> KESSigner option) option" where
  "KESSigner_Sign L i payload s =
     (case s of
        None \<Rightarrow> Some (Inl (Sentinel ErrSignerRequired), None)
      | Some s \<Rightarrow> (case currentRelativePeriodFor L (ks_network s) (ks_opCert s) (ks_now s i) of
          Inl err \<Rightarrow> Some (Inl err, Some s)
        | Inr relPeriod \<Rightarrow> map_option (map_prod id Some) (signAtLocked L s relPeriod payload)))"

section \<open>The external signer\<close>

record ExternalKESSignerConfig =
  ec_Command :: string
  ec_OperationalCertificatePath :: string
  ec_Network :: NetworkParams
  ec_Timeout :: duration
  ec_Now :: "clock option"
  ec_EnvPrefix :: string

record ExternalKESSigner =
  es_command :: string
  es_opCertPath :: string
  es_timeout :: duration
  es_network :: NetworkParams
  es_opCert :: KESSigningCertificate
  es_now :: clock
  es_envPrefix :: string

abbreviation defaultExternalKESSignerTimeout :: duration where
  "defaultExternalKESSignerTimeout \<equiv> 5 * Second"

definition validEnvPrefix :: "string \<Rightarrow> bool" where
  "validEnvPrefix prefix =
     list_all (\<lambda>r. (65 \<le> (of_char r :: nat) \<and> (of_char r :: nat) \<le> 90)
       \<or> (48 \<le> (of_char r :: nat) \<and> (of_char r :: nat) \<le> 57) \<or> r = CHR ''_'') prefix"

definition NewExternalKESSignerFromConfig ::
  "kes_lib \<Rightarrow> clock \<Rightarrow> moment \<Rightarrow> ExternalKESSignerConfig \<Rightarrow> ExternalKESSigner result" where
  "NewExternalKESSignerFromConfig L timeNow i cfg =
     (let command = strings_TrimSpace (ec_Command cfg) in
      if command = [] then Inl (ErrorNew ''KES signer command is required'')
      else if list_ex (\<lambda>c. c \<in> {CHR 0x00, CHR 0x0D, CHR 0x0A}) command
      then Inl (ErrorNew ''KES signer command contains invalid characters'')
      else if \<not> is_prefix_of ''/'' command then Inl (ErrorNew ''KES signer command must be an absolute path'')
      else if paramsMissing (ec_Network cfg) then Inl paramsRequired
      else case LoadOperationalCertificate L i (ec_OperationalCertificatePath cfg) of
        Inl err \<Rightarrow> Inl err
      | Inr cert \<Rightarrow>
          (let timeout = (if ec_Timeout cfg \<le> 0 then defaultExternalKESSignerTimeout else ec_Timeout cfg);
               now = (case ec_Now cfg of None \<Rightarrow> timeNow | Some f \<Rightarrow> f);
               envPrefix = strings_TrimSpace (ec_EnvPrefix cfg);
               envPrefix = (if envPrefix = [] then ''DMQ'' else envPrefix)
           in if \<not> validEnvPrefix envPrefix
              then Inl (ErrorNew ''external KES signer env prefix must contain only uppercase letters, digits, or underscores'')
              else Inr \<lparr>es_command = command, es_opCertPath = ec_OperationalCertificatePath cfg, es_timeout = timeout,
                     es_network = ec_Network cfg, es_opCert = cert, es_now = now, es_envPrefix = envPrefix\<rparr>))"

definition NewExternalKESSignerWithClock ::
  "kes_lib \<Rightarrow> clock \<Rightarrow> moment \<Rightarrow> string \<Rightarrow> string \<Rightarrow> NetworkParams \<Rightarrow> duration \<Rightarrow> clock option \<Rightarrow> ExternalKESSigner result" where
  "NewExternalKESSignerWithClock L timeNow i command opCertPath params timeout now =
     NewExternalKESSignerFromConfig L timeNow i \<lparr>ec_Command = command, ec_OperationalCertificatePath = opCertPath,
       ec_Network = params, ec_Timeout = timeout, ec_Now = now, ec_EnvPrefix = []\<rparr>"

definition NewExternalKESSigner ::
  "kes_lib \<Rightarrow> clock \<Rightarrow> moment \<Rightarrow> string \<Rightarrow> string \<Rightarrow> NetworkParams \<Rightarrow> duration \<Rightarrow> ExternalKESSigner result" where
  "NewExternalKESSigner L timeNow i command opCertPath params timeout =
     NewExternalKESSignerWithClock L timeNow i command opCertPath params timeout (Some timeNow)"

text \<open>
  The helper process: what it is given (the environment entries are those added to the
  process's own) and what running it yields. A failed run carries the error, whether the context
  had ended by then, and what was written to \<^verbatim>\<open>stderr\<close>.
\<close>

record helper_call =
  hc_command :: string
  hc_args :: "string list"
  hc_stdin :: bytes
  hc_env :: "string list"
  hc_timeout :: duration

datatype helper_outcome =
    HelperOk bytes
  | HelperFailed go_error bool bytes

type_synonym helper = "helper_call \<Rightarrow> helper_outcome"

definition string_of_bytes :: "bytes \<Rightarrow> string" where
  "string_of_bytes b = map (\<lambda>x. char_of (unat x)) b"

definition ParseExternalKESSignature :: "bytes \<Rightarrow> bytes result" where
  "ParseExternalKESSignature raw =
     (let text = strings_TrimSpace (string_of_bytes raw) in
      if text = [] then Inl (ErrorNew ''external KES signer returned empty signature'')
      else case hex_DecodeString text of
        Inr sig \<Rightarrow> if length sig = 0 then Inl (ErrorNew ''external KES signer returned empty hex signature'') else Inr sig
      | Inl _ \<Rightarrow> (case base64_DecodeString text of
          Inl err \<Rightarrow> Inl (Errorf ''external KES signer signature must be hex or base64: %w'' [WrapArg err])
        | Inr sig \<Rightarrow> if length sig = 0 then Inl (ErrorNew ''external KES signer returned empty base64 signature'')
            else Inr sig))"

definition VerifyKESSignature :: "kes_lib \<Rightarrow> bytes \<Rightarrow> u64 \<Rightarrow> bytes \<Rightarrow> bytes \<Rightarrow> bool" where
  "VerifyKESSignature L vkey period payload signature = kl_VerifySignedKES L vkey period payload signature"

definition External_OperationalCertificate :: "ExternalKESSigner option \<Rightarrow> KESSigningCertificate" where
  "External_OperationalCertificate s =
     (case s of None \<Rightarrow> zeroCertificate | Some s \<Rightarrow> cloneKESSigningCertificate (es_opCert s))"

definition External_CurrentPeriod :: "kes_lib \<Rightarrow> moment \<Rightarrow> ExternalKESSigner option \<Rightarrow> u64 result" where
  "External_CurrentPeriod L i s =
     (case s of
        None \<Rightarrow> Inl (Sentinel ErrSignerRequired)
      | Some s \<Rightarrow> currentRelativePeriodFor L (es_network s) (es_opCert s) (es_now s i))"

definition helper_invocation :: "ExternalKESSigner \<Rightarrow> u64 \<Rightarrow> bytes \<Rightarrow> helper_call" where
  "helper_invocation s period payload =
     \<lparr>hc_command = es_command s, hc_args = [itoa (uint period)], hc_stdin = payload,
       hc_env = [es_envPrefix s @ ''_KES_VKEY_HEX='' @ hex_EncodeToString (kc_KESVKey (es_opCert s)),
                 es_envPrefix s @ ''_KES_PERIOD='' @ itoa (uint period),
                 es_envPrefix s @ ''_KES_SIGNER_OP_CERT_PATH='' @ es_opCertPath s],
       hc_timeout = es_timeout s\<rparr>"

definition External_SignAt ::
  "kes_lib \<Rightarrow> helper \<Rightarrow> u64 \<Rightarrow> bytes \<Rightarrow> ExternalKESSigner option \<Rightarrow> SignedKESPayload result" where
  "External_SignAt L run period payload s =
     (case s of
        None \<Rightarrow> Inl (Sentinel ErrSignerRequired)
      | Some s \<Rightarrow> (case validateRelativeKESPeriodForNetwork L period (es_network s) of
          Some err \<Rightarrow> Inl err
        | None \<Rightarrow> (case run (helper_invocation s period payload) of
            HelperFailed err timedOut stderr \<Rightarrow>
              if timedOut then Inl (Errorf ''external KES signer timed out after %s'' [DurArg (es_timeout s)])
              else (let errText = strings_TrimSpace (string_of_bytes stderr)
                    in if errText \<noteq> []
                       then Inl (Errorf ''external KES signer: %w: %s'' [WrapArg err, StrArg errText])
                       else Inl (Errorf ''external KES signer: %w'' [WrapArg err]))
          | HelperOk stdout \<Rightarrow> (case ParseExternalKESSignature stdout of
              Inl err \<Rightarrow> Inl err
            | Inr signature \<Rightarrow>
                if \<not> VerifyKESSignature L (kc_KESVKey (es_opCert s)) period payload signature
                then Inl (ErrorNew ''external KES signer returned an invalid signature'')
                else Inr \<lparr>sp_VKey = cloneBytes (kc_KESVKey (es_opCert s)), sp_Period = period,
                       sp_Signature = signature\<rparr>))))"

definition External_Sign ::
  "kes_lib \<Rightarrow> helper \<Rightarrow> moment \<Rightarrow> bytes \<Rightarrow> ExternalKESSigner option \<Rightarrow> SignedKESPayload result" where
  "External_Sign L run i payload s =
     (case s of
        None \<Rightarrow> Inl (Sentinel ErrSignerRequired)
      | Some s \<Rightarrow> (case External_CurrentPeriod L i (Some s) of
          Inl err \<Rightarrow> Inl err
        | Inr period \<Rightarrow> External_SignAt L run period payload (Some s)))"

section \<open>What the KES library promises\<close>

text \<open>An update moves to the next period.\<close>

definition update_advances :: "kes_lib \<Rightarrow> bool" where
  "update_advances L = (\<forall>k k'. kl_Update L k = Inr k' \<longrightarrow> kk_Period k' = kk_Period k + 1)"

text \<open>
  A key-evolving signature scheme: \<open>genuine vk k\<close> says that \<open>k\<close> is an evolution of the secret
  key of \<open>vk\<close>. An update of a genuine key is genuine, a genuine key of depth \<open>d\<close> can be
  updated until its last of \<open>2\<^sup>d\<close> periods, it can sign at its own period, and what it signs
  there verifies.
\<close>

definition kes_scheme :: "kes_lib \<Rightarrow> (bytes \<Rightarrow> KesSecretKey \<Rightarrow> bool) \<Rightarrow> bool" where
  "kes_scheme L genuine =
     (update_advances L
      \<and> (\<forall>vk k k'. genuine vk k \<and> kl_Update L k = Inr k' \<longrightarrow> genuine vk k' \<and> kk_Depth k' = kk_Depth k)
      \<and> (\<forall>vk k. genuine vk k \<and> uint (kk_Period k) + 1 < 2 ^ unat (kk_Depth k) \<longrightarrow> (\<exists>k'. kl_Update L k = Inr k'))
      \<and> (\<forall>vk k m. genuine vk k \<longrightarrow> (\<exists>sig. kl_Sign L k (kk_Period k) m = Inr sig))
      \<and> (\<forall>vk k m sig. genuine vk k \<and> kl_Sign L k (kk_Period k) m = Inr sig \<longrightarrow>
           kl_VerifySignedKES L vk (kk_Period k) m sig))"

lemma kes_schemeD:
  assumes "kes_scheme L genuine"
  shows "update_advances L"
    and "genuine vk k \<Longrightarrow> kl_Update L k = Inr k' \<Longrightarrow> genuine vk k' \<and> kk_Depth k' = kk_Depth k"
    and "genuine vk k \<Longrightarrow> uint (kk_Period k) + 1 < 2 ^ unat (kk_Depth k) \<Longrightarrow> \<exists>k'. kl_Update L k = Inr k'"
    and "genuine vk k \<Longrightarrow> \<exists>sig. kl_Sign L k (kk_Period k) m = Inr sig"
    and "genuine vk k \<Longrightarrow> kl_Sign L k (kk_Period k) m = Inr sig \<Longrightarrow> kl_VerifySignedKES L vk (kk_Period k) m sig"
  using assms unfolding kes_scheme_def by blast+

section \<open>The update loop\<close>

lemma uint_succ: "(a :: u64) < b \<Longrightarrow> uint (a + 1) = uint a + 1"
proof -
  assume "a < b"
  then have "uint a + 1 < 2 ^ 64" using uint_lt2p [of b] by (simp add: word_less_def)
  then show ?thesis by (simp add: uint_word_ariths)
qed

lemma update_loop_stop: "\<not> kk_Period key < period \<Longrightarrow> update_loop L key period = Some (key, None)"
  by (simp add: update_loop.simps)

lemma update_loop_fail:
  "kk_Period key < period \<Longrightarrow> kl_Update L key = Inl err \<Longrightarrow> update_loop L key period = Some (key, Some err)"
  by (simp add: update_loop.simps)

lemma update_loop_next:
  "kk_Period key < period \<Longrightarrow> kl_Update L key = Inr key' \<Longrightarrow> update_loop L key period = update_loop L key' period"
  by (subst update_loop.simps) simp

text \<open>The loop returns, never moves back or past the period, and without an error ends at it.\<close>

lemma update_loop_total:
  assumes "update_advances L" "kk_Period key \<le> period"
  shows "\<exists>key' err. update_loop L key period = Some (key', err)
    \<and> kk_Period key \<le> kk_Period key' \<and> kk_Period key' \<le> period \<and> (err = None \<longleftrightarrow> kk_Period key' = period)"
  using assms(2)
proof (induction "nat (uint period - uint (kk_Period key))" arbitrary: key rule: less_induct)
  case less
  show ?case
  proof (cases "kk_Period key < period")
    case False
    then show ?thesis using less.prems by (simp add: update_loop_stop)
  next
    case True
    show ?thesis
    proof (cases "kl_Update L key")
      case (Inl err)
      then show ?thesis using True by (auto simp: update_loop_fail word_less_def word_le_def)
    next
      case (Inr nk)
      have n: "uint (kk_Period nk) = uint (kk_Period key) + 1"
        using assms(1) Inr uint_succ [OF True] by (simp add: update_advances_def)
      have "\<exists>key' err. update_loop L nk period = Some (key', err)
        \<and> kk_Period nk \<le> kk_Period key' \<and> kk_Period key' \<le> period \<and> (err = None \<longleftrightarrow> kk_Period key' = period)"
        using True n by (intro less.hyps) (simp_all add: word_less_def word_le_def)
      then show ?thesis
        using n unfolding update_loop_next [OF True Inr] word_le_def by fastforce
    qed
  qed
qed

text \<open>The loop keeps a key genuine, and takes it to every period its depth allows.\<close>

lemma update_loop_keeps:
  assumes "kes_scheme L genuine" "genuine vk key" "kk_Period key \<le> period" "update_loop L key period = Some (key', err)"
  shows "genuine vk key' \<and> kk_Depth key' = kk_Depth key"
  using assms(2-)
proof (induction "nat (uint period - uint (kk_Period key))" arbitrary: key rule: less_induct)
  case less
  show ?case
  proof (cases "kk_Period key < period")
    case False
    then show ?thesis using less.prems by (simp add: update_loop_stop)
  next
    case True
    show ?thesis
    proof (cases "kl_Update L key")
      case (Inl e)
      then show ?thesis using True less.prems by (simp add: update_loop_fail)
    next
      case (Inr nk)
      have g: "genuine vk nk" "kk_Depth nk = kk_Depth key" using kes_schemeD(2) [OF assms(1) less.prems(1) Inr] by simp_all
      have n: "uint (kk_Period nk) = uint (kk_Period key) + 1"
        using kes_schemeD(1) [OF assms(1)] Inr uint_succ [OF True] by (simp add: update_advances_def)
      have "genuine vk key' \<and> kk_Depth key' = kk_Depth nk"
        using True n g less.prems(3) update_loop_next [OF True Inr]
        by (intro less.hyps) (simp_all add: word_less_def word_le_def)
      then show ?thesis using g(2) by simp
    qed
  qed
qed

lemma update_loop_genuine:
  assumes "kes_scheme L genuine" "genuine vk key" "kk_Period key \<le> period" "uint period < 2 ^ unat (kk_Depth key)"
  shows "\<exists>key'. update_loop L key period = Some (key', None) \<and> genuine vk key'
    \<and> kk_Period key' = period \<and> kk_Depth key' = kk_Depth key"
  using assms(2-)
proof (induction "nat (uint period - uint (kk_Period key))" arbitrary: key rule: less_induct)
  case less
  show ?case
  proof (cases "kk_Period key < period")
    case False
    then show ?thesis using less.prems by (simp add: update_loop_stop)
  next
    case True
    then have "uint (kk_Period key) + 1 < 2 ^ unat (kk_Depth key)" using less.prems by (simp add: word_less_def)
    then obtain k' where k': "kl_Update L key = Inr k'"
      using kes_schemeD(3) [OF assms(1) less.prems(1)] by blast
    have g: "genuine vk k'" "kk_Depth k' = kk_Depth key" using kes_schemeD(2) [OF assms(1) less.prems(1) k'] by simp_all
    have n: "uint (kk_Period k') = uint (kk_Period key) + 1"
      using kes_schemeD(1) [OF assms(1)] k' uint_succ [OF True] by (simp add: update_advances_def)
    have "\<exists>key'. update_loop L k' period = Some (key', None) \<and> genuine vk key'
      \<and> kk_Period key' = period \<and> kk_Depth key' = kk_Depth k'"
      using True n g less.prems by (intro less.hyps) (simp_all add: word_less_def word_le_def)
    then show ?thesis using g(2) unfolding update_loop_next [OF True k'] by simp
  qed
qed

section \<open>The in-process signer signs correctly\<close>

abbreviation signer_max :: "kes_lib \<Rightarrow> KESSigner \<Rightarrow> u64" where
  "signer_max L s \<equiv> effectiveMaxKESEvolutions (ks_network s) (kl_CardanoKesDepth L)"

lemma validateRelative_None:
  "validateRelativeKESPeriodForNetwork L r p = None \<longleftrightarrow> r < effectiveMaxKESEvolutions p (kl_CardanoKesDepth L)"
  by (auto simp: validateRelativeKESPeriodForNetwork_def Let_def)

lemma effectiveMax_depth:
  assumes "r < effectiveMaxKESEvolutions p depth"
  shows "uint r < 2 ^ unat depth"
proof -
  have "uint r < uint (cryptoMaxKESEvolutions depth)"
    using assms effectiveMax_le [of p depth] by (simp add: word_less_def word_le_def)
  moreover have "uint (cryptoMaxKESEvolutions depth) \<le> 2 ^ unat depth"
    unfolding cryptoMax_value by (auto intro: power_increasing simp: word_le_nat_alt)
  ultimately show ?thesis by linarith
qed

lemma signAtLocked_total:
  assumes "update_advances L"
  shows "\<exists>r s'. signAtLocked L s period payload = Some (r, s') \<and> s'\<lparr>ks_kesKey := ks_kesKey s\<rparr> = s
    \<and> kk_Period (ks_kesKey s) \<le> kk_Period (ks_kesKey s')
    \<and> (case r of Inr x \<Rightarrow> sp_VKey x = kc_KESVKey (ks_opCert s) \<and> sp_Period x = period
         \<and> kk_Period (ks_kesKey s') = period \<and> period < signer_max L s | Inl _ \<Rightarrow> True)"
proof (cases "validateRelativeKESPeriodForNetwork L period (ks_network s)")
  case (Some err)
  then show ?thesis by (simp add: signAtLocked_def)
next
  case None
  show ?thesis
  proof (cases "period < kk_Period (ks_kesKey s)")
    case True
    then show ?thesis using None by (simp add: signAtLocked_def advanceTo_def)
  next
    case False
    then obtain key err where u: "update_loop L (ks_kesKey s) period = Some (key, err)"
      "kk_Period (ks_kesKey s) \<le> kk_Period key" "err = None \<longleftrightarrow> kk_Period key = period"
      using update_loop_total [OF assms, of "ks_kesKey s" period] by (auto simp: not_less)
    then show ?thesis
      using None False validateRelative_None [of L period "ks_network s"]
      by (cases err; cases "kl_Sign L key period payload") (simp_all add: signAtLocked_def advanceTo_def)
  qed
qed

text \<open>A signer whose key belongs to its certificate.\<close>

definition signer_ok :: "kes_lib \<Rightarrow> (bytes \<Rightarrow> KesSecretKey \<Rightarrow> bool) \<Rightarrow> KESSigner \<Rightarrow> bool" where
  "signer_ok L genuine s = (genuine (kc_KESVKey (ks_opCert s)) (ks_kesKey s)
     \<and> kk_Depth (ks_kesKey s) = kl_CardanoKesDepth L)"

lemma signAtLocked_genuine:
  assumes "kes_scheme L genuine" "signer_ok L genuine s"
    and "period < signer_max L s" "kk_Period (ks_kesKey s) \<le> period"
  shows "\<exists>sig key. signAtLocked L s period payload = Some (Inr \<lparr>sp_VKey = kc_KESVKey (ks_opCert s),
      sp_Period = period, sp_Signature = sig\<rparr>, s\<lparr>ks_kesKey := key\<rparr>)
    \<and> kl_VerifySignedKES L (kc_KESVKey (ks_opCert s)) period payload sig
    \<and> kk_Period key = period \<and> signer_ok L genuine (s\<lparr>ks_kesKey := key\<rparr>)"
proof -
  let ?vk = "kc_KESVKey (ks_opCert s)"
  have g: "genuine ?vk (ks_kesKey s)" "kk_Depth (ks_kesKey s) = kl_CardanoKesDepth L"
    using assms(2) by (simp_all add: signer_ok_def)
  have "uint period < 2 ^ unat (kk_Depth (ks_kesKey s))"
    using assms(3) unfolding g(2) by (rule effectiveMax_depth)
  then obtain key where u: "update_loop L (ks_kesKey s) period = Some (key, None)" "genuine ?vk key"
    "kk_Period key = period" "kk_Depth key = kk_Depth (ks_kesKey s)"
    using update_loop_genuine [OF assms(1) g(1) assms(4)] by blast
  obtain sig where sig: "kl_Sign L key period payload = Inr sig" "kl_VerifySignedKES L ?vk period payload sig"
    using kes_schemeD(4,5) [OF assms(1) u(2), of payload] unfolding u(3) by blast
  have v: "validateRelativeKESPeriodForNetwork L period (ks_network s) = None"
    using assms(3) by (simp add: validateRelative_None)
  have a: "advanceTo L s period = Some (None, s\<lparr>ks_kesKey := key\<rparr>)"
    using assms(4) u(1) by (simp add: advanceTo_def not_less [symmetric])
  have "signAtLocked L s period payload = Some (Inr \<lparr>sp_VKey = ?vk, sp_Period = period, sp_Signature = sig\<rparr>,
      s\<lparr>ks_kesKey := key\<rparr>)"
    using v a sig(1) by (simp add: signAtLocked_def)
  moreover have "signer_ok L genuine (s\<lparr>ks_kesKey := key\<rparr>)" using u g(2) by (simp add: signer_ok_def)
  ultimately show ?thesis using sig(2) u(3) by blast
qed

lemma signAtLocked_refuses:
  assumes "\<not> (period < signer_max L s \<and> kk_Period (ks_kesKey s) \<le> period)"
  shows "\<exists>err. signAtLocked L s period payload = Some (Inl err, s)"
proof (cases "validateRelativeKESPeriodForNetwork L period (ks_network s)")
  case None
  then have "period < kk_Period (ks_kesKey s)" using assms by (simp add: validateRelative_None not_le)
  then show ?thesis using None by (simp add: signAtLocked_def advanceTo_def)
qed (simp add: signAtLocked_def)

lemma KESSigner_signs_spec:
  assumes "kes_scheme L genuine" "signer_ok L genuine s"
  shows "\<exists>r s'. KESSigner_SignAt L period payload (Some s) = Some (r, Some s')
    \<and> signer_ok L genuine s' \<and> ks_opCert s' = ks_opCert s
    \<and> (if period < signer_max L s \<and> kk_Period (ks_kesKey s) \<le> period
       then kk_Period (ks_kesKey s') = period
         \<and> (\<exists>sig. r = Inr \<lparr>sp_VKey = kc_KESVKey (ks_opCert s), sp_Period = period, sp_Signature = sig\<rparr>
              \<and> VerifyKESSignature L (kc_KESVKey (ks_opCert s)) period payload sig)
       else s' = s \<and> (\<exists>err. r = Inl err))"
proof (cases "period < signer_max L s \<and> kk_Period (ks_kesKey s) \<le> period")
  case True
  then obtain sig key where "signAtLocked L s period payload = Some (Inr \<lparr>sp_VKey = kc_KESVKey (ks_opCert s),
      sp_Period = period, sp_Signature = sig\<rparr>, s\<lparr>ks_kesKey := key\<rparr>)"
    "kl_VerifySignedKES L (kc_KESVKey (ks_opCert s)) period payload sig"
    "kk_Period key = period" "signer_ok L genuine (s\<lparr>ks_kesKey := key\<rparr>)"
    using signAtLocked_genuine [OF assms] by blast
  then show ?thesis using True by (simp add: KESSigner_SignAt_def VerifyKESSignature_def)
next
  case False
  then obtain err where "signAtLocked L s period payload = Some (Inl err, s)"
    using signAtLocked_refuses by blast
  then show ?thesis using False assms(2) by (auto simp: KESSigner_SignAt_def)
qed

text \<open>
  C17: The in-process signer signs exactly at the periods left to it. With a key that belongs to
  its certificate, \<^verbatim>\<open>SignAt\<close> returns, and succeeds exactly when the period is below the effective
  maximum and not before the key's own: the signature then verifies under the certificate's
  key at that period, and the key stands at it, so that earlier periods are refused from then
  on. A refusal changes nothing.
\<close>

theorem KESSigner_signs:
  assumes "kes_scheme L genuine" "signer_ok L genuine s"
  shows "\<exists>r s'. KESSigner_SignAt L period payload (Some s) = Some (r, Some s')
    \<and> signer_ok L genuine s' \<and> ks_opCert s' = ks_opCert s
    \<and> (if period < signer_max L s \<and> kk_Period (ks_kesKey s) \<le> period
       then kk_Period (ks_kesKey s') = period
         \<and> (\<exists>sig. r = Inr \<lparr>sp_VKey = kc_KESVKey (ks_opCert s), sp_Period = period, sp_Signature = sig\<rparr>
              \<and> VerifyKESSignature L (kc_KESVKey (ks_opCert s)) period payload sig)
       else s' = s \<and> (\<exists>err. r = Inl err))"
  by (rule KESSigner_signs_spec [OF assms])

section \<open>The external signer returns verified signatures only\<close>

lemma External_SignAt_Inr:
  "External_SignAt L run period payload (Some s) = Inr x \<longleftrightarrow>
     period < effectiveMaxKESEvolutions (es_network s) (kl_CardanoKesDepth L)
     \<and> (\<exists>out sig. run (helper_invocation s period payload) = HelperOk out
          \<and> ParseExternalKESSignature out = Inr sig
          \<and> VerifyKESSignature L (kc_KESVKey (es_opCert s)) period payload sig
          \<and> x = \<lparr>sp_VKey = kc_KESVKey (es_opCert s), sp_Period = period, sp_Signature = sig\<rparr>)"
proof (cases "validateRelativeKESPeriodForNetwork L period (es_network s)")
  case (Some err)
  then have "\<not> period < effectiveMaxKESEvolutions (es_network s) (kl_CardanoKesDepth L)"
    using validateRelative_None [of L period "es_network s"] by auto
  then show ?thesis using Some by (simp add: External_SignAt_def)
next
  case None
  then have "period < effectiveMaxKESEvolutions (es_network s) (kl_CardanoKesDepth L)"
    by (simp add: validateRelative_None)
  then show ?thesis using None
    by (auto simp: External_SignAt_def Let_def split: helper_outcome.splits sum.splits)
qed

text \<open>
  C19: An external signature is returned exactly when the period is within the validity of the
  certificate, the helper (run with the period, the payload and the certificate's key) exits
  successfully and prints a hex or base64 text, and the decoded bytes verify under the
  certificate's KES key at that period; a nil signer, a failure or a signature that does not
  verify is an error.
\<close>

theorem External_SignAt_verified:
  "(External_SignAt L run period payload s' = Inr x \<longleftrightarrow>
     (\<exists>s out sig. s' = Some s
        \<and> period < effectiveMaxKESEvolutions (es_network s) (kl_CardanoKesDepth L)
        \<and> run (helper_invocation s period payload) = HelperOk out
        \<and> ParseExternalKESSignature out = Inr sig
        \<and> VerifyKESSignature L (kc_KESVKey (es_opCert s)) period payload sig
        \<and> x = \<lparr>sp_VKey = kc_KESVKey (es_opCert s), sp_Period = period, sp_Signature = sig\<rparr>))"
proof (cases s')
  case None
  then show ?thesis by (simp add: External_SignAt_def)
next
  case (Some s)
  then show ?thesis using External_SignAt_Inr by simp
qed

section \<open>Reading the helper's output\<close>

definition bytes_of_string :: "string \<Rightarrow> bytes" where
  "bytes_of_string s = map (\<lambda>c. word_of_nat (of_char c)) s"

lemma string_of_bytes_inverse [simp]: "string_of_bytes (bytes_of_string s) = s"
proof -
  have "char_of (unat (word_of_nat (of_char c) :: byte)) = c" for c :: char
  proof -
    have "of_char c < (256 :: nat)" by simp
    then have "unat (word_of_nat (of_char c) :: byte) = of_char c" by (simp add: unsigned_of_nat take_bit_nat_eq_self)
    then show ?thesis by simp
  qed
  then show ?thesis by (induction s) (simp_all add: string_of_bytes_def bytes_of_string_def)
qed

lemma strings_TrimSpace_last:
  assumes "strings_TrimSpace s = t" "t \<noteq> []"
  shows "last t \<noteq> CHR 0x0A \<and> last t \<noteq> CHR 0x0D"
proof -
  have n: "\<not> is_prefix_of e (rev t)" if "e \<in> {[CHR 0x0A], [CHR 0x0D]}" for e
  proof (rule trim_prefixes_first)
    show "trim_prefixes (map rev space_encodings) (rev (trim_prefixes space_encodings s)) = rev t"
      using assms(1) by (auto simp: strings_TrimSpace_def)
    show "e \<in> set (map rev space_encodings)" "e \<noteq> []" using that by (auto simp: space_encodings_def)
  qed
  obtain c u where "rev t = c # u" using assms(2) by (cases "rev t") auto
  moreover from this have "last t = c" by (metis last_snoc rev_rev_ident rev.simps(2))
  ultimately show ?thesis using n [of "[CHR 0x0A]"] n [of "[CHR 0x0D]"] by auto
qed

lemma Parse_nonempty: "ParseExternalKESSignature raw = Inr sig \<Longrightarrow> sig \<noteq> []"
  by (auto simp: ParseExternalKESSignature_def Let_def split: sum.splits if_splits)

text \<open>
  The helper's output is read faithfully: a non-empty signature printed in hexadecimal, or in
  base64 that is not also hexadecimal, is read back whatever white space surrounds it; an empty
  signature is never returned; and only output that is blank or neither encoding is refused.
\<close>

theorem ParseExternalKESSignature_roundtrip:
  assumes "set es \<subseteq> set space_encodings" "set es' \<subseteq> set space_encodings" "sig \<noteq> []"
  shows "ParseExternalKESSignature (bytes_of_string (concat es @ hex_EncodeToString sig @ concat es')) = Inr sig
    \<and> ((\<exists>e. hex_DecodeString (base64_encode sig) = Inl e) \<longrightarrow>
         ParseExternalKESSignature (bytes_of_string (concat es @ base64_encode sig @ concat es')) = Inr sig)
    \<and> (\<forall>raw x. ParseExternalKESSignature raw = Inr x \<longrightarrow> x \<noteq> [])
    \<and> (\<forall>raw e. ParseExternalKESSignature raw = Inl e \<longrightarrow>
         strings_TrimSpace (string_of_bytes raw) = []
         \<or> (\<exists>e1 e2. hex_DecodeString (strings_TrimSpace (string_of_bytes raw)) = Inl e1
              \<and> base64_DecodeString (strings_TrimSpace (string_of_bytes raw)) = Inl e2))"
proof -
  have hx: "strings_TrimSpace (concat es @ hex_EncodeToString sig @ concat es') = hex_EncodeToString sig"
    using assms by (intro strings_TrimSpace_padded hex_EncodeToString_printable [of _ sig]) simp_all
  have b: "strings_TrimSpace (concat es @ base64_encode sig @ concat es') = base64_encode sig"
    using assms by (intro strings_TrimSpace_padded base64_encode_chars [of _ sig, THEN conjunct1]) simp_all
  have "x \<noteq> []" if t: "strings_TrimSpace u \<noteq> []" "base64_DecodeString (strings_TrimSpace u) = Inr x" for u x
  proof -
    let ?t = "strings_TrimSpace u"
    have "last ?t \<in> set (filter (\<lambda>c. c \<noteq> CHR 0x0A \<and> c \<noteq> CHR 0x0D) ?t)"
      using t(1) strings_TrimSpace_last [OF refl t(1)] by simp
    then show ?thesis using t(2) base64_quanta_empty
      by (fastforce simp: base64_DecodeString_def split: option.splits)
  qed
  then have "strings_TrimSpace (string_of_bytes raw) = []
      \<or> (\<exists>e1 e2. hex_DecodeString (strings_TrimSpace (string_of_bytes raw)) = Inl e1
           \<and> base64_DecodeString (strings_TrimSpace (string_of_bytes raw)) = Inl e2)"
    if "ParseExternalKESSignature raw = Inl e" for raw e
    using that hex_DecodeString_empty
    by (auto simp: ParseExternalKESSignature_def Let_def split: sum.splits if_splits)
  then show ?thesis
    using hx b assms(3) Parse_nonempty
    by (auto simp: ParseExternalKESSignature_def Let_def hex_roundtrip base64_roundtrip)
qed

theorem ParseExternalKESSignature_roundtrip_witness:
  "ParseExternalKESSignature (bytes_of_string (hex_EncodeToString [0xBE, 0xEF] @ [CHR 0x0A])) = Inr [0xBE, 0xEF]"
  using ParseExternalKESSignature_roundtrip [of "[]" "[[CHR 0x0A]]" "[0xBE, 0xEF]"]
  by (simp add: space_encodings_def)

section \<open>A concrete signer\<close>

definition ex_genuine :: "bytes \<Rightarrow> KesSecretKey \<Rightarrow> bool" where
  "ex_genuine vk k = (take 1 vk = take 1 (kk_Data k) \<and> kk_Depth k = 2 \<and> kk_Period k \<le> 3)"

lemma ex_scheme: "kes_scheme ex_kes ex_genuine"
proof -
  have "k < 3" if "uint k + 1 < 4" for k :: u64 using that by (simp add: word_less_def)
  moreover have "k + 1 \<le> 3" if "k < 3" for k :: u64 using that uint_succ [OF that] by (simp add: word_less_def word_le_def)
  ultimately show ?thesis
    by (auto simp: kes_scheme_def update_advances_def ex_kes_def ex_genuine_def split: if_splits)
qed

definition ex_signer :: KESSigner where
  "ex_signer = \<lparr>ks_network = ex_preview, ks_kesKey = \<lparr>kk_Depth = 2, kk_Period = 0, kk_Data = [7, 1, 2]\<rparr>,
     ks_opCert = ex_cert, ks_now = (\<lambda>i. ex_now)\<rparr>"

lemma ex_signer_ok: "signer_ok ex_kes ex_genuine ex_signer"
  by (simp add: signer_ok_def ex_signer_def ex_genuine_def ex_kes_def ex_cert_def)

lemma ex_signer_max: "signer_max ex_kes ex_signer = 4"
  using ex_max by (simp add: ex_signer_def ex_kes_def)

theorem KESSigner_signs_witness:
  "\<exists>s' sig. KESSigner_SignAt ex_kes 2 [1] (Some ex_signer)
     = Some (Inr \<lparr>sp_VKey = replicate 32 7, sp_Period = 2, sp_Signature = sig\<rparr>, Some s')
     \<and> VerifyKESSignature ex_kes (replicate 32 7) 2 [1] sig \<and> kk_Period (ks_kesKey s') = 2"
proof -
  have "kc_KESVKey (ks_opCert ex_signer) = replicate 32 7" "kk_Period (ks_kesKey ex_signer) = 0"
    by (simp_all add: ex_signer_def ex_cert_def)
  then show ?thesis
    using KESSigner_signs [OF ex_scheme ex_signer_ok, of 2 "[1]"] ex_signer_max by auto
qed

end
