(* ===== verification/File_Signer.thy ===== *)
theory File_Signer
  imports Kes_Signer Topic_Properties
begin

text \<open>
  \<^verbatim>\<open>signer.go\<close>: the signer of DMQ payloads with keys from files. Its KES period function takes the
  moment of the call besides the context. The message ID is set by the library; that this is the
  computed ID is \<open>computed_id_law\<close>.
\<close>

section \<open>Model\<close>

record FileSignerConfig =
  fc_KESSigningKeyPath :: string
  fc_OperationalCertificatePath :: string
  fc_KESPeriod :: u64
  fc_KESPeriodFunc :: "(gocontext \<Rightarrow> moment \<Rightarrow> u64 result) option"

record FileSigner =
  fs_kesSKey :: KesSecretKey
  fs_kesVKey :: bytes
  fs_opCert :: OperationalCertificate
  fs_coldVKey :: bytes
  fs_defaultKESPeriod :: u64
  fs_kesPeriodFunc :: "(gocontext \<Rightarrow> moment \<Rightarrow> u64 result) option"

definition FileSigner_ValidateOperationalCertificate :: "kes_lib \<Rightarrow> FileSigner \<Rightarrow> go_error option" where
  "FileSigner_ValidateOperationalCertificate L s =
     (if length (oc_KESVerificationKey (fs_opCert s)) \<noteq> PublicKeySize
      then Some (ErrorNew ''opcert KES verification key must be 32 bytes'')
      else if length (fs_coldVKey s) \<noteq> PublicKeySize
      then Some (ErrorNew ''opcert cold verification key must be 32 bytes'')
      else if length (oc_ColdSignature (fs_opCert s)) \<noteq> SignatureSize
      then Some (ErrorNew ''opcert cold signature must be 64 bytes'')
      else if \<not> kl_Ed25519Verify L (fs_coldVKey s)
                  (opcert_body (oc_KESVerificationKey (fs_opCert s)) (oc_IssueNumber (fs_opCert s))
                     (oc_KESPeriod (fs_opCert s)))
                  (oc_ColdSignature (fs_opCert s))
      then Some (ErrorNew ''opcert cold signature verification failed'')
      else None)"

definition sizeError :: "string \<Rightarrow> nat \<Rightarrow> nat \<Rightarrow> go_error" where
  "sizeError what expected got = Errorf what [IntArg (int expected), IntArg (int got)]"

text \<open>The signer the loaded files make, with the certificate's start as the default period.\<close>

definition fileSignerOf :: "kes_lib \<Rightarrow> FileSignerConfig \<Rightarrow> LoadedKey \<Rightarrow> LoadedKey \<Rightarrow> FileSigner" where
  "fileSignerOf L cfg kesKey opCertKey =
     (let s = \<lparr>fs_kesSKey = \<lparr>kk_Depth = kl_CardanoKesDepth L, kk_Period = 0, kk_Data = cloneBytes (lk_SKey kesKey)\<rparr>,
            fs_kesVKey = cloneBytes (lk_VKey kesKey),
            fs_opCert = \<lparr>oc_KESVerificationKey = cloneBytes (lk_VKey opCertKey),
              oc_IssueNumber = lk_OpCertIssueNumber opCertKey, oc_KESPeriod = lk_OpCertKesPeriod opCertKey,
              oc_ColdSignature = cloneBytes (lk_OpCertSignature opCertKey)\<rparr>,
            fs_coldVKey = cloneBytes (lk_OpCertColdVKey opCertKey),
            fs_defaultKESPeriod = fc_KESPeriod cfg, fs_kesPeriodFunc = fc_KESPeriodFunc cfg\<rparr>
      in if fs_defaultKESPeriod s = 0 then s\<lparr>fs_defaultKESPeriod := oc_KESPeriod (fs_opCert s)\<rparr> else s)"

definition NewFileSigner :: "kes_lib \<Rightarrow> moment \<Rightarrow> FileSignerConfig \<Rightarrow> FileSigner result" where
  "NewFileSigner L i cfg =
     (if fc_KESSigningKeyPath cfg = [] then Inl (ErrorNew ''KES signing key path is required'')
      else if fc_OperationalCertificatePath cfg = [] then Inl (ErrorNew ''operational certificate path is required'')
      else case kl_LoadKeyFromFile L i (fc_KESSigningKeyPath cfg) of
        Inl err \<Rightarrow> Inl (Errorf ''load KES signing key: %w'' [WrapArg err])
      | Inr kesKey \<Rightarrow>
          if length (lk_SKey kesKey) \<noteq> kl_CardanoKesSecretKeySize L
          then Inl (sizeError ''invalid KES signing key size: expected %d got %d''
                 (kl_CardanoKesSecretKeySize L) (length (lk_SKey kesKey)))
          else (case kl_LoadKeyFromFile L i (fc_OperationalCertificatePath cfg) of
            Inl err \<Rightarrow> Inl (Errorf ''load operational certificate: %w'' [WrapArg err])
          | Inr opCertKey \<Rightarrow>
              if length (lk_VKey opCertKey) \<noteq> PublicKeySize
              then Inl (sizeError ''invalid opcert KES verification key size: expected %d got %d''
                     PublicKeySize (length (lk_VKey opCertKey)))
              else if length (lk_OpCertColdVKey opCertKey) \<noteq> PublicKeySize
              then Inl (sizeError ''invalid opcert cold verification key size: expected %d got %d''
                     PublicKeySize (length (lk_OpCertColdVKey opCertKey)))
              else if length (lk_OpCertSignature opCertKey) \<noteq> SignatureSize
              then Inl (sizeError ''invalid opcert cold signature size: expected %d got %d''
                     SignatureSize (length (lk_OpCertSignature opCertKey)))
              else if lk_VKey kesKey \<noteq> lk_VKey opCertKey
              then Inl (ErrorNew ''opcert KES verification key does not match KES signing key'')
              else
                (let s = fileSignerOf L cfg kesKey opCertKey
                 in case FileSigner_ValidateOperationalCertificate L s of Some err \<Rightarrow> Inl err | None \<Rightarrow> Inr s)))"

definition currentKESPeriod :: "moment \<Rightarrow> gocontext \<Rightarrow> DmqMessagePayload \<Rightarrow> FileSigner \<Rightarrow> u64 result" where
  "currentKESPeriod i ctx payload s =
     (if pl_KESPeriod payload \<noteq> 0 then Inr (pl_KESPeriod payload)
      else case fs_kesPeriodFunc s of
        Some f \<Rightarrow> f ctx i
      | None \<Rightarrow> Inr (fs_defaultKESPeriod s))"

definition relativeKESPeriod :: "u64 \<Rightarrow> u64 \<Rightarrow> u64 result" where
  "relativeKESPeriod period opCertStart =
     (if period < opCertStart
      then Inl (Errorf ''KES period %d is before opcert start period %d'' [IntArg (uint period), IntArg (uint opCertStart)])
      else Inr (period - opCertStart))"

definition evolveToRelativePeriod :: "kes_lib \<Rightarrow> u64 \<Rightarrow> FileSigner \<Rightarrow> (go_error option \<times> FileSigner) option" where
  "evolveToRelativePeriod L period s =
     (if kk_Period (fs_kesSKey s) > period
      then Some (Some (Errorf ''cannot evolve KES key backward: current period %d, requested %d''
                   [IntArg (uint (kk_Period (fs_kesSKey s))), IntArg (uint period)]), s)
      else map_option (\<lambda>(key, err). case err of
               Some err \<Rightarrow> (Some (Errorf ''update KES key to period %d: %w'' [IntArg (uint period), WrapArg err]), s)
             | None \<Rightarrow> (None, s\<lparr>fs_kesSKey := key\<rparr>))
             (update_loop L (fs_kesSKey s) period))"

definition PayloadSigningBytes :: "kes_lib \<Rightarrow> DmqMessagePayload \<Rightarrow> bytes result" where
  "PayloadSigningBytes L payload =
     (case kl_EncodePayload L (payload\<lparr>pl_MessageID := []\<rparr>) of
        Inl err \<Rightarrow> Inl (Errorf ''encode DMQ payload: %w'' [WrapArg err])
      | Inr payloadCBOR \<Rightarrow> (case kl_EncodeBytes L payloadCBOR of
          Inl err \<Rightarrow> Inl (Errorf ''wrap DMQ payload: %w'' [WrapArg err])
        | Inr wrapped \<Rightarrow> Inr wrapped))"

definition cloneOperationalCertificate :: "OperationalCertificate \<Rightarrow> OperationalCertificate" where
  "cloneOperationalCertificate src =
     \<lparr>oc_KESVerificationKey = cloneBytes (oc_KESVerificationKey src), oc_IssueNumber = oc_IssueNumber src,
       oc_KESPeriod = oc_KESPeriod src, oc_ColdSignature = cloneBytes (oc_ColdSignature src)\<rparr>"

definition FileSigner_Sign ::
  "kes_lib \<Rightarrow> moment \<Rightarrow> gocontext \<Rightarrow> string \<Rightarrow> DmqMessagePayload \<Rightarrow> FileSigner \<Rightarrow> (DmqMessage result \<times> FileSigner) option" where
  "FileSigner_Sign L i ctx topic payload s =
     (case currentKESPeriod i ctx payload s of
        Inl err \<Rightarrow> Some (Inl err, s)
      | Inr period \<Rightarrow>
          (let payload = payload\<lparr>pl_MessageID := [], pl_KESPeriod := period\<rparr> in
           if pl_ExpiresAt payload = 0 then Some (Inl (ErrorNew ''payload expiration is required''), s)
           else case relativeKESPeriod period (oc_KESPeriod (fs_opCert s)) of
             Inl err \<Rightarrow> Some (Inl err, s)
           | Inr relativePeriod \<Rightarrow> (case evolveToRelativePeriod L relativePeriod s of
               None \<Rightarrow> None
             | Some (Some err, s) \<Rightarrow> Some (Inl err, s)
             | Some (None, s) \<Rightarrow> (case PayloadSigningBytes L payload of
                 Inl err \<Rightarrow> Some (Inl err, s)
               | Inr wrappedPayload \<Rightarrow> (case kl_Sign L (fs_kesSKey s) relativePeriod wrappedPayload of
                   Inl err \<Rightarrow> Some (Inl (Errorf ''KES sign: %w'' [WrapArg err]), s)
                 | Inr sig \<Rightarrow>
                     (let msg = \<lparr>m_Payload = payload, m_KESSignature = sig,
                            m_OperationalCertificate = cloneOperationalCertificate (fs_opCert s),
                            m_ColdVerificationKey = cloneBytes (fs_coldVKey s)\<rparr>
                      in case kl_SetComputedMessageID L msg of
                           Inl err \<Rightarrow> Some (Inl err, s)
                         | Inr msg \<Rightarrow> Some (Inr msg, s)))))))"

definition FileSigner_KESVerificationKey :: "FileSigner \<Rightarrow> bytes" where
  "FileSigner_KESVerificationKey s = cloneBytes (fs_kesVKey s)"

definition FileSigner_OperationalCertificate :: "FileSigner \<Rightarrow> OperationalCertificate" where
  "FileSigner_OperationalCertificate s = cloneOperationalCertificate (fs_opCert s)"

definition FileSigner_ColdVerificationKey :: "FileSigner \<Rightarrow> bytes" where
  "FileSigner_ColdVerificationKey s = cloneBytes (fs_coldVKey s)"

definition FileSigner_Verify :: "kes_lib \<Rightarrow> DmqMessage option \<Rightarrow> bool result" where
  "FileSigner_Verify L msg =
     (case msg of
        None \<Rightarrow> Inl (ErrorNew ''message is nil'')
      | Some msg \<Rightarrow> (case PayloadSigningBytes L (m_Payload msg) of
          Inl err \<Rightarrow> Inl err
        | Inr wrappedPayload \<Rightarrow>
            (case relativeKESPeriod (pl_KESPeriod (m_Payload msg)) (oc_KESPeriod (m_OperationalCertificate msg)) of
               Inl err \<Rightarrow> Inl err
             | Inr relativePeriod \<Rightarrow>
                 Inr (kl_VerifySignedKES L (oc_KESVerificationKey (m_OperationalCertificate msg)) relativePeriod
                        wrappedPayload (m_KESSignature msg)))))"

definition ComputeMessageID :: "gouroboros \<Rightarrow> DmqMessagePayload \<Rightarrow> bytes result" where
  "ComputeMessageID g payload = g_ComputeDmqMessageID g payload"

section \<open>Laws of the library and states of the signer\<close>

text \<open>\<^verbatim>\<open>SetComputedMessageID\<close> sets the message ID that \<^verbatim>\<open>ComputeDmqMessageID\<close> yields.\<close>

definition computed_id_law :: "gouroboros \<Rightarrow> kes_lib \<Rightarrow> bool" where
  "computed_id_law g L = (\<forall>m. kl_SetComputedMessageID L m =
     (case ComputeMessageID g (m_Payload m) of Inl e \<Rightarrow> Inl e | Inr i \<Rightarrow> Inr (g_SetMessageID g i m)))"

definition file_signer_ok :: "kes_lib \<Rightarrow> (bytes \<Rightarrow> KesSecretKey \<Rightarrow> bool) \<Rightarrow> FileSigner \<Rightarrow> bool" where
  "file_signer_ok L genuine s = (genuine (oc_KESVerificationKey (fs_opCert s)) (fs_kesSKey s)
     \<and> kk_Depth (fs_kesSKey s) = kl_CardanoKesDepth L)"

lemma cloneOperationalCertificate_id [simp]: "cloneOperationalCertificate c = c"
  by (simp add: cloneOperationalCertificate_def)

lemma relativeKESPeriod_Inr:
  "relativeKESPeriod p start = Inr r \<longleftrightarrow> start \<le> p \<and> r = p - start"
  by (auto simp: relativeKESPeriod_def)

text \<open>The signed bytes do not depend on the message ID.\<close>

lemma PayloadSigningBytes_strip:
  assumes "strip_id m = strip_id m'"
  shows "PayloadSigningBytes L (m_Payload m) = PayloadSigningBytes L (m_Payload m')"
proof -
  have "(m_Payload m)\<lparr>pl_MessageID := []\<rparr> = (m_Payload m')\<lparr>pl_MessageID := []\<rparr>"
    using arg_cong [OF assms, of m_Payload] by (simp add: strip_id_def)
  then show ?thesis by (simp add: PayloadSigningBytes_def)
qed

lemma strip_id_parts:
  assumes "strip_id m = strip_id m'"
  shows "m_KESSignature m = m_KESSignature m'" "m_OperationalCertificate m = m_OperationalCertificate m'"
    "m_ColdVerificationKey m = m_ColdVerificationKey m'" "pl_KESPeriod (m_Payload m) = pl_KESPeriod (m_Payload m')"
    "pl_MessageBody (m_Payload m) = pl_MessageBody (m_Payload m')" "pl_ExpiresAt (m_Payload m) = pl_ExpiresAt (m_Payload m')"
  using arg_cong [OF assms, of m_KESSignature] arg_cong [OF assms, of m_OperationalCertificate]
    arg_cong [OF assms, of m_ColdVerificationKey] arg_cong [OF assms, of "\<lambda>m. pl_KESPeriod (m_Payload m)"]
    arg_cong [OF assms, of "\<lambda>m. pl_MessageBody (m_Payload m)"] arg_cong [OF assms, of "\<lambda>m. pl_ExpiresAt (m_Payload m)"]
  by (simp_all add: strip_id_def)

section \<open>Signed messages\<close>

text \<open>
  A message that carries the payload's body and expiry at an absolute KES period, the certificate
  and the cold key, its computed ID, and a signature that verifies.
\<close>

definition signed_message ::
  "gouroboros \<Rightarrow> kes_lib \<Rightarrow> OperationalCertificate \<Rightarrow> bytes \<Rightarrow> DmqMessagePayload \<Rightarrow> u64 \<Rightarrow> DmqMessage \<Rightarrow> bool" where
  "signed_message g L oc cold payload period m =
     (pl_MessageBody (m_Payload m) = pl_MessageBody payload \<and> pl_ExpiresAt (m_Payload m) = pl_ExpiresAt payload
      \<and> pl_KESPeriod (m_Payload m) = period \<and> m_OperationalCertificate m = oc \<and> m_ColdVerificationKey m = cold
      \<and> ComputeMessageID g (m_Payload m) = Inr (g_ID g m) \<and> FileSigner_Verify L (Some m) = Inr True)"

text \<open>The payload as it is signed, with its period and without an ID.\<close>

abbreviation stamped :: "DmqMessagePayload \<Rightarrow> u64 \<Rightarrow> DmqMessagePayload" where
  "stamped payload period \<equiv> payload\<lparr>pl_MessageID := [], pl_KESPeriod := period\<rparr>"

abbreviation unidentified :: "DmqMessagePayload \<Rightarrow> u64 \<Rightarrow> bytes \<Rightarrow> OperationalCertificate \<Rightarrow> bytes \<Rightarrow> DmqMessage" where
  "unidentified payload period sig oc cold \<equiv> \<lparr>m_Payload = stamped payload period, m_KESSignature = sig,
     m_OperationalCertificate = oc, m_ColdVerificationKey = cold\<rparr>"

lemma SetComputedMessageID_signed:
  assumes "message_id_laws g" "computed_id_law g L"
    and "ComputeMessageID g (stamped payload period) = Inr i"
    and "PayloadSigningBytes L (stamped payload period) = Inr b" "oc_KESPeriod oc \<le> period"
    and "kl_VerifySignedKES L (oc_KESVerificationKey oc) (period - oc_KESPeriod oc) b sig"
  shows "\<exists>m. kl_SetComputedMessageID L (unidentified payload period sig oc cold) = Inr m
    \<and> signed_message g L oc cold payload period m"
proof -
  let ?u = "unidentified payload period sig oc cold"
  let ?m = "g_SetMessageID g i ?u"
  have set: "kl_SetComputedMessageID L ?u = Inr ?m"
    using assms(2) [unfolded computed_id_law_def, THEN spec, of ?u] assms(3) by simp
  note st = message_id_lawsD(2) [OF assms(1), of i ?u]
  have "ComputeMessageID g (m_Payload ?m) = Inr (g_ID g ?m)"
    using assms(3) compute_strip_id [OF assms(1) st] message_id_lawsD(1) [OF assms(1), of i ?u]
    by (simp add: ComputeMessageID_def)
  moreover have "FileSigner_Verify L (Some ?m) = Inr True"
    using assms(4-6) PayloadSigningBytes_strip [OF st, of L] strip_id_parts [OF st]
    by (simp add: FileSigner_Verify_def relativeKESPeriod_def)
  ultimately show ?thesis using set strip_id_parts [OF st] by (simp add: signed_message_def)
qed

lemma SetComputedMessageID_fails:
  "computed_id_law g L \<Longrightarrow> ComputeMessageID g (m_Payload m) = Inl e \<Longrightarrow> kl_SetComputedMessageID L m = Inl e"
  by (simp add: computed_id_law_def)

section \<open>The file signer signs correctly\<close>

lemma evolve_total:
  assumes "update_advances L"
  shows "\<exists>err s'. evolveToRelativePeriod L period s = Some (err, s')
    \<and> (err \<noteq> None \<longrightarrow> s' = s) \<and> s'\<lparr>fs_kesSKey := fs_kesSKey s\<rparr> = s"
proof (cases "kk_Period (fs_kesSKey s) > period")
  case True
  then show ?thesis by (simp add: evolveToRelativePeriod_def)
next
  case False
  then obtain key err where "update_loop L (fs_kesSKey s) period = Some (key, err)"
    using update_loop_total [OF assms, of "fs_kesSKey s" period] not_less by blast
  then show ?thesis using False by (cases err) (simp_all add: evolveToRelativePeriod_def)
qed

lemma evolve_genuine:
  assumes "kes_scheme L genuine" "file_signer_ok L genuine s"
    and "kk_Period (fs_kesSKey s) \<le> period" "uint period < 2 ^ unat (kl_CardanoKesDepth L)"
  shows "\<exists>key. evolveToRelativePeriod L period s = Some (None, s\<lparr>fs_kesSKey := key\<rparr>)
    \<and> file_signer_ok L genuine (s\<lparr>fs_kesSKey := key\<rparr>) \<and> kk_Period key = period"
proof -
  let ?vk = "oc_KESVerificationKey (fs_opCert s)"
  have g: "genuine ?vk (fs_kesSKey s)" "kk_Depth (fs_kesSKey s) = kl_CardanoKesDepth L"
    using assms(2) by (simp_all add: file_signer_ok_def)
  have "uint period < 2 ^ unat (kk_Depth (fs_kesSKey s))" using assms(4) by (simp add: g(2))
  then obtain key where u: "update_loop L (fs_kesSKey s) period = Some (key, None)" "genuine ?vk key"
    "kk_Period key = period" "kk_Depth key = kk_Depth (fs_kesSKey s)"
    using update_loop_genuine [OF assms(1) g(1) assms(3)] by blast
  have "evolveToRelativePeriod L period s = Some (None, s\<lparr>fs_kesSKey := key\<rparr>)"
    using assms(3) u(1) by (simp add: evolveToRelativePeriod_def not_less [symmetric])
  moreover have "file_signer_ok L genuine (s\<lparr>fs_kesSKey := key\<rparr>)" using u g(2) by (simp add: file_signer_ok_def)
  ultimately show ?thesis using u(3) by blast
qed

text \<open>What a signature at a given period needs.\<close>

definition file_signable :: "gouroboros \<Rightarrow> kes_lib \<Rightarrow> FileSigner \<Rightarrow> DmqMessagePayload \<Rightarrow> u64 \<Rightarrow> bool" where
  "file_signable g L s payload period =
     (pl_ExpiresAt payload \<noteq> 0 \<and> oc_KESPeriod (fs_opCert s) \<le> period
      \<and> kk_Period (fs_kesSKey s) \<le> period - oc_KESPeriod (fs_opCert s)
      \<and> (\<exists>b. PayloadSigningBytes L (stamped payload period) = Inr b)
      \<and> (\<exists>i. ComputeMessageID g (stamped payload period) = Inr i))"

lemma FileSigner_Sign_signable:
  assumes "kes_scheme L genuine" "message_id_laws g" "computed_id_law g L" "file_signer_ok L genuine s"
    and "currentKESPeriod i ctx payload s = Inr period"
    and "uint (period - oc_KESPeriod (fs_opCert s)) < 2 ^ unat (kl_CardanoKesDepth L)"
    and "file_signable g L s payload period"
  shows "\<exists>m key. FileSigner_Sign L i ctx topic payload s = Some (Inr m, s\<lparr>fs_kesSKey := key\<rparr>)
    \<and> file_signer_ok L genuine (s\<lparr>fs_kesSKey := key\<rparr>)
    \<and> signed_message g L (fs_opCert s) (fs_coldVKey s) payload period m
    \<and> kk_Period key = period - oc_KESPeriod (fs_opCert s)"
proof -
  let ?oc = "fs_opCert s" and ?rel = "period - oc_KESPeriod (fs_opCert s)"
  obtain b j where f: "pl_ExpiresAt payload \<noteq> 0" "oc_KESPeriod ?oc \<le> period" "kk_Period (fs_kesSKey s) \<le> ?rel"
    "PayloadSigningBytes L (stamped payload period) = Inr b" "ComputeMessageID g (stamped payload period) = Inr j"
    using assms(7) by (auto simp: file_signable_def)
  obtain key where e: "evolveToRelativePeriod L ?rel s = Some (None, s\<lparr>fs_kesSKey := key\<rparr>)"
    "file_signer_ok L genuine (s\<lparr>fs_kesSKey := key\<rparr>)" "kk_Period key = ?rel"
    using evolve_genuine [OF assms(1,4) f(3) assms(6)] by blast
  have "genuine (oc_KESVerificationKey ?oc) key" using e(2) by (simp add: file_signer_ok_def)
  then obtain sig where sig: "kl_Sign L key ?rel b = Inr sig"
    "kl_VerifySignedKES L (oc_KESVerificationKey ?oc) ?rel b sig"
    using kes_schemeD(4,5) [OF assms(1), of _ key b] unfolding e(3) by blast
  obtain m where m: "kl_SetComputedMessageID L (unidentified payload period sig ?oc (fs_coldVKey s)) = Inr m"
    "signed_message g L ?oc (fs_coldVKey s) payload period m"
    using SetComputedMessageID_signed [OF assms(2,3) f(5,4,2) sig(2)] by blast
  have "FileSigner_Sign L i ctx topic payload s = Some (Inr m, s\<lparr>fs_kesSKey := key\<rparr>)"
    using assms(5) f(1,2,4) e(1) sig(1) m(1)
    by (simp add: FileSigner_Sign_def relativeKESPeriod_def Let_def not_less [symmetric])
  then show ?thesis using e(2,3) m(2) by blast
qed

lemma FileSigner_Sign_unsignable:
  assumes "update_advances L" "computed_id_law g L" "message_id_laws g"
    and "currentKESPeriod i ctx payload s = Inr period" "\<not> file_signable g L s payload period"
  shows "\<exists>e s'. FileSigner_Sign L i ctx topic payload s = Some (Inl e, s') \<and> s'\<lparr>fs_kesSKey := fs_kesSKey s\<rparr> = s"
proof -
  let ?oc = "fs_opCert s" and ?rel = "period - oc_KESPeriod (fs_opCert s)"
  obtain err s1 where e: "evolveToRelativePeriod L ?rel s = Some (err, s1)"
    "s1\<lparr>fs_kesSKey := fs_kesSKey s\<rparr> = s" "err \<noteq> None \<longrightarrow> s1 = s" using evolve_total [OF assms(1)] by blast
  have oc: "fs_opCert s1 = ?oc" using arg_cong [OF e(2), of fs_opCert] by simp
  consider "pl_ExpiresAt payload = 0" | "period < oc_KESPeriod ?oc"
    | "?rel < kk_Period (fs_kesSKey s)"
    | x where "PayloadSigningBytes L (stamped payload period) = Inl x"
    | x where "ComputeMessageID g (stamped payload period) = Inl x"
    using assms(5) unfolding file_signable_def not_le
    by (cases "PayloadSigningBytes L (stamped payload period)"; cases "ComputeMessageID g (stamped payload period)")
      (auto simp: not_le)
  then show ?thesis
  proof cases
    case 3
    then have "\<exists>x. evolveToRelativePeriod L ?rel s = Some (Some x, s)" by (simp add: evolveToRelativePeriod_def)
    then show ?thesis using assms(4) by (auto simp: FileSigner_Sign_def relativeKESPeriod_def Let_def)
  next
    case (4 x)
    then show ?thesis using assms(4) e
      by (cases err) (auto simp: FileSigner_Sign_def relativeKESPeriod_def Let_def)
  next
    case (5 x)
    then show ?thesis using assms(4) e SetComputedMessageID_fails [OF assms(2)]
      by (cases err; cases "PayloadSigningBytes L (stamped payload period)")
        (auto simp: FileSigner_Sign_def relativeKESPeriod_def Let_def split: sum.splits)
  qed (use assms(4) in \<open>auto simp: FileSigner_Sign_def relativeKESPeriod_def Let_def\<close>)
qed

lemma FileSigner_Sign_returns:
  assumes "update_advances L"
  shows "\<exists>x. FileSigner_Sign L i ctx topic payload s = Some x"
proof (cases "currentKESPeriod i ctx payload s")
  case (Inr period)
  let ?rel = "period - oc_KESPeriod (fs_opCert s)"
  obtain err s1 where "evolveToRelativePeriod L ?rel s = Some (err, s1)" using evolve_total [OF assms] by blast
  with Inr show ?thesis
    by (cases err) (simp_all add: FileSigner_Sign_def relativeKESPeriod_def Let_def split: sum.split)
qed (simp add: FileSigner_Sign_def)

lemma evolve_keeps:
  assumes "kes_scheme L genuine" "file_signer_ok L genuine s" "evolveToRelativePeriod L period s = Some (err, s')"
  shows "file_signer_ok L genuine s'"
proof (cases "kk_Period (fs_kesSKey s) > period")
  case True
  then show ?thesis using assms(2,3) by (simp add: evolveToRelativePeriod_def)
next
  case False
  obtain key e where u: "update_loop L (fs_kesSKey s) period = Some (key, e)"
    using assms(3) False by (cases "update_loop L (fs_kesSKey s) period") (auto simp: evolveToRelativePeriod_def)
  have "genuine (oc_KESVerificationKey (fs_opCert s)) key \<and> kk_Depth key = kk_Depth (fs_kesSKey s)"
    using update_loop_keeps [OF assms(1) _ _ u, of "oc_KESVerificationKey (fs_opCert s)"] assms(2) False
    by (simp add: file_signer_ok_def not_less)
  then show ?thesis using assms(2,3) False u by (cases e) (auto simp: evolveToRelativePeriod_def file_signer_ok_def)
qed

text \<open>Every return of \<^verbatim>\<open>Sign\<close> leaves the signer as it was or evolved.\<close>

lemma FileSigner_Sign_states:
  assumes "FileSigner_Sign L i ctx topic payload s = Some (r, s')"
  shows "s' = s \<or> (\<exists>rel err. evolveToRelativePeriod L rel s = Some (err, s'))"
proof (cases "currentKESPeriod i ctx payload s")
  case (Inr period)
  let ?rel = "period - oc_KESPeriod (fs_opCert s)"
  show ?thesis
  proof (cases "evolveToRelativePeriod L ?rel s")
    case None
    then show ?thesis using assms Inr
      by (auto simp: FileSigner_Sign_def relativeKESPeriod_def Let_def split: if_splits)
  next
    case (Some x)
    obtain err s1 where x: "x = (err, s1)" by (cases x)
    have "s' = s \<or> s' = s1"
      using assms Inr Some x
      by (cases err) (auto simp: FileSigner_Sign_def relativeKESPeriod_def Let_def split: if_splits sum.splits)
    then show ?thesis using Some x by blast
  qed
qed (use assms in \<open>simp add: FileSigner_Sign_def\<close>)

lemma evolve_reaches:
  assumes "update_advances L" "evolveToRelativePeriod L period s = Some (None, s')"
  shows "kk_Period (fs_kesSKey s) \<le> period \<and> kk_Period (fs_kesSKey s') = period \<and> s'\<lparr>fs_kesSKey := fs_kesSKey s\<rparr> = s"
proof (cases "kk_Period (fs_kesSKey s) > period")
  case False
  then obtain key err where "update_loop L (fs_kesSKey s) period = Some (key, err)" "err = None \<longleftrightarrow> kk_Period key = period"
    using update_loop_total [OF assms(1), of "fs_kesSKey s" period] not_less by blast
  then show ?thesis using assms(2) False by (cases err) (auto simp: evolveToRelativePeriod_def)
qed (use assms(2) in \<open>simp add: evolveToRelativePeriod_def\<close>)

lemma FileSigner_Sign_sound:
  assumes "kes_scheme L genuine" "message_id_laws g" "computed_id_law g L" "file_signer_ok L genuine s"
    and "currentKESPeriod i ctx payload s = Inr period"
    and sign: "FileSigner_Sign L i ctx topic payload s = Some (Inr m, s')"
  shows "file_signable g L s payload period \<and> kk_Period (fs_kesSKey s') = period - oc_KESPeriod (fs_opCert s)
    \<and> signed_message g L (fs_opCert s) (fs_coldVKey s) payload period m"
proof -
  let ?oc = "fs_opCert s" and ?rel = "period - oc_KESPeriod (fs_opCert s)"
  have sg: "file_signable g L s payload period"
    using FileSigner_Sign_unsignable [OF kes_schemeD(1) [OF assms(1)] assms(3,2,5), of topic] sign by force
  then obtain b j where f: "pl_ExpiresAt payload \<noteq> 0" "oc_KESPeriod ?oc \<le> period"
    "PayloadSigningBytes L (stamped payload period) = Inr b" "ComputeMessageID g (stamped payload period) = Inr j"
    by (auto simp: file_signable_def)
  obtain err s1 where e: "evolveToRelativePeriod L ?rel s = Some (err, s1)"
    using evolve_total [OF kes_schemeD(1) [OF assms(1)]] by blast
  note step = sign [unfolded FileSigner_Sign_def assms(5) relativeKESPeriod_def, simplified Let_def, simplified f(1,2)]
  have s1: "err = None" using step e f by (cases err) (simp_all add: not_less [symmetric])
  have oc: "fs_opCert s1 = ?oc" "fs_coldVKey s1 = fs_coldVKey s" "kk_Period (fs_kesSKey s1) = ?rel"
    using evolve_reaches [OF kes_schemeD(1) [OF assms(1)]] e s1
    by (metis FileSigner.select_convs(3) FileSigner.surjective FileSigner.update_convs(1),
        metis FileSigner.select_convs(4) FileSigner.surjective FileSigner.update_convs(1), metis)
  obtain sig where sig: "kl_Sign L (fs_kesSKey s1) ?rel b = Inr sig"
    using step e s1 f by (cases "kl_Sign L (fs_kesSKey s1) ?rel b") (simp_all add: not_less [symmetric])
  have "genuine (oc_KESVerificationKey ?oc) (fs_kesSKey s1)"
    using evolve_keeps [OF assms(1,4) e] oc(1) by (simp add: file_signer_ok_def)
  then have v: "kl_VerifySignedKES L (oc_KESVerificationKey ?oc) ?rel b sig"
    using kes_schemeD(5) [OF assms(1), of _ "fs_kesSKey s1" b sig] sig oc(3) by metis
  obtain m' where m': "kl_SetComputedMessageID L (unidentified payload period sig ?oc (fs_coldVKey s)) = Inr m'"
    "signed_message g L ?oc (fs_coldVKey s) payload period m'"
    using SetComputedMessageID_signed [OF assms(2,3) f(4,3,2) v] by blast
  have "m = m'" "s' = s1" using step e s1 f sig m'(1) oc by (simp_all add: not_less [symmetric])
  then show ?thesis using sg m'(2) oc(3) by simp
qed

text \<open>
  C16: The file signer produces valid messages. Once the KES period of a payload is resolved,
  \<^verbatim>\<open>Sign\<close> returns, and it can return a message only when the payload has an expiry, the period is
  not before the certificate's start nor before the key's own, and payload and ID can be
  encoded; it does so whenever the period is also within the key's depth. The message carries
  the body, the expiry, the absolute period, the certificate, the cold key and its computed ID,
  its signature passes \<^verbatim>\<open>Verify\<close>, and the key then stands at the relative period; nothing but
  the key ever changes, and it stays a key of the certificate.
\<close>

theorem FileSigner_signs:
  assumes "kes_scheme L genuine" "message_id_laws g" "computed_id_law g L" "file_signer_ok L genuine s"
    and "currentKESPeriod i ctx payload s = Inr period"
  shows "\<exists>r s'. FileSigner_Sign L i ctx topic payload s = Some (r, s')
    \<and> s'\<lparr>fs_kesSKey := fs_kesSKey s\<rparr> = s \<and> file_signer_ok L genuine s'
    \<and> (file_signable g L s payload period
       \<and> uint (period - oc_KESPeriod (fs_opCert s)) < 2 ^ unat (kl_CardanoKesDepth L) \<longrightarrow> (\<exists>m. r = Inr m))
    \<and> (case r of Inl _ \<Rightarrow> True
       | Inr m \<Rightarrow> file_signable g L s payload period
           \<and> kk_Period (fs_kesSKey s') = period - oc_KESPeriod (fs_opCert s)
           \<and> signed_message g L (fs_opCert s) (fs_coldVKey s) payload period m)"
proof -
  note adv = kes_schemeD(1) [OF assms(1)]
  obtain r s' where r: "FileSigner_Sign L i ctx topic payload s = Some (r, s')"
    using FileSigner_Sign_returns [OF adv] by (metis surj_pair)
  have "s'\<lparr>fs_kesSKey := fs_kesSKey s\<rparr> = s \<and> file_signer_ok L genuine s'"
    using FileSigner_Sign_states [OF r] evolve_total [OF adv] evolve_keeps [OF assms(1,4)] assms(4)
    by (metis FileSigner.surjective FileSigner.update_convs(1) option.inject prod.inject)
  moreover have "\<exists>m. r = Inr m" if "file_signable g L s payload period"
    "uint (period - oc_KESPeriod (fs_opCert s)) < 2 ^ unat (kl_CardanoKesDepth L)"
    using FileSigner_Sign_signable [OF assms that(2,1), of topic] r by auto
  ultimately show ?thesis
    using r FileSigner_Sign_sound [OF assms] by (auto split: sum.split)
qed

text \<open>
  C22: Signing always returns: as long as an update of a KES key moves to the next period, the
  update loops of both in-process signers end for every key, period and payload, also when the
  library fails on the way.
\<close>

theorem signing_returns:
  assumes "update_advances L"
  shows "(\<exists>x. FileSigner_Sign L i ctx topic payload s = Some x)
    \<and> (\<exists>x. KESSigner_SignAt L period bytes k = Some x) \<and> (\<exists>x. KESSigner_Sign L i bytes k = Some x)"
proof -
  have "\<exists>x. FileSigner_Sign L i ctx topic payload s = Some x" by (rule FileSigner_Sign_returns [OF assms])
  moreover have at: "\<exists>x. signAtLocked L k p b = Some x" for k p b using signAtLocked_total [OF assms] by blast
  then have "\<exists>x. KESSigner_SignAt L period bytes k = Some x"
    by (cases k) (simp_all add: KESSigner_SignAt_def)
  moreover have "\<exists>x. KESSigner_Sign L i bytes k = Some x"
    using at by (cases k) (simp_all add: KESSigner_Sign_def split: sum.split)
  ultimately show ?thesis by blast
qed

section \<open>Construction\<close>

text \<open>The loaded certificate is well-formed and signed by its cold key.\<close>

definition opcert_key_ok :: "kes_lib \<Rightarrow> LoadedKey \<Rightarrow> bool" where
  "opcert_key_ok L c = (length (lk_VKey c) = 32 \<and> length (lk_OpCertColdVKey c) = 32 \<and> length (lk_OpCertSignature c) = 64
     \<and> kl_Ed25519Verify L (lk_OpCertColdVKey c)
         (opcert_body (lk_VKey c) (lk_OpCertIssueNumber c) (lk_OpCertKesPeriod c)) (lk_OpCertSignature c))"

lemma fileSignerOf_fields:
  "fs_kesSKey (fileSignerOf L cfg k c) = \<lparr>kk_Depth = kl_CardanoKesDepth L, kk_Period = 0, kk_Data = lk_SKey k\<rparr>"
  "fs_opCert (fileSignerOf L cfg k c) = \<lparr>oc_KESVerificationKey = lk_VKey c, oc_IssueNumber = lk_OpCertIssueNumber c,
     oc_KESPeriod = lk_OpCertKesPeriod c, oc_ColdSignature = lk_OpCertSignature c\<rparr>"
  "fs_coldVKey (fileSignerOf L cfg k c) = lk_OpCertColdVKey c"
  "fs_kesPeriodFunc (fileSignerOf L cfg k c) = fc_KESPeriodFunc cfg"
  "fs_defaultKESPeriod (fileSignerOf L cfg k c) = (if fc_KESPeriod cfg = 0 then lk_OpCertKesPeriod c else fc_KESPeriod cfg)"
  by (simp_all add: fileSignerOf_def Let_def)

lemma fileSignerOf_valid:
  "FileSigner_ValidateOperationalCertificate L (fileSignerOf L cfg k c) = None \<longleftrightarrow> opcert_key_ok L c"
  by (simp add: FileSigner_ValidateOperationalCertificate_def opcert_key_ok_def fileSignerOf_fields)

lemma NewFileSigner_loaded:
  assumes "fc_KESSigningKeyPath cfg \<noteq> []" "fc_OperationalCertificatePath cfg \<noteq> []"
    and "kl_LoadKeyFromFile L i (fc_KESSigningKeyPath cfg) = Inr k"
    and "kl_LoadKeyFromFile L i (fc_OperationalCertificatePath cfg) = Inr c"
  shows "NewFileSigner L i cfg = Inr s \<longleftrightarrow> length (lk_SKey k) = kl_CardanoKesSecretKeySize L
    \<and> lk_VKey k = lk_VKey c \<and> opcert_key_ok L c \<and> s = fileSignerOf L cfg k c"
proof -
  have c: "length (lk_VKey c) = 32 \<and> length (lk_OpCertColdVKey c) = 32 \<and> length (lk_OpCertSignature c) = 64"
    if "opcert_key_ok L c" using that by (simp add: opcert_key_ok_def)
  show ?thesis
    using assms c fileSignerOf_valid [of L cfg k c]
    by (cases "FileSigner_ValidateOperationalCertificate L (fileSignerOf L cfg k c)")
      (auto simp: NewFileSigner_def Let_def)
qed

text \<open>
  A file signer is made exactly from files that belong together: a signing key of its size,
  whose verification key is the one of a certificate with a valid cold-key signature; the key
  starts at period zero and the default period is the certificate's when none is configured.
  A key of another certificate is refused, here with an error that is not
  \<^verbatim>\<open>ErrKESKeyMismatch\<close>, while the KES signer refuses it with that sentinel.
\<close>

theorem credentials_must_match:
  assumes "fc_KESSigningKeyPath cfg \<noteq> []" "fc_OperationalCertificatePath cfg \<noteq> []"
    and "kl_LoadKeyFromFile L i (fc_KESSigningKeyPath cfg) = Inr k"
    and "kl_LoadKeyFromFile L i (fc_OperationalCertificatePath cfg) = Inr c"
    and "length (lk_SKey k) = kl_CardanoKesSecretKeySize L" "opcert_key_ok L c"
  shows "(NewFileSigner L i cfg = Inr s \<longleftrightarrow> lk_VKey k = lk_VKey c \<and> s = fileSignerOf L cfg k c)
    \<and> (lk_VKey k \<noteq> lk_VKey c \<longrightarrow>
         (\<exists>e. NewFileSigner L i cfg = Inl e \<and> \<not> errors_is e ErrKESKeyMismatch)
         \<and> (length (lk_VKey k) = 32 \<and> \<not> paramsMissing p \<longrightarrow>
              NewKESSignerWithClock L timeNow i (fc_KESSigningKeyPath cfg) (fc_OperationalCertificatePath cfg) p now
                = Inl (Sentinel ErrKESKeyMismatch)))"
proof -
  have c: "length (lk_VKey c) = 32" "length (lk_OpCertColdVKey c) = 32" "length (lk_OpCertSignature c) = 64"
    using assms(6) by (simp_all add: opcert_key_ok_def)
  have "\<exists>e. NewFileSigner L i cfg = Inl e \<and> \<not> errors_is e ErrKESKeyMismatch" if "lk_VKey k \<noteq> lk_VKey c"
    using assms(1-5) c that by (simp add: NewFileSigner_def)
  moreover have "NewKESSignerWithClock L timeNow i (fc_KESSigningKeyPath cfg) (fc_OperationalCertificatePath cfg) p now
      = Inl (Sentinel ErrKESKeyMismatch)" if "lk_VKey k \<noteq> lk_VKey c" "length (lk_VKey k) = 32" "\<not> paramsMissing p"
  proof -
    have "LoadKESSigningKey L i (fc_KESSigningKeyPath cfg)
        = Inr \<lparr>sk_SecretKeyBytes = lk_SKey k, sk_VerificationKey = lk_VKey k\<rparr>"
      using assms(3,5) that(2) by (simp add: LoadKESSigningKey_def)
    moreover have "\<exists>cert. LoadOperationalCertificate L i (fc_OperationalCertificatePath cfg) = Inr cert
        \<and> kc_KESVKey cert = lk_VKey c"
      using assms(4,6) by (simp add: LoadOperationalCertificate_def ValidateOperationalCertificate_def opcert_key_ok_def)
    ultimately show ?thesis using that(1,3) by (auto simp: NewKESSignerWithClock_def Let_def)
  qed
  ultimately show ?thesis using NewFileSigner_loaded [OF assms(1-4), of s] assms(5,6) by blast
qed

section \<open>A concrete file signer\<close>

definition ex_file_config :: FileSignerConfig where
  "ex_file_config = \<lparr>fc_KESSigningKeyPath = ''kes.skey'', fc_OperationalCertificatePath = ''opcert'', fc_KESPeriod = 0,
     fc_KESPeriodFunc = Some (\<lambda>ctx i. CurrentKESPeriodFor ex_preview ex_now)\<rparr>"

definition ex_kes_key :: LoadedKey where
  "ex_kes_key = \<lparr>lk_SKey = [7, 1, 2], lk_VKey = replicate 32 7, lk_OpCertIssueNumber = 0, lk_OpCertKesPeriod = 0,
     lk_OpCertSignature = [], lk_OpCertColdVKey = []\<rparr>"

definition ex_opcert_key :: LoadedKey where
  "ex_opcert_key = \<lparr>lk_SKey = [], lk_VKey = replicate 32 7, lk_OpCertIssueNumber = 3,
     lk_OpCertKesPeriod = 1, lk_OpCertSignature = replicate 64 5, lk_OpCertColdVKey = replicate 32 5\<rparr>"

definition ex_file_signer :: FileSigner where
  "ex_file_signer = fileSignerOf ex_kes ex_file_config ex_kes_key ex_opcert_key"

lemma ex_loaded:
  "kl_LoadKeyFromFile ex_kes i (fc_KESSigningKeyPath ex_file_config) = Inr ex_kes_key"
  "kl_LoadKeyFromFile ex_kes i (fc_OperationalCertificatePath ex_file_config) = Inr ex_opcert_key"
  "fc_KESSigningKeyPath ex_file_config \<noteq> []" "fc_OperationalCertificatePath ex_file_config \<noteq> []"
  "length (lk_SKey ex_kes_key) = kl_CardanoKesSecretKeySize ex_kes" "opcert_key_ok ex_kes ex_opcert_key"
  by (simp_all add: ex_kes_def ex_load_def ex_file_config_def ex_kes_key_def ex_opcert_key_def opcert_key_ok_def)

theorem credentials_must_match_witness: "NewFileSigner ex_kes 0 ex_file_config = Inr ex_file_signer"
  using credentials_must_match [OF ex_loaded(3,4,1,2,5,6), where s = ex_file_signer]
  by (simp add: ex_file_signer_def ex_kes_key_def ex_opcert_key_def)

lemma ex_file_signer_ok: "file_signer_ok ex_kes ex_genuine ex_file_signer"
  by (simp add: file_signer_ok_def ex_file_signer_def fileSignerOf_fields ex_genuine_def ex_opcert_key_def ex_kes_key_def)
    (simp add: ex_kes_def)

lemma ex_computed_id: "computed_id_law ex_gouroboros ex_kes"
  by (simp add: computed_id_law_def ex_gouroboros_def ex_kes_def ComputeMessageID_def)

definition ex_payload :: DmqMessagePayload where
  "ex_payload = \<lparr>pl_MessageID = [], pl_MessageBody = [9], pl_KESPeriod = 0, pl_ExpiresAt = 100\<rparr>"

lemma ex_file_period: "currentKESPeriod i ctx ex_payload ex_file_signer = Inr 1"
  by (simp add: currentKESPeriod_def ex_payload_def ex_file_signer_def fileSignerOf_fields ex_file_config_def ex_now_period)

lemma ex_signable: "file_signable ex_gouroboros ex_kes ex_file_signer ex_payload 1"
  by (simp add: file_signable_def ex_payload_def ex_file_signer_def fileSignerOf_fields ex_opcert_key_def
      PayloadSigningBytes_def ComputeMessageID_def ex_kes_def ex_gouroboros_def)

lemma ex_file_depth:
  "uint ((1 :: u64) - oc_KESPeriod (fs_opCert ex_file_signer)) < 2 ^ unat (kl_CardanoKesDepth ex_kes)"
  by (simp add: ex_file_signer_def fileSignerOf_fields ex_opcert_key_def)

theorem FileSigner_signs_witness:
  "\<exists>m s'. FileSigner_Sign ex_kes 0 \<lparr>ctx_id = 0, ctx_Err = None\<rparr> ''t'' ex_payload ex_file_signer = Some (Inr m, s')
     \<and> FileSigner_Verify ex_kes (Some m) = Inr True \<and> pl_KESPeriod (m_Payload m) = 1"
  using FileSigner_signs [OF ex_scheme ex_laws ex_computed_id ex_file_signer_ok ex_file_period,
      of 0 "\<lparr>ctx_id = 0, ctx_Err = None\<rparr>" "''t''"] ex_signable ex_file_depth
  by (auto simp: signed_message_def)

theorem signing_returns_witness:
  "update_advances ex_kes \<and> (\<exists>x. KESSigner_SignAt ex_kes 3 [1] (Some ex_signer) = Some x)"
  using signing_returns [OF kes_schemeD(1) [OF ex_scheme], where period = 3 and bytes = "[1]" and k = "Some ex_signer"]
    kes_schemeD(1) [OF ex_scheme] by simp

end
