(* ===== verification/Kes_Provider.thy ===== *)
theory Kes_Provider
  imports File_Signer
begin

text \<open>
  KES signing providers and their use (\<^verbatim>\<open>kes_payload.go\<close> and the second half of
  \<^verbatim>\<open>reloading.go\<close>): the \<^verbatim>\<open>KESSigningProvider\<close> interface, its implementations in the package, the
  reloadable one, and the adapter that makes a provider a signer of DMQ messages. An interface
  value is a datatype with one constructor per dynamic type; a nil pointer inside an interface is
  \<open>None\<close>. Implementations outside the package are \<open>CustomProvider\<close>, by the results of their
  methods.
\<close>

unbundle bit_operations_syntax

section \<open>Nil interfaces\<close>

datatype reflect_Kind =
    KInvalid | KBool | KInt | KInt8 | KInt16 | KInt32 | KInt64 | KUint | KUint8 | KUint16 | KUint32 | KUint64
  | KUintptr | KFloat32 | KFloat64 | KComplex64 | KComplex128 | KArray | KChan | KFunc | KInterface | KMap
  | KPointer | KSlice | KString | KStruct | KUnsafePointer

text \<open>An \<^verbatim>\<open>any\<close>: nil, or a value with its kind and whether that value is nil.\<close>

datatype go_any = NilInterface | GoValue reflect_Kind bool

fun isNilInterface :: "go_any \<Rightarrow> bool" where
  "isNilInterface NilInterface = True"
| "isNilInterface (GoValue kind isNil) =
     (if kind \<in> {KChan, KFunc, KInterface, KMap, KPointer, KSlice} then isNil else False)"

section \<open>Providers\<close>

datatype KESSigningProvider =
    NilProvider
  | KESSignerPtr "KESSigner option"
  | ExternalPtr "ExternalKESSigner option"
  | CustomProvider reflect_Kind "moment \<Rightarrow> u64 result" KESSigningCertificate "u64 \<Rightarrow> bytes \<Rightarrow> SignedKESPayload result"
      "moment \<Rightarrow> bytes \<Rightarrow> SignedKESPayload result"
  | NilReloading
  | ReloadingPtr "(moment \<Rightarrow> go_error + KESSigningProvider) option" KESSigningProvider

fun provider_any :: "KESSigningProvider \<Rightarrow> go_any" where
  "provider_any NilProvider = NilInterface"
| "provider_any (KESSignerPtr s) = GoValue KPointer (s = None)"
| "provider_any (ExternalPtr s) = GoValue KPointer (s = None)"
| "provider_any (CustomProvider kind _ _ _ _) = GoValue kind False"
| "provider_any NilReloading = GoValue KPointer True"
| "provider_any (ReloadingPtr _ _) = GoValue KPointer False"

text \<open>\<^verbatim>\<open>provider == nil || isNilInterface(provider)\<close>.\<close>

definition provider_nil :: "KESSigningProvider \<Rightarrow> bool" where
  "provider_nil p = (p = NilProvider \<or> isNilInterface (provider_any p))"

fun ActiveProvider :: "KESSigningProvider \<Rightarrow> KESSigningProvider" where
  "ActiveProvider (ReloadingPtr factory provider) = provider"
| "ActiveProvider p = NilProvider"

text \<open>
  The methods, by dynamic type. Those of the reloading provider delegate to its active provider. On
  a nil interface no method can be called; the callers below check for it first.
\<close>

fun Provider_OperationalCertificate :: "KESSigningProvider \<Rightarrow> KESSigningCertificate" where
  "Provider_OperationalCertificate (KESSignerPtr s) = KESSigner_OperationalCertificate s"
| "Provider_OperationalCertificate (ExternalPtr s) = External_OperationalCertificate s"
| "Provider_OperationalCertificate (CustomProvider _ _ cert _ _) = cert"
| "Provider_OperationalCertificate (ReloadingPtr factory provider) =
     (if provider_nil provider then zeroCertificate else Provider_OperationalCertificate provider)"
| "Provider_OperationalCertificate _ = zeroCertificate"

fun Provider_CurrentPeriod :: "kes_lib \<Rightarrow> moment \<Rightarrow> KESSigningProvider \<Rightarrow> u64 result" where
  "Provider_CurrentPeriod L i (KESSignerPtr s) = KESSigner_CurrentPeriod L i s"
| "Provider_CurrentPeriod L i (ExternalPtr s) = External_CurrentPeriod L i s"
| "Provider_CurrentPeriod L i (CustomProvider _ current _ _ _) = current i"
| "Provider_CurrentPeriod L i (ReloadingPtr factory provider) =
     (if provider_nil provider then Inl (Sentinel ErrSignerRequired) else Provider_CurrentPeriod L i provider)"
| "Provider_CurrentPeriod L i _ = Inl (Sentinel ErrSignerRequired)"

fun Provider_SignAt ::
  "kes_lib \<Rightarrow> helper \<Rightarrow> u64 \<Rightarrow> bytes \<Rightarrow> KESSigningProvider \<Rightarrow> (SignedKESPayload result \<times> KESSigningProvider) option" where
  "Provider_SignAt L run period payload (KESSignerPtr s) =
     map_option (map_prod id KESSignerPtr) (KESSigner_SignAt L period payload s)"
| "Provider_SignAt L run period payload (ExternalPtr s) =
     Some (External_SignAt L run period payload s, ExternalPtr s)"
| "Provider_SignAt L run period payload (CustomProvider k current cert signAt sign) =
     Some (signAt period payload, CustomProvider k current cert signAt sign)"
| "Provider_SignAt L run period payload (ReloadingPtr factory provider) =
     (if provider_nil provider then Some (Inl (Sentinel ErrSignerRequired), ReloadingPtr factory provider)
      else map_option (map_prod id (ReloadingPtr factory)) (Provider_SignAt L run period payload provider))"
| "Provider_SignAt L run period payload p = Some (Inl (Sentinel ErrSignerRequired), p)"

fun Provider_Sign ::
  "kes_lib \<Rightarrow> helper \<Rightarrow> moment \<Rightarrow> bytes \<Rightarrow> KESSigningProvider \<Rightarrow> (SignedKESPayload result \<times> KESSigningProvider) option" where
  "Provider_Sign L run i payload (KESSignerPtr s) =
     map_option (map_prod id KESSignerPtr) (KESSigner_Sign L i payload s)"
| "Provider_Sign L run i payload (ExternalPtr s) =
     Some (External_Sign L run i payload s, ExternalPtr s)"
| "Provider_Sign L run i payload (CustomProvider k current cert signAt sign) =
     Some (sign i payload, CustomProvider k current cert signAt sign)"
| "Provider_Sign L run i payload (ReloadingPtr factory provider) =
     (if provider_nil provider then Some (Inl (Sentinel ErrSignerRequired), ReloadingPtr factory provider)
      else map_option (map_prod id (ReloadingPtr factory)) (Provider_Sign L run i payload provider))"
| "Provider_Sign L run i payload p = Some (Inl (Sentinel ErrSignerRequired), p)"

section \<open>Reloading providers\<close>

text \<open>\<^verbatim>\<open>Reload\<close>: the factory runs outside the lock, the swap inside.\<close>

fun Provider_Reload :: "moment \<Rightarrow> KESSigningProvider \<Rightarrow> go_error option \<times> KESSigningProvider" where
  "Provider_Reload i (ReloadingPtr factory provider) =
     (case factory of
        None \<Rightarrow> (Some (ErrorNew ''dmq reloading KES signing provider factory is required''), ReloadingPtr factory provider)
      | Some f \<Rightarrow> (case f i of
          Inl err \<Rightarrow> (Some err, ReloadingPtr factory provider)
        | Inr next \<Rightarrow>
            if isNilInterface (provider_any next)
            then (Some (ErrorNew ''dmq reloading KES signing provider factory returned nil provider''),
                  ReloadingPtr factory provider)
            else (None, ReloadingPtr factory next)))"
| "Provider_Reload i p = (Some (Sentinel ErrSignerRequired), p)"

definition NewReloadingKESSigningProvider ::
  "moment \<Rightarrow> (moment \<Rightarrow> KESSigningProvider result) option \<Rightarrow> KESSigningProvider result" where
  "NewReloadingKESSigningProvider i factory =
     (case Provider_Reload i (ReloadingPtr factory NilProvider) of
        (Some err, s) \<Rightarrow> Inl err
      | (None, s) \<Rightarrow> Inr s)"

text \<open>A failed constructor returns a nil pointer beside its error, which the caller drops.\<close>

definition NewReloadingKESSignerWithClock ::
  "kes_lib \<Rightarrow> clock \<Rightarrow> moment \<Rightarrow> string \<Rightarrow> string \<Rightarrow> NetworkParams \<Rightarrow> clock option \<Rightarrow> KESSigningProvider result" where
  "NewReloadingKESSignerWithClock L timeNow i kesKeyPath opCertPath params now =
     NewReloadingKESSigningProvider i (Some (\<lambda>j.
       map_sum id (\<lambda>s. KESSignerPtr (Some s)) (NewKESSignerWithClock L timeNow j kesKeyPath opCertPath params now)))"

definition NewReloadingKESSigner ::
  "kes_lib \<Rightarrow> clock \<Rightarrow> moment \<Rightarrow> string \<Rightarrow> string \<Rightarrow> NetworkParams \<Rightarrow> KESSigningProvider result" where
  "NewReloadingKESSigner L timeNow i kesKeyPath opCertPath params =
     NewReloadingKESSignerWithClock L timeNow i kesKeyPath opCertPath params (Some timeNow)"

definition NewReloadingExternalKESSignerFromConfig ::
  "kes_lib \<Rightarrow> clock \<Rightarrow> moment \<Rightarrow> ExternalKESSignerConfig \<Rightarrow> KESSigningProvider result" where
  "NewReloadingExternalKESSignerFromConfig L timeNow i cfg =
     NewReloadingKESSigningProvider i (Some (\<lambda>j.
       map_sum id (\<lambda>s. ExternalPtr (Some s)) (NewExternalKESSignerFromConfig L timeNow j cfg)))"

definition NewReloadingExternalKESSignerWithClock ::
  "kes_lib \<Rightarrow> clock \<Rightarrow> moment \<Rightarrow> string \<Rightarrow> string \<Rightarrow> NetworkParams \<Rightarrow> duration \<Rightarrow> clock option \<Rightarrow> KESSigningProvider result" where
  "NewReloadingExternalKESSignerWithClock L timeNow i command opCertPath params timeout now =
     NewReloadingExternalKESSignerFromConfig L timeNow i \<lparr>ec_Command = command, ec_OperationalCertificatePath = opCertPath,
       ec_Network = params, ec_Timeout = timeout, ec_Now = now, ec_EnvPrefix = []\<rparr>"

definition NewReloadingExternalKESSigner ::
  "kes_lib \<Rightarrow> clock \<Rightarrow> moment \<Rightarrow> string \<Rightarrow> string \<Rightarrow> NetworkParams \<Rightarrow> duration \<Rightarrow> KESSigningProvider result" where
  "NewReloadingExternalKESSigner L timeNow i command opCertPath params timeout =
     NewReloadingExternalKESSignerWithClock L timeNow i command opCertPath params timeout (Some timeNow)"

section \<open>Signing DMQ messages with a provider\<close>

text \<open>
  The body of \<^verbatim>\<open>KESSigningProviderSigner.Sign\<close> on the provider it uses, over the provider's three
  methods.
\<close>

definition sign_with ::
  "kes_lib \<Rightarrow> (moment \<Rightarrow> 'p \<Rightarrow> u64 result) \<Rightarrow> ('p \<Rightarrow> KESSigningCertificate)
   \<Rightarrow> (u64 \<Rightarrow> bytes \<Rightarrow> 'p \<Rightarrow> (SignedKESPayload result \<times> 'p) option)
   \<Rightarrow> moment \<Rightarrow> DmqMessagePayload \<Rightarrow> 'p \<Rightarrow> (DmqMessage result \<times> 'p) option" where
  "sign_with L currentPeriod certificate signAt i payload provider =
     (if pl_ExpiresAt payload = 0 then Some (Inl (ErrorNew ''dmq payload expiration is required''), provider)
      else case currentPeriod i provider of
        Inl err \<Rightarrow> Some (Inl err, provider)
      | Inr relPeriod \<Rightarrow>
          (let cert = certificate provider in
           if relPeriod > NOT 0 - kc_KESPeriod cert
           then Some (Inl (Errorf ''KES period overflow: op cert period %d plus relative period %d''
                  [IntArg (uint (kc_KESPeriod cert)), IntArg (uint relPeriod)]), provider)
           else
             (let payload = payload\<lparr>pl_MessageID := [], pl_KESPeriod := kc_KESPeriod cert + relPeriod\<rparr>
              in case PayloadSigningBytes L payload of
                Inl err \<Rightarrow> Some (Inl err, provider)
              | Inr signingBytes \<Rightarrow> (case signAt relPeriod signingBytes provider of
                  None \<Rightarrow> None
                | Some (Inl err, provider) \<Rightarrow> Some (Inl (Errorf ''KES sign: %w'' [WrapArg err]), provider)
                | Some (Inr sg, provider) \<Rightarrow>
                    if sp_VKey sg \<noteq> kc_KESVKey cert then Some (Inl (Sentinel ErrKESKeyMismatch), provider)
                    else if sp_Period sg \<noteq> relPeriod
                    then Some (Inl (Errorf ''KES signer returned relative period %d for requested relative period %d''
                           [IntArg (uint (sp_Period sg)), IntArg (uint relPeriod)]), provider)
                    else
                      (let msg = \<lparr>m_Payload = payload, m_KESSignature = cloneBytes (sp_Signature sg),
                             m_OperationalCertificate = \<lparr>oc_KESVerificationKey = cloneBytes (kc_KESVKey cert),
                               oc_IssueNumber = kc_IssueNumber cert, oc_KESPeriod = kc_KESPeriod cert,
                               oc_ColdSignature = cloneBytes (kc_Signature cert)\<rparr>,
                             m_ColdVerificationKey = cloneBytes (kc_ColdVKey cert)\<rparr>
                       in case kl_SetComputedMessageID L msg of
                            Inl err \<Rightarrow> Some (Inl (Errorf ''compute dmq message id: %w'' [WrapArg err]), provider)
                          | Inr msg \<Rightarrow> Some (Inr msg, provider))))))"

text \<open>The provider in use: a reloading provider is resolved once, so that one message is signed by one provider.\<close>

fun has_ActiveProvider :: "KESSigningProvider \<Rightarrow> bool" where
  "has_ActiveProvider (ReloadingPtr _ _) = True"
| "has_ActiveProvider NilReloading = True"
| "has_ActiveProvider _ = False"

definition snapshot :: "KESSigningProvider \<Rightarrow> KESSigningProvider" where
  "snapshot provider = (if has_ActiveProvider provider then ActiveProvider provider else provider)"

fun put_back :: "KESSigningProvider \<Rightarrow> KESSigningProvider \<Rightarrow> KESSigningProvider" where
  "put_back (ReloadingPtr factory _) p = ReloadingPtr factory p"
| "put_back NilReloading p = NilReloading"
| "put_back _ p = p"

definition KESSigningProviderSigner_Sign ::
  "kes_lib \<Rightarrow> helper \<Rightarrow> moment \<Rightarrow> gocontext \<Rightarrow> string \<Rightarrow> DmqMessagePayload \<Rightarrow> KESSigningProvider
   \<Rightarrow> (DmqMessage result \<times> KESSigningProvider) option" where
  "KESSigningProviderSigner_Sign L run i ctx topic payload provider0 =
     (let provider = snapshot provider0 in
      if provider_nil provider then Some (Inl (Sentinel ErrSignerRequired), provider0)
      else map_option (map_prod id (put_back provider0))
             (sign_with L (Provider_CurrentPeriod L) Provider_OperationalCertificate (Provider_SignAt L run) i payload provider))"

definition BuildSignedMessage ::
  "kes_lib \<Rightarrow> helper \<Rightarrow> moment \<Rightarrow> gocontext \<Rightarrow> KESSigningProvider \<Rightarrow> string \<Rightarrow> bytes \<Rightarrow> u32
   \<Rightarrow> (DmqMessage result \<times> KESSigningProvider) option" where
  "BuildSignedMessage L run i ctx provider topic body expiresAt =
     KESSigningProviderSigner_Sign L run i ctx topic
       \<lparr>pl_MessageID = [], pl_MessageBody = cloneBytes body, pl_KESPeriod = 0, pl_ExpiresAt = expiresAt\<rparr> provider"

section \<open>The provider contract\<close>

text \<open>
  What the adapter relies on: \<^verbatim>\<open>SignAt\<close> returns, keeps the certificate, and what it returns is a
  signature of the payload under the certificate's key at the requested period.
\<close>

locale kes_provider =
  fixes L :: kes_lib
    and ok :: "'p \<Rightarrow> bool"
    and current :: "moment \<Rightarrow> 'p \<Rightarrow> u64 result"
    and cert :: "'p \<Rightarrow> KESSigningCertificate"
    and signAt :: "u64 \<Rightarrow> bytes \<Rightarrow> 'p \<Rightarrow> (SignedKESPayload result \<times> 'p) option"
  assumes returns: "ok p \<Longrightarrow> \<exists>r p'. signAt k b p = Some (r, p') \<and> ok p' \<and> cert p' = cert p"
    and sound: "ok p \<Longrightarrow> signAt k b p = Some (Inr x, p') \<Longrightarrow>
      sp_VKey x = kc_KESVKey (cert p) \<and> sp_Period x = k \<and> kl_VerifySignedKES L (kc_KESVKey (cert p)) k b (sp_Signature x)"
begin

abbreviation opcert :: "'p \<Rightarrow> OperationalCertificate" where
  "opcert p \<equiv> \<lparr>oc_KESVerificationKey = kc_KESVKey (cert p), oc_IssueNumber = kc_IssueNumber (cert p),
     oc_KESPeriod = kc_KESPeriod (cert p), oc_ColdSignature = kc_Signature (cert p)\<rparr>"

lemma sign_with_early:
  assumes "pl_ExpiresAt payload = 0 \<or> (\<exists>e. current i p = Inl e)
    \<or> (\<exists>r. current i p = Inr r \<and> \<not> uint (kc_KESPeriod (cert p)) + uint r < 2 ^ 64)"
  shows "\<exists>e. sign_with L current cert signAt i payload p = Some (Inl e, p)"
  using assms by (auto simp: sign_with_def Let_def u64_overflow_guard [simplified] split: sum.split)

lemma sign_with_signs:
  assumes "ok p" "message_id_laws g" "computed_id_law g L"
    and "pl_ExpiresAt payload \<noteq> 0" "current i p = Inr r" "uint (kc_KESPeriod (cert p)) + uint r < 2 ^ 64"
  shows "\<exists>x p'. sign_with L current cert signAt i payload p = Some (x, p') \<and> ok p' \<and> cert p' = cert p
    \<and> (case x of Inl _ \<Rightarrow> True
       | Inr m \<Rightarrow> signed_message g L (opcert p) (kc_ColdVKey (cert p)) payload (kc_KESPeriod (cert p) + r) m)"
proof -
  let ?c = "cert p" and ?k = "kc_KESPeriod (cert p) + r"
  have k: "uint ?k = uint (kc_KESPeriod ?c) + uint r" using assms(6) by (rule uint_plus_no_wrap)
  have no: "\<not> r > NOT 0 - kc_KESPeriod ?c" using assms(6) unfolding u64_overflow_guard by simp
  have le: "kc_KESPeriod ?c \<le> ?k" using k by (simp add: word_le_def)
  have rel: "?k - kc_KESPeriod ?c = r" by simp
  show ?thesis
  proof (cases "PayloadSigningBytes L (stamped payload ?k)")
    case (Inl e)
    then show ?thesis using assms(1) no by (simp add: sign_with_def assms(4,5) Let_def)
  next
    case (Inr b)
    obtain y p' where s: "signAt r b p = Some (y, p')" "ok p'" "cert p' = ?c" using returns [OF assms(1)] by blast
    show ?thesis
    proof (cases y)
      case (Inl e)
      then show ?thesis using s Inr no by (simp add: sign_with_def assms(4,5) Let_def)
    next
      case (Inr x)
      have x: "sp_VKey x = kc_KESVKey ?c" "sp_Period x = r" "kl_VerifySignedKES L (kc_KESVKey ?c) r b (sp_Signature x)"
        using sound [OF assms(1)] s(1) Inr by blast+
      let ?u = "unidentified payload ?k (sp_Signature x) (opcert p) (kc_ColdVKey ?c)"
      have id: "sign_with L current cert signAt i payload p = (case kl_SetComputedMessageID L ?u of
          Inl err \<Rightarrow> Some (Inl (Errorf ''compute dmq message id: %w'' [WrapArg err]), p') | Inr m \<Rightarrow> Some (Inr m, p'))"
        using s(1) Inr \<open>PayloadSigningBytes L (stamped payload ?k) = Inr b\<close> no x(1,2)
        by (simp add: sign_with_def assms(4,5) Let_def)
      show ?thesis
      proof (cases "ComputeMessageID g (stamped payload ?k)")
        case (Inl e)
        then have "kl_SetComputedMessageID L ?u = Inl e" by (intro SetComputedMessageID_fails [OF assms(3)]) simp
        then show ?thesis using id s by simp
      next
        case (Inr j)
        have "\<exists>m. kl_SetComputedMessageID L ?u = Inr m
            \<and> signed_message g L (opcert p) (kc_ColdVKey ?c) payload ?k m"
          using SetComputedMessageID_signed [OF assms(2,3) Inr \<open>PayloadSigningBytes L (stamped payload ?k) = Inr b\<close>,
              of "opcert p"] le rel x(3) by simp
        then show ?thesis using id s by auto
      qed
    qed
  qed
qed

end

section \<open>The implementations keep the contract\<close>

definition kes_signer_ok :: "kes_lib \<Rightarrow> (bytes \<Rightarrow> KesSecretKey \<Rightarrow> bool) \<Rightarrow> KESSigner option \<Rightarrow> bool" where
  "kes_signer_ok L genuine s =
     (kes_scheme L genuine \<and> (case s of None \<Rightarrow> True | Some k \<Rightarrow> signer_ok L genuine k))"

interpretation kes_impl: kes_provider L "kes_signer_ok L genuine" "KESSigner_CurrentPeriod L"
  KESSigner_OperationalCertificate "KESSigner_SignAt L" for L genuine
proof
  fix s k b
  assume ok: "kes_signer_ok L genuine s"
  show "\<exists>r s'. KESSigner_SignAt L k b s = Some (r, s') \<and> kes_signer_ok L genuine s'
      \<and> KESSigner_OperationalCertificate s' = KESSigner_OperationalCertificate s"
  proof (cases s)
    case None
    then show ?thesis using ok by (simp add: KESSigner_SignAt_def)
  next
    case (Some q)
    then obtain r q' where "KESSigner_SignAt L k b (Some q) = Some (r, Some q')" "signer_ok L genuine q'"
      "ks_opCert q' = ks_opCert q" using ok KESSigner_signs_spec [of L genuine q k b] by (auto simp: kes_signer_ok_def)
    then show ?thesis using ok Some by (simp add: kes_signer_ok_def KESSigner_OperationalCertificate_def)
  qed
next
  fix s k b x s'
  assume ok: "kes_signer_ok L genuine s" and r: "KESSigner_SignAt L k b s = Some (Inr x, s')"
  then obtain q where q: "s = Some q" by (cases s) (auto simp: KESSigner_SignAt_def)
  then show "sp_VKey x = kc_KESVKey (KESSigner_OperationalCertificate s) \<and> sp_Period x = k
      \<and> kl_VerifySignedKES L (kc_KESVKey (KESSigner_OperationalCertificate s)) k b (sp_Signature x)"
    using ok r KESSigner_signs_spec [of L genuine q k b]
    by (auto simp: kes_signer_ok_def KESSigner_OperationalCertificate_def VerifyKESSignature_def split: if_splits)
qed

interpretation external_impl: kes_provider L "\<lambda>_. True" "External_CurrentPeriod L"
  External_OperationalCertificate "\<lambda>k b s. Some (External_SignAt L run k b s, s)" for L run
proof
  fix s k b x s'
  assume r: "Some (External_SignAt L run k b s, s) = Some (Inr x, s')"
  then obtain q where "s = Some q" by (cases s) (auto simp: External_SignAt_def)
  then show "sp_VKey x = kc_KESVKey (External_OperationalCertificate s) \<and> sp_Period x = k
      \<and> kl_VerifySignedKES L (kc_KESVKey (External_OperationalCertificate s)) k b (sp_Signature x)"
    using r by (auto simp: External_SignAt_Inr External_OperationalCertificate_def VerifyKESSignature_def)
qed simp

text \<open>A provider whose parts keep the contract; of a foreign one this is what has to be asked.\<close>

fun provider_ok :: "kes_lib \<Rightarrow> (bytes \<Rightarrow> KesSecretKey \<Rightarrow> bool) \<Rightarrow> KESSigningProvider \<Rightarrow> bool" where
  "provider_ok L genuine (KESSignerPtr s) = kes_signer_ok L genuine s"
| "provider_ok L genuine (CustomProvider _ _ cert signAt _) =
     (\<forall>k b x. signAt k b = Inr x \<longrightarrow> sp_VKey x = kc_KESVKey cert \<and> sp_Period x = k
        \<and> kl_VerifySignedKES L (kc_KESVKey cert) k b (sp_Signature x))"
| "provider_ok L genuine (ReloadingPtr _ provider) = provider_ok L genuine provider"
| "provider_ok L genuine _ = True"

lemma provider_nil_keeps:
  "Provider_SignAt L run k b p = Some (r, p') \<Longrightarrow> provider_nil p' = provider_nil p"
  by (cases p) (auto simp: provider_nil_def KESSigner_SignAt_def split: if_splits option.splits)

lemma Provider_SignAt_ok:
  "provider_ok L genuine p \<Longrightarrow> \<exists>r p'. Provider_SignAt L run k b p = Some (r, p') \<and> provider_ok L genuine p'
     \<and> Provider_OperationalCertificate p' = Provider_OperationalCertificate p"
proof (induction p)
  case (KESSignerPtr s)
  then show ?case using kes_impl.returns [of L genuine s k b] by auto
next
  case (ReloadingPtr f p)
  then obtain r p' where p': "Provider_SignAt L run k b p = Some (r, p')" "provider_ok L genuine p'"
    "Provider_OperationalCertificate p' = Provider_OperationalCertificate p" by auto
  then show ?case using ReloadingPtr.prems provider_nil_keeps [OF p'(1)] by simp
qed simp_all

lemma Provider_SignAt_sound:
  "provider_ok L genuine p \<Longrightarrow> Provider_SignAt L run k b p = Some (Inr x, p') \<Longrightarrow>
   sp_VKey x = kc_KESVKey (Provider_OperationalCertificate p) \<and> sp_Period x = k
   \<and> kl_VerifySignedKES L (kc_KESVKey (Provider_OperationalCertificate p)) k b (sp_Signature x)"
proof (induction p arbitrary: p')
  case (KESSignerPtr s)
  then show ?case using kes_impl.sound [of L genuine s k b x] by auto
next
  case (ExternalPtr s)
  then show ?case using external_impl.sound [of L run k b s x] by auto
next
  case (ReloadingPtr f p)
  then show ?case by (auto split: if_splits)
qed auto

interpretation dispatch: kes_provider L "provider_ok L genuine" "Provider_CurrentPeriod L"
  Provider_OperationalCertificate "Provider_SignAt L run" for L genuine run
  by unfold_locales (use Provider_SignAt_ok Provider_SignAt_sound in blast)+

section \<open>Messages signed through a provider\<close>

abbreviation opcert_of :: "KESSigningCertificate \<Rightarrow> OperationalCertificate" where
  "opcert_of c \<equiv> \<lparr>oc_KESVerificationKey = kc_KESVKey c, oc_IssueNumber = kc_IssueNumber c,
     oc_KESPeriod = kc_KESPeriod c, oc_ColdSignature = kc_Signature c\<rparr>"

lemma provider_ok_snapshot: "provider_ok L genuine p \<Longrightarrow> provider_ok L genuine (snapshot p)"
  by (cases p) (simp_all add: snapshot_def)

lemma provider_ok_put_back: "provider_ok L genuine q \<Longrightarrow> provider_ok L genuine (put_back p q)"
  by (cases p) simp_all

lemma dispatch_sign_with:
  assumes "provider_ok L genuine q" "message_id_laws g" "computed_id_law g L"
  shows "\<exists>r q'. sign_with L (Provider_CurrentPeriod L) Provider_OperationalCertificate (Provider_SignAt L run) i payload q
      = Some (r, q') \<and> provider_ok L genuine q'
    \<and> (case r of Inl _ \<Rightarrow> True
       | Inr m \<Rightarrow> pl_ExpiresAt payload \<noteq> 0 \<and> (\<exists>rel. Provider_CurrentPeriod L i q = Inr rel
           \<and> uint (kc_KESPeriod (Provider_OperationalCertificate q)) + uint rel < 2 ^ 64
           \<and> signed_message g L (opcert_of (Provider_OperationalCertificate q))
               (kc_ColdVKey (Provider_OperationalCertificate q)) payload
               (kc_KESPeriod (Provider_OperationalCertificate q) + rel) m))"
proof (cases "pl_ExpiresAt payload = 0 \<or> (\<exists>e. Provider_CurrentPeriod L i q = Inl e)
    \<or> (\<exists>r. Provider_CurrentPeriod L i q = Inr r
         \<and> \<not> uint (kc_KESPeriod (Provider_OperationalCertificate q)) + uint r < 2 ^ 64)")
  case True
  then show ?thesis using dispatch.sign_with_early [OF True] assms(1) by force
next
  case False
  then obtain r where r: "pl_ExpiresAt payload \<noteq> 0" "Provider_CurrentPeriod L i q = Inr r"
    "uint (kc_KESPeriod (Provider_OperationalCertificate q)) + uint r < 2 ^ 64"
    by (cases "Provider_CurrentPeriod L i q") auto
  then show ?thesis using dispatch.sign_with_signs [OF assms r, where run = run] by (fastforce split: sum.splits)
qed

lemma KESSigningProviderSigner_spec:
  assumes "provider_ok L genuine p" "message_id_laws g" "computed_id_law g L"
  shows "\<exists>r p'. KESSigningProviderSigner_Sign L run i ctx topic payload p = Some (r, p') \<and> provider_ok L genuine p'
    \<and> (provider_nil (snapshot p) \<longrightarrow> r = Inl (Sentinel ErrSignerRequired) \<and> p' = p)
    \<and> (case r of Inl _ \<Rightarrow> True
       | Inr m \<Rightarrow> (let c = Provider_OperationalCertificate (snapshot p)
            in pl_ExpiresAt payload \<noteq> 0 \<and> (\<exists>rel. Provider_CurrentPeriod L i (snapshot p) = Inr rel
                 \<and> uint (kc_KESPeriod c) + uint rel < 2 ^ 64
                 \<and> signed_message g L (opcert_of c) (kc_ColdVKey c) payload (kc_KESPeriod c + rel) m)))"
proof (cases "provider_nil (snapshot p)")
  case True
  then show ?thesis using assms(1) by (simp add: KESSigningProviderSigner_Sign_def)
next
  case False
  obtain r q' where q: "sign_with L (Provider_CurrentPeriod L) Provider_OperationalCertificate (Provider_SignAt L run)
      i payload (snapshot p) = Some (r, q')" "provider_ok L genuine q'"
    "case r of Inl _ \<Rightarrow> True
       | Inr m \<Rightarrow> pl_ExpiresAt payload \<noteq> 0 \<and> (\<exists>rel. Provider_CurrentPeriod L i (snapshot p) = Inr rel
           \<and> uint (kc_KESPeriod (Provider_OperationalCertificate (snapshot p))) + uint rel < 2 ^ 64
           \<and> signed_message g L (opcert_of (Provider_OperationalCertificate (snapshot p)))
               (kc_ColdVKey (Provider_OperationalCertificate (snapshot p))) payload
               (kc_KESPeriod (Provider_OperationalCertificate (snapshot p)) + rel) m)"
    using dispatch_sign_with [OF provider_ok_snapshot [OF assms(1)] assms(2,3)] by blast
  show ?thesis
    using q False provider_ok_put_back [OF q(2), of p]
    by (simp add: KESSigningProviderSigner_Sign_def Let_def split: sum.splits)
qed


lemma ex_provider_ok: "provider_ok ex_kes ex_genuine (ReloadingPtr None (KESSignerPtr (Some ex_signer)))"
  using ex_scheme ex_signer_ok by (simp add: kes_signer_ok_def)


end
