(* ===== verification/Reloading.thy ===== *)
theory Reloading
  imports Kes_Provider
begin

text \<open>
  The first half of \<^verbatim>\<open>reloading.go\<close>, the \<^verbatim>\<open>Signer\<close> interface and what publishing relies on. The
  contract of everything that can be reloaded is the locale \<open>reloadable\<close>, the contract of
  everything that signs messages is \<open>message_signer\<close>. In the option over a result, \<open>None\<close>
  also stands for a nil dereference.
\<close>

section \<open>Signers\<close>

datatype SignerValue =
    NilSigner
  | FileSignerPtr "FileSigner option"
  | ProviderSigner KESSigningProvider
  | CustomSigner reflect_Kind "gocontext \<Rightarrow> string \<Rightarrow> DmqMessagePayload \<Rightarrow> DmqMessage option result"
  | NilReloadingSigner
  | ReloadingSigner "(moment \<Rightarrow> go_error + SignerValue) option" SignerValue

fun signer_any :: "SignerValue \<Rightarrow> go_any" where
  "signer_any NilSigner = NilInterface"
| "signer_any (FileSignerPtr s) = GoValue KPointer (s = None)"
| "signer_any (ProviderSigner _) = GoValue KStruct False"
| "signer_any (CustomSigner kind _) = GoValue kind False"
| "signer_any NilReloadingSigner = GoValue KPointer True"
| "signer_any (ReloadingSigner _ _) = GoValue KPointer False"

definition signer_nil :: "SignerValue \<Rightarrow> bool" where
  "signer_nil s = (s = NilSigner \<or> isNilInterface (signer_any s))"

fun ActiveSigner :: "SignerValue \<Rightarrow> SignerValue" where
  "ActiveSigner (ReloadingSigner factory signer) = signer"
| "ActiveSigner s = NilSigner"

fun Signer_Sign ::
  "kes_lib \<Rightarrow> helper \<Rightarrow> moment \<Rightarrow> gocontext \<Rightarrow> string \<Rightarrow> DmqMessagePayload \<Rightarrow> SignerValue
   \<Rightarrow> (DmqMessage option result \<times> SignerValue) option" where
  "Signer_Sign L run i ctx topic payload (FileSignerPtr (Some s)) =
     map_option (map_prod (map_sum id Some) (\<lambda>s. FileSignerPtr (Some s))) (FileSigner_Sign L i ctx topic payload s)"
| "Signer_Sign L run i ctx topic payload (ProviderSigner p) =
     map_option (map_prod (map_sum id Some) ProviderSigner) (KESSigningProviderSigner_Sign L run i ctx topic payload p)"
| "Signer_Sign L run i ctx topic payload (CustomSigner kind f) = Some (f ctx topic payload, CustomSigner kind f)"
| "Signer_Sign L run i ctx topic payload (ReloadingSigner factory signer) =
     (if signer_nil signer then Some (Inl (Sentinel ErrSignerRequired), ReloadingSigner factory signer)
      else map_option (map_prod id (ReloadingSigner factory)) (Signer_Sign L run i ctx topic payload signer))"
| "Signer_Sign L run i ctx topic payload NilReloadingSigner = Some (Inl (Sentinel ErrSignerRequired), NilReloadingSigner)"
| "Signer_Sign L run i ctx topic payload _ = None"

fun Signer_Reload :: "moment \<Rightarrow> SignerValue \<Rightarrow> go_error option \<times> SignerValue" where
  "Signer_Reload i (ReloadingSigner factory signer) =
     (case factory of
        None \<Rightarrow> (Some (ErrorNew ''dmq reloading signer factory is required''), ReloadingSigner factory signer)
      | Some f \<Rightarrow> (case f i of
          Inl err \<Rightarrow> (Some err, ReloadingSigner factory signer)
        | Inr next \<Rightarrow>
            if isNilInterface (signer_any next)
            then (Some (ErrorNew ''dmq reloading signer factory returned nil signer''), ReloadingSigner factory signer)
            else (None, ReloadingSigner factory next)))"
| "Signer_Reload i s = (Some (Sentinel ErrSignerRequired), s)"

definition NewReloadingSigner :: "moment \<Rightarrow> (moment \<Rightarrow> SignerValue result) option \<Rightarrow> SignerValue result" where
  "NewReloadingSigner i factory =
     (case Signer_Reload i (ReloadingSigner factory NilSigner) of
        (Some err, s) \<Rightarrow> Inl err
      | (None, s) \<Rightarrow> Inr s)"

definition NewReloadingFileSigner :: "kes_lib \<Rightarrow> moment \<Rightarrow> FileSignerConfig \<Rightarrow> SignerValue result" where
  "NewReloadingFileSigner L i cfg =
     NewReloadingSigner i (Some (\<lambda>j. map_sum id (\<lambda>s. FileSignerPtr (Some s)) (NewFileSigner L j cfg)))"

section \<open>The contract of reloading\<close>

text \<open>A sequence of reloads, and the usable values the factory makes at these moments.\<close>

definition reload_all :: "(moment \<Rightarrow> 'w \<Rightarrow> go_error option \<times> 'w) \<Rightarrow> moment list \<Rightarrow> 'w \<Rightarrow> 'w" where
  "reload_all reload is w = fold (\<lambda>i w. snd (reload i w)) is w"

definition usable :: "('v \<Rightarrow> bool) \<Rightarrow> (moment \<Rightarrow> 'v result) \<Rightarrow> moment list \<Rightarrow> 'v list" where
  "usable isnil f is =
     concat (map (\<lambda>i. case f i of Inl _ \<Rightarrow> [] | Inr v \<Rightarrow> if isnil v then [] else [v]) is)"

locale reloadable =
  fixes reload :: "moment \<Rightarrow> 'w \<Rightarrow> go_error option \<times> 'w"
    and hold :: "(moment \<Rightarrow> 'v result) \<Rightarrow> 'v \<Rightarrow> 'w"
    and isnil :: "'v \<Rightarrow> bool"
  assumes swap: "f i = Inr v \<Longrightarrow> \<not> isnil v \<Longrightarrow> reload i (hold f w) = (None, hold f v)"
    and keep: "(\<exists>e. f i = Inl e) \<or> (\<exists>v. f i = Inr v \<and> isnil v) \<Longrightarrow> \<exists>e. reload i (hold f w) = (Some e, hold f w)"
begin

lemma reload_cases: "\<exists>e. reload i (hold f v) = (e, hold f (last (v # usable isnil f [i])))"
proof (cases "f i")
  case (Inl e)
  then show ?thesis using keep [of f i v] by (auto simp: usable_def)
next
  case (Inr u)
  then show ?thesis using keep [of f i v] swap [of f i u v] by (cases "isnil u") (auto simp: usable_def)
qed

lemma reload_all_last: "reload_all reload is (hold f v) = hold f (last (v # usable isnil f is))"
proof (induction "is" arbitrary: v)
  case Nil
  then show ?case by (simp add: reload_all_def usable_def)
next
  case (Cons i js)
  obtain e where e: "reload i (hold f v) = (e, hold f (last (v # usable isnil f [i])))" using reload_cases by blast
  have "reload_all reload (i # js) (hold f v) = reload_all reload js (hold f (last (v # usable isnil f [i])))"
    using e by (simp add: reload_all_def)
  also have "\<dots> = hold f (last (last (v # usable isnil f [i]) # usable isnil f js))" by (rule Cons.IH)
  also have "last (last (v # usable isnil f [i]) # usable isnil f js) = last (v # usable isnil f (i # js))"
    by (simp add: usable_def split: sum.splits)
  finally show ?case .
qed

lemma usable_not_nil: "v \<in> set (usable isnil f is) \<Longrightarrow> \<not> isnil v"
  by (auto simp: usable_def split: sum.splits if_splits)

lemma reload_all_new:
  assumes "reload i (hold f v0) = (None, w)"
  shows "\<exists>v. reload_all reload is w = hold f v \<and> v = last (usable isnil f (i # is)) \<and> \<not> isnil v"
proof -
  have ok: "\<exists>u. f i = Inr u \<and> \<not> isnil u" using assms keep [of f i v0] by (cases "f i") auto
  then obtain u where u: "f i = Inr u" "\<not> isnil u" by blast
  then have w: "w = hold f u" using assms swap [of f i u v0] u by simp
  have us: "usable isnil f (i # is) = u # usable isnil f is" using u by (simp add: usable_def)
  have "\<not> isnil (last (u # usable isnil f is))" using u(2) usable_not_nil [of _ f "is"] by (metis last.simps last_in_set)
  then show ?thesis using reload_all_last [of "is" f u] by (simp only: w us) blast
qed

end

interpretation provider_reload: reloadable Provider_Reload "\<lambda>f. ReloadingPtr (Some f)" "\<lambda>p. isNilInterface (provider_any p)"
  by unfold_locales auto

interpretation signer_reload: reloadable Signer_Reload "\<lambda>f. ReloadingSigner (Some f)" "\<lambda>s. isNilInterface (signer_any s)"
  by unfold_locales auto

text \<open>
  C20: Reloading is safe: after any sequence of reloads of a reloadable signer, or of a reloadable
  KES provider, the active one is the latest the factory built successfully and non-nil since
  the construction; failed reloads leave it in place, and it is never nil.
\<close>

theorem reload_keeps_last_good:
  "(NewReloadingSigner i (Some f) = Inr s \<longrightarrow>
      ActiveSigner (reload_all Signer_Reload is s) = last (usable (\<lambda>s. isNilInterface (signer_any s)) f (i # is))
      \<and> \<not> signer_nil (ActiveSigner (reload_all Signer_Reload is s)))
   \<and> (NewReloadingKESSigningProvider i (Some h) = Inr p \<longrightarrow>
      ActiveProvider (reload_all Provider_Reload is p) = last (usable (\<lambda>p. isNilInterface (provider_any p)) h (i # is))
      \<and> \<not> provider_nil (ActiveProvider (reload_all Provider_Reload is p)))"
proof -
  have "ActiveSigner (reload_all Signer_Reload is s) = last (usable (\<lambda>s. isNilInterface (signer_any s)) f (i # is))
      \<and> \<not> signer_nil (ActiveSigner (reload_all Signer_Reload is s))" if "NewReloadingSigner i (Some f) = Inr s"
  proof -
    have "Signer_Reload i (ReloadingSigner (Some f) NilSigner) = (None, s)"
      using that by (auto simp: NewReloadingSigner_def split: prod.splits option.splits)
    then show ?thesis using signer_reload.reload_all_new [of i f NilSigner s "is"] by (auto simp: signer_nil_def)
  qed
  moreover have "ActiveProvider (reload_all Provider_Reload is p) = last (usable (\<lambda>p. isNilInterface (provider_any p)) h (i # is))
      \<and> \<not> provider_nil (ActiveProvider (reload_all Provider_Reload is p))" if "NewReloadingKESSigningProvider i (Some h) = Inr p"
  proof -
    have "Provider_Reload i (ReloadingPtr (Some h) NilProvider) = (None, p)"
      using that by (auto simp: NewReloadingKESSigningProvider_def split: prod.splits option.splits)
    then show ?thesis using provider_reload.reload_all_new [of i h NilProvider p "is"] by (auto simp: provider_nil_def)
  qed
  ultimately show ?thesis by blast
qed

text \<open>Files that can be read at even moments only.\<close>

definition ex_factory :: "moment \<Rightarrow> SignerValue result" where
  "ex_factory i = (if even i then Inr (FileSignerPtr (Some (ex_file_signer\<lparr>fs_defaultKESPeriod := of_nat i\<rparr>)))
     else Inl (ErrorNew ''no such file''))"

theorem reload_keeps_last_good_witness:
  "\<exists>s. NewReloadingSigner 0 (Some ex_factory) = Inr s
     \<and> ActiveSigner (reload_all Signer_Reload [2, 3] s) = FileSignerPtr (Some (ex_file_signer\<lparr>fs_defaultKESPeriod := 2\<rparr>))"
proof -
  obtain s where s: "NewReloadingSigner 0 (Some ex_factory) = Inr s"
    by (auto simp: NewReloadingSigner_def ex_factory_def)
  have u: "usable (\<lambda>s. isNilInterface (signer_any s)) ex_factory [0, 2, 3]
      = [FileSignerPtr (Some (ex_file_signer\<lparr>fs_defaultKESPeriod := 0\<rparr>)),
         FileSignerPtr (Some (ex_file_signer\<lparr>fs_defaultKESPeriod := 2\<rparr>))]"
    by (simp add: usable_def ex_factory_def)
  show ?thesis using s reload_keeps_last_good [of 0 ex_factory s "[2, 3]"] unfolding u by auto
qed

section \<open>The contract of signing and publishing\<close>

lemma FileSigner_Verify_strip:
  assumes "strip_id m = strip_id m'"
  shows "FileSigner_Verify L (Some m) = FileSigner_Verify L (Some m')"
  unfolding FileSigner_Verify_def option.case PayloadSigningBytes_strip [OF assms] strip_id_parts [OF assms] ..

lemma map_sum_Inr_iff: "map_sum f h x = Inr y \<longleftrightarrow> (\<exists>z. x = Inr z \<and> y = h z)"
  by (cases x) auto

lemma signed_well_identified:
  assumes "signed_message g L oc cold payload period m" "length (pl_MessageBody payload) \<le> 2000"
  shows "well_identified g m (g_ID g m)"
  using assms by (simp add: signed_message_def well_identified_def ComputeMessageID_def)

lemma admits_unique: "well_identified g m i \<Longrightarrow> admits g now1 now2 t m j \<Longrightarrow> j = i"
  by (auto simp: admits_def well_identified_def)

text \<open>Every message a signer returns is a valid message of the payload, and it stays a good signer.\<close>

locale message_signer =
  fixes g :: gouroboros
    and L :: kes_lib
    and ok :: "'s \<Rightarrow> bool"
    and sign :: "moment \<Rightarrow> gocontext \<Rightarrow> string \<Rightarrow> DmqMessagePayload \<Rightarrow> 's \<Rightarrow> (DmqMessage option result \<times> 's) option"
  assumes kept: "ok s \<Longrightarrow> sign i ctx topic payload s = Some (r, s') \<Longrightarrow> ok s'"
    and sound: "ok s \<Longrightarrow> sign i ctx topic payload s = Some (Inr (Some m), s') \<Longrightarrow>
      \<exists>oc cold period. signed_message g L oc cold payload period m"
begin

lemma publish_signed:
  assumes "topic_reach g t" "message_id_laws g" "ok s" "tc_Signer (tr_cfg t) = Some signer"
    and "NewMessagePayload now0 (tp_DefaultTTL (tc_TTL (tr_cfg t))) body = Inr payload"
    and "sign i ctx (tr_name t) payload s = Some (Inr (Some m), s')" "signer ctx (tr_name t) payload = Inr (Some m)"
  shows "if admits g now1 now2 t m (g_ID g m)
    then \<exists>calls t' q. publish g now0 now1 now2 ctx t body = Some (Inr (Some (g_SetMessageID g (g_ID g m) m)), calls, t')
      \<and> tr_queue t' = filter (live g now2 t) (tr_queue t) @ [q]
      \<and> pl_MessageBody (m_Payload q) = body \<and> FileSigner_Verify L (Some q) = Inr True
    else \<exists>e calls t'. publish g now0 now1 now2 ctx t body = Some (Inl e, calls, t')"
proof -
  let ?m = "g_SetMessageID g (g_ID g m) m" and ?q = "cloneMessage g (g_SetMessageID g (g_ID g m) m)"
  obtain oc cold period where sm: "signed_message g L oc cold payload period m" using sound [OF assms(3,6)] by blast
  have b: "length body \<le> 2000" "pl_MessageBody payload = body"
    using assms(5) by (auto simp: NewMessagePayload_spec map_sum_Inr_iff split: if_splits)
  have w: "well_identified g m (g_ID g m)" using signed_well_identified [OF sm] b by simp
  note inv = topic_reach_inv [OF assms(1)]
  note acc = submitSigned_accept [OF topic_invD(1,2) [OF inv] assms(2)]
  have pub: "publish g now0 now1 now2 ctx t body = (case submitSigned g now1 now2 t (Some m) MessageSourceLocal None of
      None \<Rightarrow> None | Some (Some err, x, calls, t') \<Rightarrow> Some (Inl err, calls, t')
    | Some (None, x, calls, t') \<Rightarrow> Some (Inr x, calls, t'))"
    using assms(4,5,7) by (simp add: publish_def)
  show ?thesis
  proof (cases "admits g now1 now2 t m (g_ID g m)")
    case True
    let ?env = "messageEnvelope g t now2 ?m MessageSourceLocal None"
    have sub: "submitSigned g now1 now2 t (Some m) MessageSourceLocal None
        = Some (None, Some ?m, acceptedHook t ?env, accepted g now2 t ?m ?env)"
      unfolding acc using True by (auto simp: Let_def)
    have st: "strip_id ?q = strip_id m"
      using cloneMessage_eq [OF assms(2)] message_id_lawsD(2) [OF assms(2)] by metis
    have "tr_queue (accepted g now2 t ?m ?env) = filter (live g now2 t) (tr_queue t) @ [?q]"
      by (simp add: accepted_def)
    moreover have "FileSigner_Verify L (Some ?q) = Inr True" "pl_MessageBody (m_Payload ?q) = body"
      using FileSigner_Verify_strip [OF st, of L] sm strip_id_parts(5) [OF st] b(2) by (simp_all add: signed_message_def)
    ultimately show ?thesis using True sub pub by auto
  next
    case False
    obtain err x calls t' where sub: "submitSigned g now1 now2 t (Some m) MessageSourceLocal None = Some (err, x, calls, t')"
      using submitSigned_total [OF topic_invD(1,2) [OF inv]] by (metis not_None_eq prod_cases4)
    have "err \<noteq> None" using acc [of now1 now2 m MessageSourceLocal None x calls t'] sub admits_unique [OF w] False by auto
    then show ?thesis using False sub pub by auto
  qed
qed

end

text \<open>A file signer, and a provider behind the adapter, sign as the contract says.\<close>

definition library_ok :: "gouroboros \<Rightarrow> kes_lib \<Rightarrow> (bytes \<Rightarrow> KesSecretKey \<Rightarrow> bool) \<Rightarrow> bool" where
  "library_ok g L genuine = (kes_scheme L genuine \<and> message_id_laws g \<and> computed_id_law g L)"

interpretation file_sign: message_signer g L "\<lambda>s. library_ok g L genuine \<and> file_signer_ok L genuine s"
  "\<lambda>i ctx topic payload s. map_option (map_prod (map_sum id Some) id) (FileSigner_Sign L i ctx topic payload s)" for g L genuine
proof
  fix s s' :: FileSigner and i ctx topic payload r
  assume ok: "library_ok g L genuine \<and> file_signer_ok L genuine s"
    and r: "map_option (map_prod (map_sum id Some) id) (FileSigner_Sign L i ctx topic payload s) = Some (r, s')"
  then obtain r0 where "FileSigner_Sign L i ctx topic payload s = Some (r0, s')" by auto
  then show "library_ok g L genuine \<and> file_signer_ok L genuine s'"
    using FileSigner_Sign_states evolve_keeps ok by (metis library_ok_def)
next
  fix s s' :: FileSigner and i ctx topic payload m
  assume ok: "library_ok g L genuine \<and> file_signer_ok L genuine s"
    and r: "map_option (map_prod (map_sum id Some) id) (FileSigner_Sign L i ctx topic payload s) = Some (Inr (Some m), s')"
  then have m: "FileSigner_Sign L i ctx topic payload s = Some (Inr m, s')"
    by (auto simp: map_sum_Inr_iff)
  then obtain period where "currentKESPeriod i ctx payload s = Inr period"
    by (cases "currentKESPeriod i ctx payload s") (simp_all add: FileSigner_Sign_def)
  then show "\<exists>oc cold period. signed_message g L oc cold payload period m"
    using FileSigner_Sign_sound [OF _ _ _ _ _ m, of genuine g period] ok by (auto simp: library_ok_def)
qed

interpretation provider_sign: message_signer g L "\<lambda>p. library_ok g L genuine \<and> provider_ok L genuine p"
  "\<lambda>i ctx topic payload p. map_option (map_prod (map_sum id Some) id) (KESSigningProviderSigner_Sign L run i ctx topic payload p)"
  for g L genuine run
proof
  fix p p' i ctx topic payload r
  assume ok: "library_ok g L genuine \<and> provider_ok L genuine p"
    and r: "map_option (map_prod (map_sum id Some) id) (KESSigningProviderSigner_Sign L run i ctx topic payload p) = Some (r, p')"
  then show "library_ok g L genuine \<and> provider_ok L genuine p'"
    using KESSigningProviderSigner_spec [of L genuine p g run i ctx topic payload] by (auto simp: library_ok_def)
next
  fix p p' i ctx topic payload m
  assume ok: "library_ok g L genuine \<and> provider_ok L genuine p"
    and r: "map_option (map_prod (map_sum id Some) id) (KESSigningProviderSigner_Sign L run i ctx topic payload p)
      = Some (Inr (Some m), p')"
  then have "KESSigningProviderSigner_Sign L run i ctx topic payload p = Some (Inr m, p')" by (auto simp: map_sum_Inr_iff)
  then show "\<exists>oc cold period. signed_message g L oc cold payload period m"
    using ok KESSigningProviderSigner_spec [of L genuine p g run i ctx topic payload] by (auto simp: library_ok_def Let_def)
qed

text \<open>A signer whose parts keep the contract; of a foreign signer this is what has to be asked.\<close>

fun signer_value_ok :: "gouroboros \<Rightarrow> kes_lib \<Rightarrow> (bytes \<Rightarrow> KesSecretKey \<Rightarrow> bool) \<Rightarrow> SignerValue \<Rightarrow> bool" where
  "signer_value_ok g L genuine (FileSignerPtr (Some s)) = (library_ok g L genuine \<and> file_signer_ok L genuine s)"
| "signer_value_ok g L genuine (ProviderSigner p) = (library_ok g L genuine \<and> provider_ok L genuine p)"
| "signer_value_ok g L genuine (CustomSigner kind f) =
     (\<forall>ctx topic payload m. f ctx topic payload = Inr (Some m) \<longrightarrow>
        (\<exists>oc cold period. signed_message g L oc cold payload period m))"
| "signer_value_ok g L genuine (ReloadingSigner factory s) = signer_value_ok g L genuine s"
| "signer_value_ok g L genuine _ = True"

lemma Signer_Sign_kept:
  "signer_value_ok g L genuine s \<Longrightarrow> Signer_Sign L run i ctx topic payload s = Some (r, s') \<Longrightarrow> signer_value_ok g L genuine s'"
proof (induction s arbitrary: s')
  case (FileSignerPtr x)
  then obtain q where q: "x = Some q" by (cases x) auto
  then show ?case using FileSignerPtr file_sign.kept [of g L genuine q i ctx topic payload r] by auto
next
  case (ProviderSigner p)
  then show ?case using provider_sign.kept [of g L genuine p run i ctx topic payload r] by auto
next
  case (ReloadingSigner f s)
  then show ?case by (auto split: if_splits)
qed auto

lemma Signer_Sign_sound:
  "signer_value_ok g L genuine s \<Longrightarrow> Signer_Sign L run i ctx topic payload s = Some (Inr (Some m), s') \<Longrightarrow>
   \<exists>oc cold period. signed_message g L oc cold payload period m"
proof (induction s arbitrary: s')
  case (FileSignerPtr x)
  then obtain q where q: "x = Some q" by (cases x) auto
  then obtain q' where "FileSigner_Sign L i ctx topic payload q = Some (Inr m, q')"
    using FileSignerPtr.prems(2) by (auto simp: map_sum_Inr_iff)
  then show ?case using FileSignerPtr.prems(1) q file_sign.sound [of g L genuine q i ctx topic payload m q'] by simp
next
  case (ProviderSigner p)
  then obtain p' where "KESSigningProviderSigner_Sign L run i ctx topic payload p = Some (Inr m, p')"
    by (auto simp: map_sum_Inr_iff)
  then show ?case using ProviderSigner.prems(1) provider_sign.sound [of g L genuine p run i ctx topic payload m p'] by simp
next
  case (ReloadingSigner f s)
  then show ?case by (auto split: if_splits)
qed auto

interpretation any_sign: message_signer g L "signer_value_ok g L genuine" "Signer_Sign L run" for g L genuine run
  by unfold_locales (erule (1) Signer_Sign_kept, erule (1) Signer_Sign_sound)

text \<open>
  C15: Publishing end to end. When a topic's signer is a file signer, a KES provider behind the
  adapter, or a reloadable one of these, and signs a payload made from a body, the message is
  identified correctly: publishing accepts it exactly when the remaining conditions of
  admission hold (a valid TTL, authentication, an open topic, no recent duplicate, room in the
  queue). The message then queued is the last one, carries the body, and its KES signature
  verifies; otherwise publishing returns an error.
\<close>

theorem publish_end_to_end:
  assumes "topic_reach g t" "message_id_laws g" "signer_value_ok g L genuine s" "tc_Signer (tr_cfg t) = Some signer"
    and "NewMessagePayload now0 (tp_DefaultTTL (tc_TTL (tr_cfg t))) body = Inr payload"
    and "Signer_Sign L run i ctx (tr_name t) payload s = Some (Inr (Some m), s')"
    and "signer ctx (tr_name t) payload = Inr (Some m)"
  shows "if live g now1 t (g_SetMessageID g (g_ID g m) m) \<and> authentic t (g_SetMessageID g (g_ID g m) m)
      \<and> \<not> tr_closed t \<and> fresh_seen now2 t (g_ID g m) = None \<and> has_room g now2 t
    then \<exists>calls t' q. publish g now0 now1 now2 ctx t body = Some (Inr (Some (g_SetMessageID g (g_ID g m) m)), calls, t')
      \<and> tr_queue t' = filter (live g now2 t) (tr_queue t) @ [q]
      \<and> pl_MessageBody (m_Payload q) = body \<and> FileSigner_Verify L (Some q) = Inr True
    else \<exists>e calls t'. publish g now0 now1 now2 ctx t body = Some (Inl e, calls, t')"
proof -
  obtain oc cold period where sm: "signed_message g L oc cold payload period m"
    using any_sign.sound [OF assms(3,6)] by blast
  have "length (pl_MessageBody payload) \<le> 2000"
    using assms(5) by (auto simp: NewMessagePayload_spec map_sum_Inr_iff split: if_splits)
  then have "well_identified g m (g_ID g m)" by (rule signed_well_identified [OF sm])
  then have "admits g now1 now2 t m (g_ID g m) \<longleftrightarrow> live g now1 t (g_SetMessageID g (g_ID g m) m)
      \<and> authentic t (g_SetMessageID g (g_ID g m) m) \<and> \<not> tr_closed t \<and> fresh_seen now2 t (g_ID g m) = None \<and> has_room g now2 t"
    by (simp add: admits_def)
  then show ?thesis using any_sign.publish_signed [OF assms, of now1 now2] by simp
qed

text \<open>A topic that signs with the concrete file signer.\<close>

definition ex_signer_value :: SignerValue where
  "ex_signer_value = ReloadingSigner None (FileSignerPtr (Some ex_file_signer))"

definition ex_ctx :: gocontext where
  "ex_ctx = \<lparr>ctx_id = 0, ctx_Err = None\<rparr>"

definition ex_signing :: Signer where
  "ex_signing = (\<lambda>ctx topic payload. case Signer_Sign ex_kes (\<lambda>_. HelperOk []) 0 ctx topic payload ex_signer_value of
     None \<Rightarrow> Inl (ErrorNew ''panic'') | Some (r, s') \<Rightarrow> r)"

definition ex_signing_topic :: topicRuntime where
  "ex_signing_topic = newTopicRuntime ''t'' (ex_topic_config\<lparr>tc_Signer := Some ex_signing\<rparr>)"

lemma ex_signing_reach: "topic_reach ex_gouroboros ex_signing_topic"
proof (rule reach_init)
  have "config_ok (ex_topic_config\<lparr>tc_Signer := Some ex_signing\<rparr>)"
    using ex_config_ok by (simp add: config_ok_def)
  then show "topic_init ex_signing_topic" by (auto simp: topic_init_def ex_signing_topic_def)
qed

lemma ex_value_ok: "signer_value_ok ex_gouroboros ex_kes ex_genuine ex_signer_value"
  using ex_scheme ex_laws ex_computed_id ex_file_signer_ok by (simp add: ex_signer_value_def library_ok_def)

definition ex_wire_payload :: DmqMessagePayload where
  "ex_wire_payload = \<lparr>pl_MessageID = [], pl_MessageBody = [9], pl_KESPeriod = 0, pl_ExpiresAt = 60\<rparr>"

lemma ex_wire_payload: "NewMessagePayload 0 Minute [9] = Inr ex_wire_payload"
  by (simp add: NewMessagePayload_spec ExpiresAt_eq expiry_instant_def time_Unix_def MaxMessageExpiresAtUnix_def ex_wire_payload_def)

lemma ex_value_signs:
  "\<exists>m s'. Signer_Sign ex_kes (\<lambda>_. HelperOk []) 0 ex_ctx ''t'' ex_wire_payload ex_signer_value = Some (Inr (Some m), s')
     \<and> pl_ExpiresAt (m_Payload m) = 60"
proof -
  have p: "currentKESPeriod 0 ex_ctx ex_wire_payload ex_file_signer = Inr 1"
    by (simp add: currentKESPeriod_def ex_wire_payload_def ex_file_signer_def fileSignerOf_fields ex_file_config_def ex_now_period)
  have sg: "file_signable ex_gouroboros ex_kes ex_file_signer ex_wire_payload 1"
    by (simp add: file_signable_def ex_wire_payload_def ex_file_signer_def fileSignerOf_fields ex_opcert_key_def
        PayloadSigningBytes_def ComputeMessageID_def ex_kes_def ex_gouroboros_def)
  have "\<exists>m key. FileSigner_Sign ex_kes 0 ex_ctx ''t'' ex_wire_payload ex_file_signer
      = Some (Inr m, ex_file_signer\<lparr>fs_kesSKey := key\<rparr>)
    \<and> signed_message ex_gouroboros ex_kes (fs_opCert ex_file_signer) (fs_coldVKey ex_file_signer) ex_wire_payload 1 m"
    using FileSigner_Sign_signable [OF ex_scheme ex_laws ex_computed_id ex_file_signer_ok p ex_file_depth sg] by blast
  then show ?thesis
    by (auto simp: ex_signer_value_def signer_nil_def signed_message_def) (simp add: ex_wire_payload_def)
qed

theorem publish_end_to_end_witness:
  "\<exists>m calls t' q. publish ex_gouroboros 0 0 0 ex_ctx ex_signing_topic [9] = Some (Inr (Some m), calls, t')
     \<and> tr_queue t' = [q] \<and> FileSigner_Verify ex_kes (Some q) = Inr True"
proof -
  obtain m s' where m: "Signer_Sign ex_kes (\<lambda>_. HelperOk []) 0 ex_ctx ''t'' ex_wire_payload ex_signer_value = Some (Inr (Some m), s')"
    "pl_ExpiresAt (m_Payload m) = 60" using ex_value_signs by blast
  let ?t = ex_signing_topic
  have t: "tc_Signer (tr_cfg ?t) = Some ex_signing" "tp_DefaultTTL (tc_TTL (tr_cfg ?t)) = Minute" "tr_name ?t = ''t''"
    "tr_queue ?t = []" "\<not> tr_closed ?t" "fresh_seen 0 ?t i = None" "has_room ex_gouroboros 0 ?t" "authentic ?t x" for i x
    by (simp_all add: ex_signing_topic_def newTopicRuntime_def ex_topic_config_def Let_def fresh_seen_def has_room_def
        authentic_def authenticateMessage_def)
  have "tc_TTL (tr_cfg ?t) = \<lparr>tp_DefaultTTL = Minute, tp_MaxTTL = Hour, tp_Disable = False\<rparr>"
    by (simp add: ex_signing_topic_def newTopicRuntime_def ex_topic_config_def Let_def)
  then have l: "live ex_gouroboros 0 ?t (g_SetMessageID ex_gouroboros j m)" for j
    using m(2) by (simp add: live_def validateMessageTTL_def ex_gouroboros_def wrapTTLValidationError_def)
  have pl: "NewMessagePayload 0 (tp_DefaultTTL (tc_TTL (tr_cfg ?t))) [9] = Inr ex_wire_payload"
    using ex_wire_payload t(2) by simp
  have sg: "Signer_Sign ex_kes (\<lambda>_. HelperOk []) 0 ex_ctx (tr_name ?t) ex_wire_payload ex_signer_value = Some (Inr (Some m), s')"
    "ex_signing ex_ctx (tr_name ?t) ex_wire_payload = Inr (Some m)"
    using m(1) t(3) by (simp_all add: ex_signing_def)
  show ?thesis
    using publish_end_to_end [OF ex_signing_reach ex_laws ex_value_ok t(1) pl sg, of 0 0] l t(4-8) by auto
qed

end
