(* ===== verification/Ledger_Providers.thy ===== *)
theory Ledger_Providers
  imports Topic_Properties Complex_Main
begin

text \<open>
  The snapshot providers of \<^verbatim>\<open>discovery.go\<close>: the adapter of dingo's ledger peer sources and the
  provider backed by a Cardano node's local state queries, with the conversions of their data. The
  dingo sources and the query client are parameters: a method is a field holding what it returns,
  and a type assertion is a field holding what it finds. A pointer is an \<open>option\<close>; a
  \<^verbatim>\<open>big.Rat\<close>, which Go keeps in lowest terms with a positive denominator, is a \<^typ>\<open>rat\<close>
  read through \<^const>\<open>quotient_of\<close>.
\<close>

unbundle bit_operations_syntax

section \<open>Dingo ledger peer sources\<close>

record PoolRelay =
  pr_Hostname :: string
  pr_Port :: u64
  pr_IPv4 :: "net_IP option"
  pr_IPv6 :: "net_IP option"

record StakedLedgerPeerProvider =
  slp_GetLedgerPeers :: "LedgerPeer list result"
  slp_CurrentSlot :: u64

text \<open>The last field is the outcome of asserting the provider to \<^verbatim>\<open>StakedLedgerPeerProvider\<close>.\<close>

record LedgerPeerProvider =
  lpp_GetPoolRelays :: "gocontext \<Rightarrow> PoolRelay list result"
  lpp_CurrentSlot :: u64
  lpp_Staked :: "StakedLedgerPeerProvider option"

record DingoLedgerPeerProviderAdapter =
  dpa_Provider :: "LedgerPeerProvider option"
  dpa_StakedProvider :: "StakedLedgerPeerProvider option"
  dpa_AllowRelayOnly :: bool

definition cloneIP :: "net_IP \<Rightarrow> net_IP" where
  "cloneIP ip = map (\<lambda>b. b) ip"

definition cloneLedgerRelays :: "LedgerRelay list \<Rightarrow> LedgerRelay list" where
  "cloneLedgerRelays relays =
     map (\<lambda>relay. relay\<lparr>lr_IPv4 := cloneIP (lr_IPv4 relay), lr_IPv6 := cloneIP (lr_IPv6 relay)\<rparr>) relays"

definition cloneLedgerPeers :: "LedgerPeer list \<Rightarrow> LedgerPeer list" where
  "cloneLedgerPeers peers =
     map (\<lambda>peer. \<lparr>lp_PoolID = lp_PoolID peer, lp_Stake = lp_Stake peer,
        lp_Relays = cloneLedgerRelays (lp_Relays peer)\<rparr>) peers"

definition dingoRelayToLedgerRelay :: "PoolRelay \<Rightarrow> LedgerRelay" where
  "dingoRelayToLedgerRelay relay =
     (let kind = (if pr_Hostname relay \<noteq> [] \<and> pr_Port relay = 0 then LedgerRelaySRV
                  else LedgerRelaySingleHostName);
          ret = \<lparr>lr_Kind = kind, lr_Hostname = pr_Hostname relay, lr_SRVName = [],
                 lr_Port = pr_Port relay, lr_IPv4 = [], lr_IPv6 = []\<rparr>;
          ret = (case pr_IPv4 relay of None \<Rightarrow> ret
                 | Some ip \<Rightarrow> ret\<lparr>lr_Kind := LedgerRelaySingleHostAddress, lr_IPv4 := ip\<rparr>)
      in case pr_IPv6 relay of None \<Rightarrow> ret
         | Some ip \<Rightarrow> ret\<lparr>lr_Kind := LedgerRelaySingleHostAddress, lr_IPv6 := ip\<rparr>)"

definition stakedProviderSnapshot :: "gocontext \<Rightarrow> StakedLedgerPeerProvider \<Rightarrow> LedgerPeerSnapshot result" where
  "stakedProviderSnapshot ctx provider =
     (case ctx_Err ctx of
        Some e \<Rightarrow> Inl e
      | None \<Rightarrow>
          (case slp_GetLedgerPeers provider of
             Inl err \<Rightarrow> Inl err
           | Inr peers \<Rightarrow> Inr \<lparr>snap_Slot = slp_CurrentSlot provider, snap_Peers = cloneLedgerPeers peers\<rparr>))"

definition Dingo_LedgerPeerSnapshot :: "DingoLedgerPeerProviderAdapter \<Rightarrow> LedgerPeerSnapshotProvider" where
  "Dingo_LedgerPeerSnapshot a ctx kind =
     (case dpa_StakedProvider a of
        Some sp \<Rightarrow> stakedProviderSnapshot ctx sp
      | None \<Rightarrow>
          (case dpa_Provider a of
             None \<Rightarrow> Inl (Sentinel ErrLedgerPeerSnapshotProviderUnset)
           | Some provider \<Rightarrow>
               (case lpp_Staked provider of
                  Some sp \<Rightarrow> stakedProviderSnapshot ctx sp
                | None \<Rightarrow>
                    if \<not> dpa_AllowRelayOnly a
                    then Inl (Errorf ''%w: dingo peergov.LedgerPeerProvider does not expose pool stake metadata; use StakedProvider or LocalStateQueryLedgerPeerSnapshotProvider''
                                [WrapArg (Sentinel ErrLedgerPeerSnapshotUnsupported)])
                    else if kind = LedgerPeerSnapshotBig
                    then Inl (Errorf ''%w: relay-only dingo peergov.LedgerPeerProvider cannot produce big-ledger peers''
                                [WrapArg (Sentinel ErrLedgerPeerSnapshotUnsupported)])
                    else case ctx_Err ctx of
                      Some e \<Rightarrow> Inl e
                    | None \<Rightarrow>
                        (case lpp_GetPoolRelays provider ctx of
                           Inl err \<Rightarrow> Inl err
                         | Inr relays \<Rightarrow>
                             Inr \<lparr>snap_Slot = lpp_CurrentSlot provider,
                                  snap_Peers = map (\<lambda>relay. \<lparr>lp_PoolID = [], lp_Stake = 0,
                                     lp_Relays = [dingoRelayToLedgerRelay relay]\<rparr>) relays\<rparr>))))"

section \<open>Local state queries\<close>

text \<open>The parts of the client's result the sources read; a port is already converted to \<^verbatim>\<open>uint\<close>.\<close>

datatype RelayKind = RelayKindIPv4 | RelayKindIPv6 | RelayKindDomain | RelayKindSRV | RelayKindOther nat

record RelayAccessPoint =
  rap_Kind :: RelayKind
  rap_Port :: "u64 option"
  rap_IPv4 :: "net_IP option"
  rap_IPv6 :: "net_IP option"
  rap_Domain :: "string option"

text \<open>The outer option of a stake is the \<^verbatim>\<open>*gcbor.Rat\<close>, the inner one its embedded \<^verbatim>\<open>*big.Rat\<close>.\<close>

record LedgerPoolDetail =
  pd_PoolStake :: "rat option option"
  pd_Relays :: "RelayAccessPoint list"

record LedgerPeerSnapshotResult =
  sr_HasSlot :: bool
  sr_Slot :: u64
  sr_Pools :: "LedgerPoolDetail list"

datatype LedgerPeerKind = LedgerPeerKindAll | LedgerPeerKindBig

type_synonym LocalStateQueryClient = "LedgerPeerKind \<Rightarrow> LedgerPeerSnapshotResult option result"

definition localStateQueryLedgerPeerKind :: "LedgerPeerSnapshotKind \<Rightarrow> LedgerPeerKind result" where
  "localStateQueryLedgerPeerKind kind =
     (if kind = [] \<or> kind = LedgerPeerSnapshotAll then Inr LedgerPeerKindAll
      else if kind = LedgerPeerSnapshotBig then Inr LedgerPeerKindBig
      else Inl (Errorf ''unknown ledger peer snapshot kind: %s'' [StrArg kind]))"

definition ledgerStakeFromRat :: "rat option option \<Rightarrow> u64" where
  "ledgerStakeFromRat stake =
     (case stake of
        None \<Rightarrow> 0
      | Some None \<Rightarrow> 0
      | Some (Some q) \<Rightarrow>
          if sgn q \<le> 0 then 0
          else let scaled = fst (quotient_of q) * uint (NOT (0::u64));
                   scaled = go_div scaled (snd (quotient_of q))
               in if \<not> (0 \<le> scaled \<and> scaled < 2 ^ 64) then NOT 0 else word_of_int scaled)"

definition localStateQueryRelayToLedgerRelay :: "RelayAccessPoint \<Rightarrow> LedgerRelay" where
  "localStateQueryRelayToLedgerRelay relay =
     (let zero = \<lparr>lr_Kind = [], lr_Hostname = [], lr_SRVName = [], lr_Port = 0, lr_IPv4 = [], lr_IPv6 = []\<rparr>
      in case rap_Kind relay of
        RelayKindIPv4 \<Rightarrow>
          (let ret = zero\<lparr>lr_Kind := LedgerRelaySingleHostAddress\<rparr>;
               ret = (case rap_Port relay of None \<Rightarrow> ret | Some port \<Rightarrow> ret\<lparr>lr_Port := port\<rparr>)
           in case rap_IPv4 relay of None \<Rightarrow> ret | Some ip \<Rightarrow> ret\<lparr>lr_IPv4 := cloneIP ip\<rparr>)
      | RelayKindIPv6 \<Rightarrow>
          (let ret = zero\<lparr>lr_Kind := LedgerRelaySingleHostAddress\<rparr>;
               ret = (case rap_Port relay of None \<Rightarrow> ret | Some port \<Rightarrow> ret\<lparr>lr_Port := port\<rparr>)
           in case rap_IPv6 relay of None \<Rightarrow> ret | Some ip \<Rightarrow> ret\<lparr>lr_IPv6 := cloneIP ip\<rparr>)
      | RelayKindDomain \<Rightarrow>
          (let ret = zero\<lparr>lr_Kind := LedgerRelaySingleHostName\<rparr>;
               ret = (case rap_Port relay of None \<Rightarrow> ret | Some port \<Rightarrow> ret\<lparr>lr_Port := port\<rparr>)
           in case rap_Domain relay of None \<Rightarrow> ret | Some d \<Rightarrow> ret\<lparr>lr_Hostname := d\<rparr>)
      | RelayKindSRV \<Rightarrow>
          (let ret = zero\<lparr>lr_Kind := LedgerRelaySRV\<rparr>
           in case rap_Domain relay of None \<Rightarrow> ret | Some d \<Rightarrow> ret\<lparr>lr_SRVName := d\<rparr>)
      | RelayKindOther n \<Rightarrow> zero)"

definition convertLocalStateQueryLedgerPeerSnapshot :: "LedgerPeerSnapshotResult option \<Rightarrow> LedgerPeerSnapshot" where
  "convertLocalStateQueryLedgerPeerSnapshot snapshot =
     (case snapshot of
        None \<Rightarrow> \<lparr>snap_Slot = 0, snap_Peers = []\<rparr>
      | Some r \<Rightarrow> \<lparr>snap_Slot = (if sr_HasSlot r then sr_Slot r else 0),
                   snap_Peers = map (\<lambda>pool. \<lparr>lp_PoolID = [], lp_Stake = ledgerStakeFromRat (pd_PoolStake pool),
                      lp_Relays = map localStateQueryRelayToLedgerRelay (pd_Relays pool)\<rparr>) (sr_Pools r)\<rparr>)"

text \<open>
  The provider checks the context before and after the query: \<open>after ctx\<close> is the context as the
  second check sees it.
\<close>

definition LocalStateQuery_LedgerPeerSnapshot ::
    "(gocontext \<Rightarrow> gocontext) \<Rightarrow> LocalStateQueryClient option \<Rightarrow> LedgerPeerSnapshotProvider" where
  "LocalStateQuery_LedgerPeerSnapshot after client ctx kind =
     (case client of
        None \<Rightarrow> Inl (Sentinel ErrLedgerPeerSnapshotProviderUnset)
      | Some getLedgerPeerSnapshot \<Rightarrow>
          (case localStateQueryLedgerPeerKind kind of
             Inl err \<Rightarrow> Inl err
           | Inr peerKind \<Rightarrow>
               (case ctx_Err ctx of
                  Some e \<Rightarrow> Inl e
                | None \<Rightarrow>
                    (case getLedgerPeerSnapshot peerKind of
                       Inl err \<Rightarrow> if errors_is err ErrLedgerPeerSnapshotUnsupportedVersion
                                  then Inl (Sentinel ErrLedgerPeerSnapshotUnsupported) else Inl err
                     | Inr snapshot \<Rightarrow>
                         (case ctx_Err (after ctx) of
                            Some e \<Rightarrow> Inl e
                          | None \<Rightarrow> Inr (convertLocalStateQueryLedgerPeerSnapshot snapshot))))))"

section \<open>Copies and conversions\<close>

lemma cloneLedgerPeers_id [simp]: "cloneLedgerPeers peers = peers"
  unfolding cloneLedgerPeers_def by (rule map_idI) (simp add: cloneLedgerRelays_def cloneIP_def)

abbreviation max_uint64 :: nat where
  "max_uint64 \<equiv> 2 ^ 64 - 1"

lemma uint_all_ones: "uint (NOT (0::u64)) = 2 ^ 64 - 1"
  by (simp add: unsigned_minus_1_eq_mask mask_eq_exp_minus_1)

lemma floor_scaled:
  assumes "0 < q" "0 \<le> m"
  shows "go_div (fst (quotient_of q) * m) (snd (quotient_of q)) = \<lfloor>q * of_int m\<rfloor>"
proof -
  obtain n d where nd: "quotient_of q = (n, d)" by (cases "quotient_of q")
  have d: "0 < d" using quotient_of_denom_pos [OF nd] .
  have q: "q = of_int n / of_int d" using quotient_of_div [OF nd] .
  have "0 < n" using assms d q by (simp add: zero_less_divide_iff)
  then have "go_div (n * m) d = n * m div d" using d assms(2) by (intro go_div_nonneg) simp_all
  also have "\<dots> = \<lfloor>(of_int (n * m) :: rat) / of_int d\<rfloor>" by (simp only: floor_divide_of_int_eq)
  also have "(of_int (n * m) :: rat) / of_int d = q * of_int m" using q by simp
  finally show ?thesis by (simp add: nd)
qed

lemma unat_saturate:
  assumes "0 \<le> f"
  shows "unat (if f < 2 ^ 64 then word_of_int f else NOT 0 :: u64) = nat (min (2 ^ 64 - 1) f)"
proof (cases "f < 2 ^ 64")
  case True
  have "uint (word_of_int f :: u64) = f"
    using assms True by (simp add: uint_word_of_int_eq take_bit_int_eq_self)
  then show ?thesis using True by (simp add: unat_eq_nat_uint)
next
  case False
  then have "min (2 ^ 64 - 1) f = 2 ^ 64 - 1" by linarith
  then show ?thesis using False by (simp only: if_False unat_eq_nat_uint uint_all_ones)
qed

definition pool_share :: "rat option option \<Rightarrow> rat" where
  "pool_share stake = (case stake of Some (Some q) \<Rightarrow> q | _ \<Rightarrow> 0)"

lemma ledgerStakeFromRat_spec:
  "unat (ledgerStakeFromRat stake) = nat (min (2 ^ 64 - 1) (max 0 \<lfloor>pool_share stake * (2 ^ 64 - 1)\<rfloor>))"
proof (cases "0 < pool_share stake")
  case False
  then have "ledgerStakeFromRat stake = 0"
    by (auto simp: ledgerStakeFromRat_def pool_share_def sgn_if split: option.splits)
  moreover have "\<lfloor>pool_share stake * (2 ^ 64 - 1)\<rfloor> \<le> 0" using False by (simp add: floor_le_zero mult_le_0_iff mult_less_0_iff)
  ultimately show ?thesis by simp
next
  case True
  then obtain q where q: "stake = Some (Some q)" "0 < q"
    by (auto simp: pool_share_def split: option.splits)
  let ?f = "\<lfloor>q * (2 ^ 64 - 1)\<rfloor>"
  have f: "go_div (fst (quotient_of q) * uint (NOT (0::u64))) (snd (quotient_of q)) = ?f"
    using floor_scaled [OF q(2), of "2 ^ 64 - 1"] by (simp add: uint_all_ones del: bit.compl_zero)
  have pos: "0 \<le> ?f" using q(2) by simp
  have "ledgerStakeFromRat stake = (if ?f < 2 ^ 64 then word_of_int ?f else NOT 0)"
    using q pos by (simp add: ledgerStakeFromRat_def f Let_def del: bit.compl_zero)
  then show ?thesis
    using unat_saturate [OF pos] pos q(1) by (simp only: pool_share_def option.case max_absorb2)
qed

section \<open>Snapshots without pool identifiers\<close>

text \<open>A local-state-query snapshot has no pool identifiers, so every entry is a pool of its own.\<close>

definition anonymous :: "LedgerPeer list \<Rightarrow> bool" where
  "anonymous peers = (\<forall>p\<in>set peers. lp_PoolID p = [])"

definition idx_key :: "nat \<Rightarrow> string" where
  "idx_key j = ''idx:'' @ itoa (int j)"

lemma idx_key_inject [simp]: "idx_key i = idx_key j \<longleftrightarrow> i = j"
  by (simp add: idx_key_def itoa_def)

lemma inj_idx_key: "inj_on idx_key J"
  by (rule inj_onI) simp

lemma ledgerPeerPoolKey_anonymous: "lp_PoolID p = [] \<Longrightarrow> ledgerPeerPoolKey p j = idx_key j"
  by (simp add: ledgerPeerPoolKey_def idx_key_def)

lemma anonymous_entries:
  assumes "anonymous peers"
  shows "pool_entries 0 peers = map (\<lambda>j. (idx_key j, unat (lp_Stake (peers ! j)))) [0..<length peers]"
  using assms by (auto simp: anonymous_def pool_entries_def enumerate_eq_zip ledgerPeerPoolKey_anonymous intro!: nth_equalityI)

lemma anonymous_stake:
  assumes "anonymous peers" and "j < length peers"
  shows "best_stake (pool_entries 0 peers) (idx_key j) = unat (lp_Stake (peers ! j))"
proof -
  have "{e \<in> set (pool_entries 0 peers). fst e = idx_key j} = {(idx_key j, unat (lp_Stake (peers ! j)))}"
    using assms(2) by (auto simp: anonymous_entries [OF assms(1)])
  then show ?thesis by (simp add: best_stake_def)
qed

lemma anonymous_staked:
  assumes "anonymous peers"
  shows "staked_pools (pool_entries 0 peers) = idx_key ` {j. j < length peers \<and> lp_Stake (peers ! j) \<noteq> 0}"
  unfolding staked_pools_def anonymous_entries [OF assms]
  by (auto simp: unat_gt_0 intro!: rev_image_eqI)

lemma anonymous_sum:
  assumes "anonymous peers" and "J \<subseteq> {..<length peers}"
  shows "(\<Sum>k\<in>idx_key ` J. best_stake (pool_entries 0 peers) k) = (\<Sum>j\<in>J. unat (lp_Stake (peers ! j)))"
  using assms(2) by (subst sum.reindex [OF inj_idx_key])
    (auto intro!: sum.cong simp: anonymous_stake [OF assms(1)] subset_iff)

lemma anonymous_total:
  assumes "anonymous peers"
  shows "total_stake (pool_entries 0 peers) = (\<Sum>j<length peers. unat (lp_Stake (peers ! j)))"
proof -
  have "total_stake (pool_entries 0 peers)
      = (\<Sum>j\<in>{j. j < length peers \<and> lp_Stake (peers ! j) \<noteq> 0}. unat (lp_Stake (peers ! j)))"
    unfolding total_stake_def anonymous_staked [OF assms]
    by (rule anonymous_sum [OF assms]) auto
  also have "\<dots> = (\<Sum>j<length peers. unat (lp_Stake (peers ! j)))"
    by (rule sum.mono_neutral_left) (auto simp: unat_eq_0)
  finally show ?thesis .
qed

section \<open>The big-ledger peers of a local-state-query snapshot\<close>

definition query_peers :: "LedgerPeerSnapshotResult \<Rightarrow> LedgerPeer list" where
  "query_peers r = snap_Peers (convertLocalStateQueryLedgerPeerSnapshot (Some r))"

definition share :: "LedgerPeerSnapshotResult \<Rightarrow> nat \<Rightarrow> rat" where
  "share r j = pool_share (pd_PoolStake (sr_Pools r ! j))"

definition big_pools :: "LedgerPeerSnapshotResult \<Rightarrow> nat set" where
  "big_pools r = {j. j < length (sr_Pools r) \<and>
     ledgerPeerPoolKey (query_peers r ! j) j \<in> set (big_pool_keys (query_peers r))}"

text \<open>Shares of the total stake, as the query returns them.\<close>

definition valid_shares :: "LedgerPeerSnapshotResult \<Rightarrow> bool" where
  "valid_shares r = ((\<forall>j<length (sr_Pools r). 0 \<le> share r j) \<and> (\<Sum>j<length (sr_Pools r). share r j) \<le> 1)"

lemma query_peers_simps [simp]:
  "length (query_peers r) = length (sr_Pools r)" "anonymous (query_peers r)"
  "j < length (sr_Pools r) \<Longrightarrow> lp_PoolID (query_peers r ! j) = []"
  by (auto simp: query_peers_def convertLocalStateQueryLedgerPeerSnapshot_def anonymous_def)

lemma share_stake:
  assumes "valid_shares r" "j < length (sr_Pools r)"
  defines "s \<equiv> unat (lp_Stake (query_peers r ! j))"
  shows "of_nat s \<le> share r j * (2 ^ 64 - 1)" "share r j * (2 ^ 64 - 1) < of_nat s + 1"
proof -
  let ?q = "share r j" and ?M = "2 ^ 64 - 1 :: rat"
  have "?q \<le> (\<Sum>j<length (sr_Pools r). share r j)"
    using assms(1,2) by (intro member_le_sum) (auto simp: valid_shares_def)
  then have q: "0 \<le> ?q" "?q \<le> 1" using assms(1,2) by (auto simp: valid_shares_def)
  have "?q * ?M \<le> of_int (2 ^ 64 - 1)" using q(2) by simp
  then have "\<lfloor>?q * ?M\<rfloor> \<le> 2 ^ 64 - 1" by linarith
  moreover have "0 \<le> \<lfloor>?q * ?M\<rfloor>" using q(1) by simp
  moreover have "s = nat (min (2 ^ 64 - 1) (max 0 \<lfloor>?q * ?M\<rfloor>))"
    using assms(2) ledgerStakeFromRat_spec
    by (simp only: s_def query_peers_def convertLocalStateQueryLedgerPeerSnapshot_def option.case share_def
        LedgerPeerSnapshot.simps LedgerPeer.simps nth_map)
  ultimately have "of_nat s = (of_int \<lfloor>?q * ?M\<rfloor> :: rat)" by (simp only: max_absorb2 min_absorb2 of_nat_nat)
  then show "of_nat s \<le> ?q * ?M" "?q * ?M < of_nat s + 1" by linarith+
qed

lemma stakes_of_shares:
  assumes "valid_shares r" "J \<subseteq> {..<length (sr_Pools r)}"
  defines "s \<equiv> \<Sum>j\<in>J. unat (lp_Stake (query_peers r ! j))"
  shows "of_nat s \<le> (\<Sum>j\<in>J. share r j) * (2 ^ 64 - 1)"
    and "(\<Sum>j\<in>J. share r j) * (2 ^ 64 - 1) \<le> of_nat s + of_nat (card J)"
proof -
  have J: "j < length (sr_Pools r)" if "j \<in> J" for j using assms(2) that by auto
  have "(\<Sum>j\<in>J. of_nat (unat (lp_Stake (query_peers r ! j)))) \<le> (\<Sum>j\<in>J. share r j * (2 ^ 64 - 1))"
    by (intro sum_mono share_stake(1) [OF assms(1)] J)
  then show "of_nat s \<le> (\<Sum>j\<in>J. share r j) * (2 ^ 64 - 1)"
    unfolding s_def of_nat_sum sum_distrib_right .
  have "(\<Sum>j\<in>J. share r j * (2 ^ 64 - 1)) \<le> (\<Sum>j\<in>J. of_nat (unat (lp_Stake (query_peers r ! j))) + 1)"
    by (intro sum_mono less_imp_le share_stake(2) [OF assms(1)] J)
  then show "(\<Sum>j\<in>J. share r j) * (2 ^ 64 - 1) \<le> of_nat s + of_nat (card J)"
    by (simp only: s_def of_nat_sum sum_distrib_right sum.distrib sum_constant mult_1_right)
qed

lemma query_total_no_wrap:
  assumes "valid_shares r"
  shows "total_stake (pool_entries 0 (query_peers r)) < 2 ^ 64"
proof -
  let ?T = "total_stake (pool_entries 0 (query_peers r))" and ?Q = "\<Sum>j<length (sr_Pools r). share r j"
  have "of_nat ?T \<le> ?Q * (2 ^ 64 - 1)"
    using stakes_of_shares(1) [OF assms, of "{..<length (sr_Pools r)}"]
    by (simp only: anonymous_total query_peers_simps subset_refl)
  also have "\<dots> \<le> 1 * (2 ^ 64 - 1)" using assms by (intro mult_right_mono) (simp_all add: valid_shares_def)
  also have "\<dots> = of_nat (2 ^ 64 - 1)" by simp
  finally have "?T \<le> 2 ^ 64 - 1" by (simp only: of_nat_le_iff)
  then show ?thesis by simp
qed

lemma unstaked_none: "staked_pools (pool_entries 0 peers) = {} \<Longrightarrow> big_pool_keys peers = []"
  using collected_pools(2) [of peers]
  by (auto simp: big_pool_keys_def split: prod.splits)

lemma big_pool_keys_staked:
  assumes "valid_shares r"
  shows "set (big_pool_keys (query_peers r)) \<subseteq> staked_pools (pool_entries 0 (query_peers r))"
  using big_pool_keys_spec [OF query_total_no_wrap [OF assms]] unstaked_none [of "query_peers r"]
  by (cases "staked_pools (pool_entries 0 (query_peers r)) = {}") auto

lemma big_pools_keys:
  assumes "valid_shares r"
  shows "set (big_pool_keys (query_peers r)) = idx_key ` big_pools r"
  using big_pool_keys_staked [OF assms]
  by (auto simp: big_pools_def anonymous_staked ledgerPeerPoolKey_anonymous)

lemma query_selected_stake:
  assumes "valid_shares r"
  defines "T \<equiv> \<Sum>j<length (sr_Pools r). unat (lp_Stake (query_peers r ! j))"
  shows "T - T div 10 \<le> (\<Sum>j\<in>big_pools r. unat (lp_Stake (query_peers r ! j)))"
proof (cases "staked_pools (pool_entries 0 (query_peers r)) = {}")
  case True
  have "T = total_stake (pool_entries 0 (query_peers r))" by (simp only: T_def anonymous_total query_peers_simps)
  then show ?thesis using True by (simp add: total_stake_def)
next
  case False
  have "big_pools r \<subseteq> {..<length (query_peers r)}" by (auto simp: big_pools_def)
  then have "(\<Sum>k\<in>set (big_pool_keys (query_peers r)). best_stake (pool_entries 0 (query_peers r)) k)
      = (\<Sum>j\<in>big_pools r. unat (lp_Stake (query_peers r ! j)))"
    unfolding big_pools_keys [OF assms(1)] by (intro anonymous_sum) simp_all
  then show ?thesis
    using big_pool_keys_spec [OF query_total_no_wrap [OF assms(1)] False]
    by (simp add: T_def anonymous_total)
qed

lemma set_concat_enumerate:
  "set (concat (map f (filter P (enumerate 0 xs)))) = (\<Union>j\<in>{j. j < length xs \<and> P (j, xs ! j)}. set (f (j, xs ! j)))"
  by (force simp: in_set_enumerate_eq)

lemma ninety_arith:
  fixes Q M T S B n :: rat
  assumes "9 * T \<le> 10 * S" "Q * M \<le> T + n" "S \<le> B * M" "0 < M"
  shows "9 / 10 * (Q - n / M) \<le> B"
proof -
  have "9 * (a - n) \<le> 10 * b" if "a \<le> T + n" "S \<le> b" for a b :: rat using assms(1) that by (simp add: algebra_simps)
  then have "9 * (Q * M - n) \<le> 10 * (B * M)" using assms(2,3) by blast
  then show ?thesis using assms(4) by (simp add: field_simps)
qed

lemma query_selected_larger:
  assumes "valid_shares r" "i \<in> big_pools r" "j < length (sr_Pools r)" "j \<notin> big_pools r"
  shows "unat (lp_Stake (query_peers r ! j)) \<le> unat (lp_Stake (query_peers r ! i))"
proof (cases "lp_Stake (query_peers r ! j) = 0")
  case False
  let ?es = "pool_entries 0 (query_peers r)" and ?S = "set (big_pool_keys (query_peers r))"
  have j: "idx_key j \<in> staked_pools ?es - ?S"
    using assms(3,4) False by (auto simp: anonymous_staked big_pools_keys [OF assms(1)])
  then have "\<forall>k\<in>?S. \<forall>l\<in>staked_pools ?es - ?S. best_stake ?es l \<le> best_stake ?es k"
    using big_pool_keys_spec [OF query_total_no_wrap [OF assms(1)]] by blast
  moreover have "idx_key i \<in> ?S" using assms(2) by (simp add: big_pools_keys [OF assms(1)])
  ultimately have "best_stake ?es (idx_key j) \<le> best_stake ?es (idx_key i)" using j by blast
  then show ?thesis using assms(2,3) by (simp add: anonymous_stake big_pools_def)
qed simp

text \<open>
  C27: The pools of a local-state-query snapshot have stakes that are shares of the total.
  When the shares are not negative and add up to at most one, the pools selected as big-ledger
  pools hold ninety percent of the shares, up to the rounding of each share to one part in
  \<open>2 ^ 64 - 1\<close>: scaling to \<^verbatim>\<open>uint64\<close> neither overflows the total nor loses more than that. A
  pool that is not selected has no larger share than a selected one, again up to one such part, and
  the big-ledger peers are exactly the relay peers of the selected pools.
\<close>

theorem query_big_ledger_ninety:
  assumes "valid_shares r"
  shows "9 / 10 * ((\<Sum>j<length (sr_Pools r). share r j) - of_nat (length (sr_Pools r)) / (2 ^ 64 - 1))
           \<le> (\<Sum>j\<in>big_pools r. share r j)
    \<and> (\<forall>i\<in>big_pools r. \<forall>j<length (sr_Pools r). j \<notin> big_pools r \<longrightarrow> share r j < share r i + 1 / (2 ^ 64 - 1))
    \<and> set (pools_Big (BuildLedgerPeerPools (convertLocalStateQueryLedgerPeerSnapshot (Some r))))
        = (\<Union>j\<in>big_pools r. (\<lambda>p. p\<lparr>p_Source := PeerSourceBigLedger\<rparr>) ` set (pool_relays (query_peers r ! j)))"
proof (intro conjI ballI allI impI)
  let ?n = "length (sr_Pools r)" and ?M = "2 ^ 64 - 1 :: rat"
  let ?Q = "\<Sum>j<?n. share r j" and ?B = "\<Sum>j\<in>big_pools r. share r j"
  let ?T = "\<Sum>j<?n. unat (lp_Stake (query_peers r ! j))"
  let ?S = "\<Sum>j\<in>big_pools r. unat (lp_Stake (query_peers r ! j))"
  have big: "big_pools r \<subseteq> {..<?n}" by (auto simp: big_pools_def)
  have "9 * ?T \<le> 10 * ?S" using query_selected_stake [OF assms] by linarith
  then have "9 * of_nat ?T \<le> 10 * (of_nat ?S :: rat)" by (metis of_nat_le_iff of_nat_mult of_nat_numeral)
  moreover have "?Q * ?M \<le> of_nat ?T + of_nat ?n"
    using stakes_of_shares(2) [OF assms, of "{..<?n}"] by (simp only: card_lessThan subset_refl)
  ultimately show "9 / 10 * (?Q - of_nat ?n / ?M) \<le> ?B"
    using stakes_of_shares(1) [OF assms big] by (rule ninety_arith) simp
next
  fix i j assume i: "i \<in> big_pools r" and j: "j < length (sr_Pools r)" "j \<notin> big_pools r"
  let ?M = "2 ^ 64 - 1 :: rat"
  let ?s = "\<lambda>j. unat (lp_Stake (query_peers r ! j))"
  have i': "i < length (sr_Pools r)" using i by (simp add: big_pools_def)
  have "?s j \<le> ?s i" using query_selected_larger [OF assms i j] .
  then have "of_nat (?s j) \<le> (of_nat (?s i) :: rat)" by (simp only: of_nat_le_iff)
  then have "share r j * ?M < share r i * ?M + 1"
    using share_stake(2) [OF assms j(1)] share_stake(1) [OF assms i'] by linarith
  then show "share r j < share r i + 1 / ?M" by (simp add: field_simps)
next
  show "set (pools_Big (BuildLedgerPeerPools (convertLocalStateQueryLedgerPeerSnapshot (Some r))))
        = (\<Union>j\<in>big_pools r. (\<lambda>p. p\<lparr>p_Source := PeerSourceBigLedger\<rparr>) ` set (pool_relays (query_peers r ! j)))"
    using BuildLedgerPeerPools_pools [of "convertLocalStateQueryLedgerPeerSnapshot (Some r)"]
    by (simp only: query_peers_def [symmetric] big_pools_def set_map set_concat_enumerate image_UN prod.case
        query_peers_simps)
qed

definition ex_query :: LedgerPeerSnapshotResult where
  "ex_query = \<lparr>sr_HasSlot = True, sr_Slot = 7, sr_Pools =
     [\<lparr>pd_PoolStake = Some (Some (1 / 20)), pd_Relays = []\<rparr>,
      \<lparr>pd_PoolStake = Some (Some (1 / 2)), pd_Relays =
         [\<lparr>rap_Kind = RelayKindIPv4, rap_Port = Some 3001, rap_IPv4 = Some [10, 0, 0, 1], rap_IPv6 = None, rap_Domain = None\<rparr>]\<rparr>,
      \<lparr>pd_PoolStake = Some (Some (9 / 20)), pd_Relays = []\<rparr>, \<lparr>pd_PoolStake = None, pd_Relays = []\<rparr>]\<rparr>"

lemma ex_query_shares: "valid_shares ex_query" "(\<Sum>j<length (sr_Pools ex_query). share ex_query j) = 1"
  by (simp_all add: valid_shares_def share_def ex_query_def pool_share_def eval_nat_numeral All_less_Suc)

theorem query_big_ledger_ninety_witness:
  "valid_shares ex_query \<and> 9 / 10 * (1 - 4 / (2 ^ 64 - 1)) \<le> (\<Sum>j\<in>big_pools ex_query. share ex_query j)"
proof -
  have "length (sr_Pools ex_query) = 4" by (simp add: ex_query_def)
  then show ?thesis using query_big_ledger_ninety [OF ex_query_shares(1)] ex_query_shares by simp
qed

text \<open>
  C35: A stake share becomes \<open>\<lfloor>share * (2 ^ 64 - 1)\<rfloor>\<close>, clamped to the range of a
  \<^verbatim>\<open>uint64\<close>, for every rational, negative ones and a missing stake included; so the
  conversion keeps the order of the pools.
\<close>

theorem ledgerStakeFromRat_exact:
  "unat (ledgerStakeFromRat stake) = nat (min (2 ^ 64 - 1) (max 0 \<lfloor>pool_share stake * (2 ^ 64 - 1)\<rfloor>))
   \<and> mono (\<lambda>q. ledgerStakeFromRat (Some (Some q)))"
proof
  have *: "\<lfloor>q * (2 ^ 64 - 1)\<rfloor> \<le> \<lfloor>q' * (2 ^ 64 - 1)\<rfloor>" if "q \<le> q'" for q q' :: rat
    using that by (intro floor_mono mult_right_mono) simp_all
  show "mono (\<lambda>q. ledgerStakeFromRat (Some (Some q)))"
    unfolding mono_def word_le_nat_alt ledgerStakeFromRat_spec
    using * by (auto simp: pool_share_def intro!: nat_mono min.mono max.mono)
qed (rule ledgerStakeFromRat_spec)

section \<open>Relays\<close>

text \<open>
  The peers of a relay, whichever source it comes from: one for a name that is resolved as SRV, with
  the port the source gave, and otherwise one for the host name and for each address, with port 3001
  when the source gave none.
\<close>

definition host_peers :: "LedgerPeer \<Rightarrow> u64 \<Rightarrow> string list \<Rightarrow> Peer list" where
  "host_peers lp port hosts =
     map (\<lambda>h. newPeer h port (zero_Peer\<lparr>p_Source := PeerSourceLedger, p_PoolID := lp_PoolID lp, p_Stake := lp_Stake lp\<rparr>))
       hosts"

definition name_host :: "string \<Rightarrow> string list" where
  "name_host h = (if h = [] then [] else [h])"

definition ip_host :: "net_IP option \<Rightarrow> string list" where
  "ip_host ip = (case ip of None \<Rightarrow> [] | Some b \<Rightarrow> if b = [] then [] else [IP_String b])"

definition default_port :: "u64 \<Rightarrow> u64" where
  "default_port p = (if p = 0 then 3001 else p)"

definition opt :: "'a \<Rightarrow> 'a option \<Rightarrow> 'a" where
  "opt d x = (case x of None \<Rightarrow> d | Some y \<Rightarrow> y)"

lemmas relay_defs = host_peers_def name_host_def ip_host_def default_port_def opt_def ledgerRelayPeers_def IsSRV_def
  Let_def cloneIP_def

lemma dingo_relay_peers:
  "ledgerRelayPeers lp (dingoRelayToLedgerRelay r) =
     (if pr_Hostname r \<noteq> [] \<and> pr_Port r = 0 \<and> pr_IPv4 r = None \<and> pr_IPv6 r = None
      then host_peers lp 0 [pr_Hostname r]
      else host_peers lp (default_port (pr_Port r)) (name_host (pr_Hostname r) @ ip_host (pr_IPv4 r) @ ip_host (pr_IPv6 r)))"
  unfolding dingoRelayToLedgerRelay_def
  by (cases "pr_IPv4 r"; cases "pr_IPv6 r"; cases "pr_Hostname r = []"; cases "pr_Port r = 0") (simp_all add: relay_defs)

lemma query_relay_peers:
  "ledgerRelayPeers lp (localStateQueryRelayToLedgerRelay r) =
     (case rap_Kind r of
        RelayKindIPv4 \<Rightarrow> host_peers lp (default_port (opt 0 (rap_Port r))) (ip_host (rap_IPv4 r))
      | RelayKindIPv6 \<Rightarrow> host_peers lp (default_port (opt 0 (rap_Port r))) (ip_host (rap_IPv6 r))
      | RelayKindDomain \<Rightarrow> host_peers lp (default_port (opt 0 (rap_Port r))) (name_host (opt [] (rap_Domain r)))
      | RelayKindSRV \<Rightarrow> host_peers lp 0 (name_host (opt [] (rap_Domain r)))
      | RelayKindOther n \<Rightarrow> [])"
  unfolding localStateQueryRelayToLedgerRelay_def
  by (cases "rap_Kind r"; cases "rap_Port r"; cases "rap_IPv4 r"; cases "rap_IPv6 r"; cases "rap_Domain r")
     (simp_all add: relay_defs)

section \<open>The contract of a provider\<close>

text \<open>
  What peer discovery relies on: a provider never returns a snapshot under a context that is done.
  Discovery under such a context then changes nothing.
\<close>

locale snapshot_provider =
  fixes provider :: LedgerPeerSnapshotProvider
  assumes cancelled: "ctx_Err ctx \<noteq> None \<Longrightarrow> isl (provider ctx kind)"
begin

lemma discover_cancelled:
  assumes "ld_Provider (dc_LedgerPeers (tc_Discovery (tr_cfg t))) = Some provider" "ctx_Err ctx \<noteq> None"
  shows "snd (discoverPeers ctx t) = ([], t)"
    and "ld_Enabled (dc_LedgerPeers (tc_Discovery (tr_cfg t))) \<Longrightarrow>
      \<not> ld_AllowUnsupported (dc_LedgerPeers (tc_Discovery (tr_cfg t))) \<Longrightarrow> isl (fst (discoverPeers ctx t))"
  using cancelled [OF assms(2), of LedgerPeerSnapshotAll] assms(1)
  by (auto simp: discoverPeers_def Let_def isl_def)

end

lemma stakedProviderSnapshot_cancelled: "ctx_Err ctx \<noteq> None \<Longrightarrow> isl (stakedProviderSnapshot ctx sp)"
  by (auto simp: stakedProviderSnapshot_def)

interpretation dingo: snapshot_provider "Dingo_LedgerPeerSnapshot a" for a
  by unfold_locales (auto simp: Dingo_LedgerPeerSnapshot_def stakedProviderSnapshot_cancelled split: option.splits)

interpretation query: snapshot_provider "LocalStateQuery_LedgerPeerSnapshot after client" for after client
  by unfold_locales (auto simp: LocalStateQuery_LedgerPeerSnapshot_def split: option.splits sum.splits)

abbreviation ledger_cfg :: "topicRuntime \<Rightarrow> LedgerPeerDiscoveryConfig" where
  "ledger_cfg t \<equiv> dc_LedgerPeers (tc_Discovery (tr_cfg t))"

definition relay_only :: "DingoLedgerPeerProviderAdapter \<Rightarrow> LedgerPeerProvider \<Rightarrow> bool" where
  "relay_only a p = (dpa_StakedProvider a = None \<and> dpa_Provider a = Some p \<and> lpp_Staked p = None)"

lemma relay_only_snapshot:
  assumes "relay_only a p"
  shows "Dingo_LedgerPeerSnapshot a ctx kind = Inr snap \<longleftrightarrow>
    dpa_AllowRelayOnly a \<and> kind \<noteq> LedgerPeerSnapshotBig \<and> ctx_Err ctx = None \<and>
    (\<exists>relays. lpp_GetPoolRelays p ctx = Inr relays \<and>
       snap = \<lparr>snap_Slot = lpp_CurrentSlot p, snap_Peers = map (\<lambda>relay. \<lparr>lp_PoolID = [], lp_Stake = 0,
          lp_Relays = [dingoRelayToLedgerRelay relay]\<rparr>) relays\<rparr>)"
  using assms by (auto simp: relay_only_def Dingo_LedgerPeerSnapshot_def split: option.splits sum.splits)

lemma no_stake_no_big:
  "(\<And>p. p \<in> set peers \<Longrightarrow> lp_Stake p = 0) \<Longrightarrow> bigLedgerPeers peers = []"
proof -
  assume z: "\<And>p. p \<in> set peers \<Longrightarrow> lp_Stake p = 0"
  have "collect_pools i ps m k n = (m, k, n)" if "set ps \<subseteq> set peers" for i ps m k n
    using that z by (induction ps arbitrary: i) auto
  then show ?thesis by (simp add: bigLedgerPeers_def)
qed

text \<open>
  C36: A dingo source that only knows relays gives a snapshot exactly when relay-only data is
  allowed, the big-ledger peers are not what is asked for, the context is live and the source answers.
  The full pool then holds the peers of every relay, without stake, and there are no big-ledger peers
  to select. When relay-only data is not allowed, the error is \<^verbatim>\<open>ErrLedgerPeerSnapshotUnsupported\<close>
  and discovery falls back to the known peers where it is configured to.
\<close>

theorem relay_only_snapshots:
  assumes "relay_only a p"
  shows "(\<exists>snap. Dingo_LedgerPeerSnapshot a ctx kind = Inr snap) =
      (dpa_AllowRelayOnly a \<and> kind \<noteq> LedgerPeerSnapshotBig \<and> ctx_Err ctx = None \<and> \<not> isl (lpp_GetPoolRelays p ctx))
    \<and> (\<forall>snap relays. Dingo_LedgerPeerSnapshot a ctx kind = Inr snap \<and> lpp_GetPoolRelays p ctx = Inr relays \<longrightarrow>
         snap_Slot snap = lpp_CurrentSlot p \<and> pools_Big (BuildLedgerPeerPools snap) = []
         \<and> mset (pools_All (BuildLedgerPeerPools snap)) = mset (concat (map (\<lambda>r.
             ledgerRelayPeers \<lparr>lp_PoolID = [], lp_Stake = 0, lp_Relays = []\<rparr> (dingoRelayToLedgerRelay r)) relays)))
    \<and> (\<not> dpa_AllowRelayOnly a \<and> ld_Enabled (ledger_cfg t) \<and> ld_Provider (ledger_cfg t) = Some (Dingo_LedgerPeerSnapshot a) \<longrightarrow>
         (if ld_AllowUnsupported (ledger_cfg t) then discoverPeers ctx t = (Inr (Peers (tr_peerSelector t)), [], t)
          else \<exists>e. discoverPeers ctx t = (Inl e, [], t) \<and> errors_is e ErrLedgerPeerSnapshotUnsupported))"
proof (intro conjI allI impI)
  show "(\<exists>snap. Dingo_LedgerPeerSnapshot a ctx kind = Inr snap) =
      (dpa_AllowRelayOnly a \<and> kind \<noteq> LedgerPeerSnapshotBig \<and> ctx_Err ctx = None \<and> \<not> isl (lpp_GetPoolRelays p ctx))"
    unfolding relay_only_snapshot [OF assms] by (cases "lpp_GetPoolRelays p ctx") auto
next
  fix snap relays assume *: "Dingo_LedgerPeerSnapshot a ctx kind = Inr snap \<and> lpp_GetPoolRelays p ctx = Inr relays"
  then have snap: "snap_Slot snap = lpp_CurrentSlot p" "snap_Peers snap = map (\<lambda>relay. \<lparr>lp_PoolID = [], lp_Stake = 0,
      lp_Relays = [dingoRelayToLedgerRelay relay]\<rparr>) relays"
    by (auto simp: relay_only_snapshot [OF assms])
  show "snap_Slot snap = lpp_CurrentSlot p" by (rule snap)
  show "pools_Big (BuildLedgerPeerPools snap) = []"
    by (auto simp: BuildLedgerPeerPools_def Let_def snap(2) intro!: no_stake_no_big)
  show "mset (pools_All (BuildLedgerPeerPools snap)) = mset (concat (map (\<lambda>r.
      ledgerRelayPeers \<lparr>lp_PoolID = [], lp_Stake = 0, lp_Relays = []\<rparr> (dingoRelayToLedgerRelay r)) relays))"
    by (simp add: BuildLedgerPeerPools_def Let_def snap(2) comp_def ledgerRelayPeers_def)
next
  assume *: "\<not> dpa_AllowRelayOnly a \<and> ld_Enabled (ledger_cfg t) \<and> ld_Provider (ledger_cfg t) = Some (Dingo_LedgerPeerSnapshot a)"
  then have "\<exists>f. Dingo_LedgerPeerSnapshot a ctx LedgerPeerSnapshotAll =
      Inl (Errorf f [WrapArg (Sentinel ErrLedgerPeerSnapshotUnsupported)])"
    using assms by (auto simp: relay_only_def Dingo_LedgerPeerSnapshot_def)
  then show "if ld_AllowUnsupported (ledger_cfg t) then discoverPeers ctx t = (Inr (Peers (tr_peerSelector t)), [], t)
      else \<exists>e. discoverPeers ctx t = (Inl e, [], t) \<and> errors_is e ErrLedgerPeerSnapshotUnsupported"
    using * by (auto simp: discoverPeers_def Let_def)
qed

definition ex_ctx :: gocontext where
  "ex_ctx = \<lparr>ctx_id = 0, ctx_Err = None\<rparr>"

definition ex_dingo :: LedgerPeerProvider where
  "ex_dingo = \<lparr>lpp_GetPoolRelays = (\<lambda>ctx. Inr [\<lparr>pr_Hostname = ''r'', pr_Port = 3001, pr_IPv4 = None, pr_IPv6 = None\<rparr>]),
     lpp_CurrentSlot = 42, lpp_Staked = None\<rparr>"

definition ex_adapter :: "bool \<Rightarrow> DingoLedgerPeerProviderAdapter" where
  "ex_adapter b = \<lparr>dpa_Provider = Some ex_dingo, dpa_StakedProvider = None, dpa_AllowRelayOnly = b\<rparr>"

lemma ex_adapter_relay_only: "relay_only (ex_adapter b) ex_dingo"
  by (simp add: relay_only_def ex_adapter_def ex_dingo_def)

theorem relay_only_snapshots_witness:
  "(\<exists>snap. Dingo_LedgerPeerSnapshot (ex_adapter True) ex_ctx LedgerPeerSnapshotAll = Inr snap)
   \<and> \<not> (\<exists>snap. Dingo_LedgerPeerSnapshot (ex_adapter True) ex_ctx LedgerPeerSnapshotBig = Inr snap)"
  using relay_only_snapshots [OF ex_adapter_relay_only [of True], of ex_ctx LedgerPeerSnapshotAll ex_topic0]
    relay_only_snapshots [OF ex_adapter_relay_only [of True], of ex_ctx LedgerPeerSnapshotBig ex_topic0]
  by (simp add: ex_adapter_def ex_ctx_def ex_dingo_def)

text \<open>
  Under a context that is done, discovery through either provider calls no hook and leaves the
  topic's peers as they were, and it returns an error unless it is disabled or may fall back; a query
  whose context ends while it runs is such a case too: its answer is discarded.
\<close>

theorem cancelled_discovery_keeps_peers:
  assumes "ld_Provider (ledger_cfg t) = Some (Dingo_LedgerPeerSnapshot a) \<and> ctx_Err ctx \<noteq> None
    \<or> ld_Provider (ledger_cfg t) = Some (LocalStateQuery_LedgerPeerSnapshot after client)
        \<and> (ctx_Err ctx \<noteq> None \<or> ctx_Err (after ctx) \<noteq> None)"
  shows "snd (discoverPeers ctx t) = ([], t)
    \<and> (ld_Enabled (ledger_cfg t) \<and> \<not> ld_AllowUnsupported (ledger_cfg t) \<longrightarrow> isl (fst (discoverPeers ctx t)))"
  using assms
proof (elim disjE conjE)
  assume late: "ctx_Err (after ctx) \<noteq> None"
    and p: "ld_Provider (ledger_cfg t) = Some (LocalStateQuery_LedgerPeerSnapshot after client)"
  have "isl (LocalStateQuery_LedgerPeerSnapshot after client ctx LedgerPeerSnapshotAll)"
    using late by (auto simp: LocalStateQuery_LedgerPeerSnapshot_def split: option.splits sum.splits)
  then show ?thesis using p by (auto simp: discoverPeers_def Let_def isl_def)
qed (auto dest: dingo.discover_cancelled query.discover_cancelled)

definition ex_query_topic :: topicRuntime where
  "ex_query_topic = ex_topic0\<lparr>tr_cfg := (tr_cfg ex_topic0)\<lparr>tc_Discovery := (tc_Discovery (tr_cfg ex_topic0))\<lparr>dc_LedgerPeers :=
     (ledger_cfg ex_topic0)\<lparr>ld_Enabled := True, ld_AllowUnsupported := False,
       ld_Provider := Some (LocalStateQuery_LedgerPeerSnapshot (\<lambda>c. c\<lparr>ctx_Err := Some (Sentinel ContextCanceled)\<rparr>)
         (Some (\<lambda>k. Inr (Some ex_query))))\<rparr>\<rparr>\<rparr>\<rparr>"

theorem cancelled_discovery_keeps_peers_witness:
  "ctx_Err ex_ctx = None \<and> snd (discoverPeers ex_ctx ex_query_topic) = ([], ex_query_topic)
   \<and> isl (fst (discoverPeers ex_ctx ex_query_topic))"
  using cancelled_discovery_keeps_peers [of ex_query_topic "ex_adapter True" ex_ctx
      "\<lambda>c. c\<lparr>ctx_Err := Some (Sentinel ContextCanceled)\<rparr>" "Some (\<lambda>k. Inr (Some ex_query))"]
  by (simp add: ex_query_topic_def ex_ctx_def)

text \<open>
  The relays of both sources become the same peers as their addresses say: an SRV name gives
  one peer under that name, with no port; any other relay gives one peer for its host name and one
  for each address it has, at its port or at 3001; a relay of an unknown kind gives none.
\<close>

theorem relay_conversions:
  "ledgerRelayPeers lp (dingoRelayToLedgerRelay r) =
     (if pr_Hostname r \<noteq> [] \<and> pr_Port r = 0 \<and> pr_IPv4 r = None \<and> pr_IPv6 r = None
      then host_peers lp 0 [pr_Hostname r]
      else host_peers lp (default_port (pr_Port r)) (name_host (pr_Hostname r) @ ip_host (pr_IPv4 r) @ ip_host (pr_IPv6 r)))
   \<and> ledgerRelayPeers lp (localStateQueryRelayToLedgerRelay q) =
     (case rap_Kind q of
        RelayKindIPv4 \<Rightarrow> host_peers lp (default_port (opt 0 (rap_Port q))) (ip_host (rap_IPv4 q))
      | RelayKindIPv6 \<Rightarrow> host_peers lp (default_port (opt 0 (rap_Port q))) (ip_host (rap_IPv6 q))
      | RelayKindDomain \<Rightarrow> host_peers lp (default_port (opt 0 (rap_Port q))) (name_host (opt [] (rap_Domain q)))
      | RelayKindSRV \<Rightarrow> host_peers lp 0 (name_host (opt [] (rap_Domain q)))
      | RelayKindOther n \<Rightarrow> [])"
  by (intro conjI dingo_relay_peers query_relay_peers)

text \<open>
  A source with stake returns the same snapshot whichever population is asked for: the request for
  the big-ledger peers alone is ignored, and the selection is left to \<open>BuildLedgerPeerPools\<close>.
\<close>

theorem staked_snapshot_ignores_kind:
  assumes "dpa_StakedProvider a = Some sp"
  shows "Dingo_LedgerPeerSnapshot a ctx LedgerPeerSnapshotBig = Dingo_LedgerPeerSnapshot a ctx LedgerPeerSnapshotAll"
  using assms by (simp add: Dingo_LedgerPeerSnapshot_def)

end
