(* ===== verification/Peer_Connection.thy ===== *)
theory Peer_Connection
  imports Node_Correctness "HOL-Library.Sublist"
begin

text \<open>
  \<^verbatim>\<open>network.go\<close>, the connection of a peer (\<^verbatim>\<open>nodeToNodePeerConnection\<close>): its construction by
  handshake and start of the message-submission protocol, the goroutines \<^verbatim>\<open>forwardErrors\<close> and
  \<^verbatim>\<open>startPull\<close>, \<^verbatim>\<open>Wait\<close> and \<^verbatim>\<open>Close\<close>. The socket, the muxer and the protocols are
  parameters: the errors and events they deliver are inputs, the calls made on them are recorded.
  The goroutines are program counters of one state whose step relation interleaves them freely.
\<close>

section \<open>The connection\<close>

text \<open>The two sides of the message-submission protocol, where they are not nil.\<close>

record MessageSubmission =
  mh_Client :: bool
  mh_Server :: bool

datatype conn_call =
    SetDeadline "gotime option"
  | StartHandshake bool
  | MuxerStartOnce
  | StartClient
  | StartServer
  | SetDiffusionMode
  | StartMuxer
  | InitClient

text \<open>What the function given to \<^verbatim>\<open>closeOnce\<close> does, and how far a \<^verbatim>\<open>sync.Once\<close> is.\<close>

datatype close_action = CloseDone | ServerDone | ClientStop | MuxerStop | ConnClose

datatype sync_Once = OnceFresh | OnceRunning "close_action list" | OnceDone

text \<open>
  \<open>pc_errorCh\<close> is the number of values in the channel, of capacity one; \<open>pc_done\<close> is whether
  the channel \<^verbatim>\<open>done\<close> is closed; \<open>pc_flows\<close> are the flows with the options they are made with;
  \<open>pc_calls\<close> and \<open>pc_closed\<close> record the calls of construction and of closing.
\<close>

record nodeToNodePeerConnection =
  pc_peer :: Peer
  pc_errorCh :: nat
  pc_done :: bool
  pc_closeOnce :: sync_Once
  pc_lastErr :: "go_error option"
  pc_messageSubmission :: "MessageSubmission option"
  pc_flows :: "(submissionFlowOptions \<times> submissionFlows) option"
  pc_calls :: "conn_call list"
  pc_closed :: "close_action list"

definition pcall :: "conn_call list \<Rightarrow> nodeToNodePeerConnection \<Rightarrow> nodeToNodePeerConnection" where
  "pcall cs p = p\<lparr>pc_calls := pc_calls p @ cs\<rparr>"

definition peerErr :: "nodeToNodePeerConnection \<Rightarrow> go_error option" where
  "peerErr p = pc_lastErr p"

section \<open>Closing\<close>

definition close_body :: "nodeToNodePeerConnection \<Rightarrow> close_action list" where
  "close_body p = CloseDone #
     (case pc_messageSubmission p of
        None \<Rightarrow> []
      | Some h \<Rightarrow> (if mh_Server h then [ServerDone] else []) @ (if mh_Client h then [ClientStop] else []))
     @ [MuxerStop, ConnClose]"

definition close_do :: "close_action \<Rightarrow> nodeToNodePeerConnection \<Rightarrow> nodeToNodePeerConnection" where
  "close_do a p = (if a = CloseDone then p\<lparr>pc_done := True\<rparr> else p)\<lparr>pc_closed := pc_closed p @ [a]\<rparr>"

text \<open>\<^verbatim>\<open>Close\<close> run by one goroutine to its end.\<close>

definition Close_connection :: "nodeToNodePeerConnection \<Rightarrow> nodeToNodePeerConnection" where
  "Close_connection p =
     (if pc_closeOnce p = OnceFresh then (fold close_do (close_body p) p)\<lparr>pc_closeOnce := OnceDone\<rparr> else p)"

section \<open>Construction\<close>

text \<open>
  What the handshake's \<^verbatim>\<open>select\<close> receives: the end of the service's context, a value of one of the
  error channels (\<open>None\<close> is nil, which is also what a closed channel gives), or the version that was
  agreed on. \<open>connect_world\<close> holds the outcomes of the calls of construction and the version
  constant of the protocol library.
\<close>

datatype handshake_event =
    ContextDone go_error
  | ProtoError "go_error option"
  | MuxerError "go_error option"
  | Finished u16

record connect_world =
  cw_setDeadline :: "go_error option"
  cw_event :: handshake_event
  cw_resetDeadline :: "go_error option"
  cw_init :: "go_error option"
  cw_ProtocolVersionDMQNtN1 :: u16

definition defaultNodeToNodeHandshakeTimeout :: duration where
  "defaultNodeToNodeHandshakeTimeout = 10 * Second"

definition handshake :: "gotime \<Rightarrow> connect_world \<Rightarrow> bool \<Rightarrow> nodeToNodePeerConnection \<Rightarrow>
    (u16 \<times> go_error option) \<times> nodeToNodePeerConnection" where
  "handshake now w server p =
     (let p = pcall [SetDeadline (Some (time_Add now defaultNodeToNodeHandshakeTimeout))] p in
      case cw_setDeadline w of
        Some err \<Rightarrow> ((0, Some err), p)
      | None \<Rightarrow>
          (let p = pcall [StartHandshake server, MuxerStartOnce] p;
               (version, err) = (case cw_event w of
                   ContextDone e \<Rightarrow> (0, Some e)
                 | ProtoError e \<Rightarrow> (0, e)
                 | MuxerError e \<Rightarrow> (0, e)
                 | Finished v \<Rightarrow> (v, None));
               p = pcall [SetDeadline None] p;
               err = (if cw_resetDeadline w \<noteq> None \<and> err = None then cw_resetDeadline w else err)
           in ((version, err), p)))"

definition startMessageSubmission :: "Manager \<Rightarrow> NodeToNodeService \<Rightarrow> connect_world \<Rightarrow> u16 \<Rightarrow> nodeToNodePeerConnection \<Rightarrow>
    go_error option \<times> nodeToNodePeerConnection" where
  "startMessageSubmission m s w version p =
     (case messageSubmissionConfig m (ns_topic s) of
        Inl err \<Rightarrow> (Some err, p)
      | Inr rt \<Rightarrow>
          (let p = p\<lparr>pc_flows := Some (\<lparr>so_requestCount = requestCount s, so_holdInterval = requestInterval s\<rparr>, []),
                     pc_messageSubmission := Some \<lparr>mh_Client = True, mh_Server = True\<rparr>\<rparr>;
               p = pcall [StartClient, StartServer, SetDiffusionMode, StartMuxer] p
           in if version = cw_ProtocolVersionDMQNtN1 w then (cw_init w, pcall [InitClient] p) else (None, p)))"

definition freshConnection :: "Peer \<Rightarrow> nodeToNodePeerConnection" where
  "freshConnection peer = \<lparr>pc_peer = peer, pc_errorCh = 0, pc_done = False, pc_closeOnce = OnceFresh,
     pc_lastErr = None, pc_messageSubmission = None, pc_flows = None, pc_calls = [], pc_closed = []\<rparr>"

text \<open>The result pairs the error with the connection as it was left, closed when there is an error.\<close>

definition newNodeToNodePeerConnection :: "gotime \<Rightarrow> connect_world \<Rightarrow> Manager \<Rightarrow> NodeToNodeService \<Rightarrow> Peer \<Rightarrow> bool \<Rightarrow>
    go_error option \<times> nodeToNodePeerConnection" where
  "newNodeToNodePeerConnection now w m s peer server =
     (let ((version, err), p) = handshake now w server (freshConnection peer) in
      if err \<noteq> None then (err, Close_connection p)
      else let (err, p) = startMessageSubmission m s w version p in
        if err \<noteq> None then (err, Close_connection p) else (None, p))"

section \<open>The goroutines\<close>

text \<open>\<^verbatim>\<open>startPull\<close> up to the reply of the protocol: the request it sends, if any.\<close>

definition startPull :: "string \<Rightarrow> nodeToNodePeerConnection \<Rightarrow> protocol_call option \<times> nodeToNodePeerConnection" where
  "startPull cid p =
     (case (pc_messageSubmission p, pc_flows p) of
        (Some h, Some (opts, fs)) \<Rightarrow>
          if \<not> mh_Server h then (None, p)
          else let (f, fs) = forConnection opts cid fs; (call, f) = requestIDs f
               in (Some call, p\<lparr>pc_flows := Some (opts, storeFlow cid f fs)\<rparr>)
      | _ \<Rightarrow> (None, p))"

definition pullError :: "go_error \<Rightarrow> go_error" where
  "pullError e = Errorf ''request DMQ message IDs: %w'' [WrapArg e]"

text \<open>The three parts of \<^verbatim>\<open>sendError\<close>: the hook, the recorded error, the non-blocking send.\<close>

datatype send_pc = SendHook | SendRecord | SendSignal

datatype fwd_pc = FSelect | FSend go_error send_pc | FClose | FExit
datatype pull_pc = PStart | PSend go_error send_pc | PExit
datatype wait_pc = WSelect | WClose | WExit

record conn_sys =
  cs_conn :: nodeToNodePeerConnection
  cs_ctxDone :: bool
  cs_protoErrorCh :: "go_error option list"
  cs_muxErrorCh :: "go_error option list"
  cs_fwd :: fwd_pc
  cs_pull :: pull_pc
  cs_wait :: wait_pc
  cs_reported :: "go_error list"
  cs_received :: "go_error option"
  cs_woken :: bool

text \<open>
  \<open>cs_reported\<close> are the errors given to \<^verbatim>\<open>callError\<close>; \<open>cs_received\<close> is the error that
  \<^verbatim>\<open>forwardErrors\<close> received and \<open>cs_woken\<close> whether \<^verbatim>\<open>Wait\<close> was woken by \<^verbatim>\<open>errorCh\<close>: both are
  only observed.
\<close>

definition sendError :: "go_error \<Rightarrow> send_pc \<Rightarrow> conn_sys \<Rightarrow> conn_sys" where
  "sendError err pc s =
     (case pc of
        SendHook \<Rightarrow> s\<lparr>cs_reported := cs_reported s @ [err]\<rparr>
      | SendRecord \<Rightarrow> s\<lparr>cs_conn := (cs_conn s)\<lparr>pc_lastErr := Some err\<rparr>\<rparr>
      | SendSignal \<Rightarrow> s\<lparr>cs_conn := (cs_conn s)\<lparr>pc_errorCh := min 1 (Suc (pc_errorCh (cs_conn s)))\<rparr>\<rparr>)"

definition send_next :: "send_pc \<Rightarrow> send_pc option" where
  "send_next pc = (case pc of SendHook \<Rightarrow> Some SendRecord | SendRecord \<Rightarrow> Some SendSignal | SendSignal \<Rightarrow> None)"

definition fwd_after :: "go_error \<Rightarrow> send_pc \<Rightarrow> fwd_pc" where
  "fwd_after err pc = (case send_next pc of None \<Rightarrow> FClose | Some pc' \<Rightarrow> FSend err pc')"

definition pull_after :: "go_error \<Rightarrow> send_pc \<Rightarrow> pull_pc" where
  "pull_after err pc = (case send_next pc of None \<Rightarrow> PExit | Some pc' \<Rightarrow> PSend err pc')"

definition forwarded :: "go_error option \<Rightarrow> fwd_pc" where
  "forwarded e = (case e of None \<Rightarrow> FClose | Some err \<Rightarrow> FSend err SendHook)"

definition set_once :: "sync_Once \<Rightarrow> conn_sys \<Rightarrow> conn_sys" where
  "set_once o' s = s\<lparr>cs_conn := (cs_conn s)\<lparr>pc_closeOnce := o'\<rparr>\<rparr>"

abbreviation once :: "conn_sys \<Rightarrow> sync_Once" where
  "once s \<equiv> pc_closeOnce (cs_conn s)"

text \<open>
  A step of the connection. The two error channels are received from in their order; \<^verbatim>\<open>select\<close>
  takes any case that is ready; a caller of \<^verbatim>\<open>Close\<close> runs the function when it comes first, and
  returns when the function has returned.
\<close>

inductive conn_step :: "string \<Rightarrow> conn_sys \<Rightarrow> conn_sys \<Rightarrow> bool" for cid where
  fwd_ctx: "cs_fwd s = FSelect \<Longrightarrow> cs_ctxDone s \<Longrightarrow> conn_step cid s (s\<lparr>cs_fwd := FClose\<rparr>)"
| fwd_done: "cs_fwd s = FSelect \<Longrightarrow> pc_done (cs_conn s) \<Longrightarrow> conn_step cid s (s\<lparr>cs_fwd := FClose\<rparr>)"
| fwd_proto: "cs_fwd s = FSelect \<Longrightarrow> cs_protoErrorCh s = e # es \<Longrightarrow>
    conn_step cid s (s\<lparr>cs_protoErrorCh := es, cs_fwd := forwarded e, cs_received := e\<rparr>)"
| fwd_mux: "cs_fwd s = FSelect \<Longrightarrow> cs_muxErrorCh s = e # es \<Longrightarrow>
    conn_step cid s (s\<lparr>cs_muxErrorCh := es, cs_fwd := forwarded e, cs_received := e\<rparr>)"
| fwd_send: "cs_fwd s = FSend err pc \<Longrightarrow> conn_step cid s ((sendError err pc s)\<lparr>cs_fwd := fwd_after err pc\<rparr>)"
| fwd_close: "cs_fwd s = FClose \<Longrightarrow> once s = OnceFresh \<Longrightarrow> conn_step cid s (set_once (OnceRunning (close_body (cs_conn s))) s)"
| fwd_exit: "cs_fwd s = FClose \<Longrightarrow> once s = OnceDone \<Longrightarrow> conn_step cid s (s\<lparr>cs_fwd := FExit\<rparr>)"
| pull_start: "cs_pull s = PStart \<Longrightarrow> startPull cid (cs_conn s) = (call, p) \<Longrightarrow> call = None \<longrightarrow> reply = None \<Longrightarrow>
    conn_step cid s (s\<lparr>cs_conn := p, cs_pull := (case reply of None \<Rightarrow> PExit | Some e \<Rightarrow> PSend (pullError e) SendHook)\<rparr>)"
| pull_send: "cs_pull s = PSend err pc \<Longrightarrow> conn_step cid s ((sendError err pc s)\<lparr>cs_pull := pull_after err pc\<rparr>)"
| wait_ctx: "cs_wait s = WSelect \<Longrightarrow> cs_ctxDone s \<Longrightarrow> conn_step cid s (s\<lparr>cs_wait := WClose\<rparr>)"
| wait_done: "cs_wait s = WSelect \<Longrightarrow> pc_done (cs_conn s) \<Longrightarrow> conn_step cid s (s\<lparr>cs_wait := WExit\<rparr>)"
| wait_error: "cs_wait s = WSelect \<Longrightarrow> 0 < pc_errorCh (cs_conn s) \<Longrightarrow>
    conn_step cid s (s\<lparr>cs_conn := (cs_conn s)\<lparr>pc_errorCh := pc_errorCh (cs_conn s) - 1\<rparr>, cs_wait := WClose, cs_woken := True\<rparr>)"
| wait_close: "cs_wait s = WClose \<Longrightarrow> once s = OnceFresh \<Longrightarrow> conn_step cid s (set_once (OnceRunning (close_body (cs_conn s))) s)"
| wait_exit: "cs_wait s = WClose \<Longrightarrow> once s = OnceDone \<Longrightarrow> conn_step cid s (s\<lparr>cs_wait := WExit\<rparr>)"
| close_act: "once s = OnceRunning (a # as) \<Longrightarrow>
    conn_step cid s (set_once (OnceRunning as) (s\<lparr>cs_conn := close_do a (cs_conn s)\<rparr>))"
| close_end: "once s = OnceRunning [] \<Longrightarrow> conn_step cid s (set_once OnceDone s)"

text \<open>
  What happens around it: the service's context ends, a protocol or the muxer delivers an error
  (the channel of the protocols holds ten), another goroutine calls \<^verbatim>\<open>Close\<close>, as the service does.
\<close>

inductive env_step :: "conn_sys \<Rightarrow> conn_sys \<Rightarrow> bool" where
  env_cancel: "env_step s (s\<lparr>cs_ctxDone := True\<rparr>)"
| env_proto: "length (cs_protoErrorCh s) < 10 \<Longrightarrow> env_step s (s\<lparr>cs_protoErrorCh := cs_protoErrorCh s @ [e]\<rparr>)"
| env_mux: "env_step s (s\<lparr>cs_muxErrorCh := cs_muxErrorCh s @ [e]\<rparr>)"
| env_close: "once s = OnceFresh \<Longrightarrow> env_step s (set_once (OnceRunning (close_body (cs_conn s))) s)"

text \<open>The start: a connection that was constructed, its goroutines about to run.\<close>

definition conn_init :: "conn_sys \<Rightarrow> bool" where
  "conn_init s = ((\<exists>now w m srv peer server. newNodeToNodePeerConnection now w m srv peer server = (None, cs_conn s))
     \<and> cs_fwd s = FSelect \<and> cs_pull s = PStart \<and> cs_wait s = WSelect
     \<and> cs_reported s = [] \<and> cs_received s = None \<and> \<not> cs_woken s)"

definition conn_reach :: "string \<Rightarrow> conn_sys \<Rightarrow> bool" where
  "conn_reach cid = reach conn_init (\<lambda>s t. conn_step cid s t \<or> env_step s t)"

section \<open>Construction closes what it cannot finish\<close>

lemma fold_close_do:
  "fold close_do as p = p\<lparr>pc_done := pc_done p \<or> CloseDone \<in> set as, pc_closed := pc_closed p @ as\<rparr>"
  by (induction as arbitrary: p) (auto simp: close_do_def)

lemma close_body_simps [simp]:
  "CloseDone \<in> set (close_body p)" "MuxerStop \<in> set (close_body p)" "ConnClose \<in> set (close_body p)"
  "distinct (close_body p)" "hd (close_body p) = CloseDone" "length (close_body p) \<le> 5" "close_body p \<noteq> []"
  by (auto simp: close_body_def split: option.splits)

lemma close_body_update [simp]:
  "close_body (p\<lparr>pc_errorCh := n\<rparr>) = close_body p" "close_body (p\<lparr>pc_lastErr := e\<rparr>) = close_body p"
  "close_body (p\<lparr>pc_closeOnce := c\<rparr>) = close_body p" "close_body (p\<lparr>pc_flows := f\<rparr>) = close_body p"
  "close_body (close_do a p) = close_body p"
  by (simp_all add: close_body_def close_do_def)

lemma Close_fresh:
  "pc_closeOnce p = OnceFresh \<Longrightarrow> Close_connection p =
     p\<lparr>pc_done := True, pc_closed := pc_closed p @ close_body p, pc_closeOnce := OnceDone\<rparr>"
  by (simp add: Close_connection_def fold_close_do)

definition untouched :: "nodeToNodePeerConnection \<Rightarrow> bool" where
  "untouched p = (pc_closeOnce p = OnceFresh \<and> pc_closed p = [] \<and> \<not> pc_done p \<and> pc_lastErr p = None \<and> pc_errorCh p = 0)"

lemma untouched_pcall [simp]: "untouched (pcall cs p) = untouched p"
  by (simp add: untouched_def pcall_def)

lemma handshake_spec:
  assumes "handshake now w server p = ((version, err), p')"
  shows "untouched p \<Longrightarrow> untouched p'"
    and "err = None \<longleftrightarrow> cw_setDeadline w = None \<and> cw_resetDeadline w = None \<and>
           (cw_event w = Finished version \<or> cw_event w \<in> {ProtoError None, MuxerError None} \<and> version = 0)"
    and "cw_setDeadline w = None \<Longrightarrow> version = (case cw_event w of Finished v \<Rightarrow> v | _ \<Rightarrow> 0)"
  using assms by (auto simp: handshake_def Let_def split: option.splits handshake_event.splits if_splits)

lemma startMessageSubmission_spec:
  assumes "startMessageSubmission m s w version p = (err, p')"
  shows "untouched p \<Longrightarrow> untouched p'"
    and "err = None \<longleftrightarrow> \<not> isl (messageSubmissionConfig m (ns_topic s)) \<and>
           (version = cw_ProtocolVersionDMQNtN1 w \<longrightarrow> cw_init w = None)"
    and "err = None \<Longrightarrow> pc_messageSubmission p' = Some \<lparr>mh_Client = True, mh_Server = True\<rparr> \<and>
           pc_flows p' = Some (\<lparr>so_requestCount = requestCount s, so_holdInterval = requestInterval s\<rparr>, [])"
  using assms by (auto simp: startMessageSubmission_def Let_def untouched_def pcall_def split: sum.splits if_splits)

lemma untouched_fresh [simp]: "untouched (freshConnection peer)"
  by (simp add: untouched_def freshConnection_def)

lemma newConnection_spec:
  assumes "newNodeToNodePeerConnection now w m s peer server = (err, p)"
  shows "case err of
      Some e \<Rightarrow> pc_closeOnce p = OnceDone \<and> pc_done p \<and> pc_closed p = close_body p
    | None \<Rightarrow> untouched p \<and> pc_messageSubmission p = Some \<lparr>mh_Client = True, mh_Server = True\<rparr>
        \<and> pc_flows p = Some (\<lparr>so_requestCount = requestCount s, so_holdInterval = requestInterval s\<rparr>, [])"
proof -
  obtain version e1 p1 where h: "handshake now w server (freshConnection peer) = ((version, e1), p1)"
    by (metis surj_pair)
  obtain e2 p2 where m: "startMessageSubmission m s w version p1 = (e2, p2)" by (metis surj_pair)
  have u: "untouched p1" "untouched p2"
    using handshake_spec(1) [OF h] startMessageSubmission_spec(1) [OF m] by simp_all
  show ?thesis
    using assms h m u startMessageSubmission_spec(3) [OF m]
    by (auto simp: newNodeToNodePeerConnection_def Close_fresh untouched_def close_body_def split: if_splits)
qed

section \<open>The invariant of a running connection\<close>

inductive_cases conn_stepE: "conn_step cid s t"
inductive_cases env_stepE: "env_step s t"

definition once_ok :: "nodeToNodePeerConnection \<Rightarrow> bool" where
  "once_ok p = ((case pc_closeOnce p of
       OnceFresh \<Rightarrow> pc_closed p = []
     | OnceRunning as \<Rightarrow> pc_closed p @ as = close_body p
     | OnceDone \<Rightarrow> pc_closed p = close_body p)
     \<and> (pc_done p \<longleftrightarrow> CloseDone \<in> set (pc_closed p)))"

text \<open>
  The error protocol: a reported error precedes the recorded one, which precedes the signal; a
  goroutine is past the parts of \<^verbatim>\<open>sendError\<close> its counter says.
\<close>

definition sent_ok :: "conn_sys \<Rightarrow> go_error \<Rightarrow> send_pc \<Rightarrow> bool" where
  "sent_ok s err pc = ((pc \<noteq> SendHook \<longrightarrow> err \<in> set (cs_reported s))
     \<and> (pc = SendSignal \<longrightarrow> pc_lastErr (cs_conn s) \<noteq> None))"

definition errors_ok :: "conn_sys \<Rightarrow> bool" where
  "errors_ok s = (pc_errorCh (cs_conn s) \<le> 1
     \<and> (0 < pc_errorCh (cs_conn s) \<or> cs_woken s \<longrightarrow> pc_lastErr (cs_conn s) \<noteq> None)
     \<and> (\<forall>e. pc_lastErr (cs_conn s) = Some e \<longrightarrow> e \<in> set (cs_reported s))
     \<and> (\<forall>err pc. cs_fwd s = FSend err pc \<longrightarrow> sent_ok s err pc)
     \<and> (\<forall>err pc. cs_pull s = PSend err pc \<longrightarrow> sent_ok s err pc)
     \<and> (cs_received s \<noteq> None \<and> cs_fwd s \<in> {FClose, FExit} \<longrightarrow> pc_lastErr (cs_conn s) \<noteq> None)
     \<and> (cs_fwd s = FSelect \<longrightarrow> cs_received s = None))"

definition threads_ok :: "conn_sys \<Rightarrow> bool" where
  "threads_ok s = ((cs_fwd s = FExit \<longrightarrow> once s = OnceDone) \<and> (cs_wait s = WExit \<longrightarrow> pc_done (cs_conn s)))"

lemma once_ok_updates [simp]:
  "once_ok (p\<lparr>pc_errorCh := n\<rparr>) = once_ok p" "once_ok (p\<lparr>pc_lastErr := e\<rparr>) = once_ok p"
  "once_ok (p\<lparr>pc_flows := f\<rparr>) = once_ok p"
  by (simp_all add: once_ok_def split: sync_Once.splits)

lemma startPull_flows: "startPull cid p = (call, q) \<Longrightarrow> \<exists>f. q = p\<lparr>pc_flows := f\<rparr>"
proof -
  assume "startPull cid p = (call, q)"
  moreover have "\<exists>f. p = p\<lparr>pc_flows := f\<rparr>" by (rule exI [of _ "pc_flows p"]) simp
  ultimately show ?thesis
    by (auto simp: startPull_def Let_def split: option.splits prod.splits if_splits)
qed

lemma once_ok_begin: "once_ok p \<Longrightarrow> pc_closeOnce p = OnceFresh \<Longrightarrow> once_ok (p\<lparr>pc_closeOnce := OnceRunning (close_body p)\<rparr>)"
  by (simp add: once_ok_def)

lemma once_ok_act:
  "once_ok p \<Longrightarrow> pc_closeOnce p = OnceRunning (a # as) \<Longrightarrow> once_ok ((close_do a p)\<lparr>pc_closeOnce := OnceRunning as\<rparr>)"
  by (auto simp: once_ok_def close_do_def close_body_def)

lemma once_ok_end: "once_ok p \<Longrightarrow> pc_closeOnce p = OnceRunning [] \<Longrightarrow> once_ok (p\<lparr>pc_closeOnce := OnceDone\<rparr>)"
  by (simp add: once_ok_def)

lemma once_ok_step: "once_ok (cs_conn s) \<Longrightarrow> conn_step cid s t \<or> env_step s t \<Longrightarrow> once_ok (cs_conn t)"
  by (elim disjE conn_stepE env_stepE)
     (auto simp: set_once_def sendError_def once_ok_begin once_ok_act once_ok_end dest!: startPull_flows split: send_pc.splits)

lemma once_ok_done: "once_ok p \<Longrightarrow> pc_closeOnce p = OnceDone \<Longrightarrow> pc_done p"
  by (simp add: once_ok_def)

lemma threads_ok_step:
  "once_ok (cs_conn s) \<Longrightarrow> threads_ok s \<Longrightarrow> conn_step cid s t \<or> env_step s t \<Longrightarrow> threads_ok t"
  by (elim disjE conn_stepE env_stepE)
     (auto simp: threads_ok_def set_once_def sendError_def close_do_def once_ok_done fwd_after_def forwarded_def
        dest!: startPull_flows split: send_pc.splits option.splits)

lemma sent_ok_next:
  "sent_ok s err pc \<Longrightarrow> send_next pc = Some pc' \<Longrightarrow> sent_ok (sendError err pc s) err pc'"
  by (cases pc) (auto simp: sent_ok_def sendError_def send_next_def)

lemma sent_ok_other: "sent_ok s err pc \<Longrightarrow> sent_ok (sendError err' pc' s) err pc"
  by (cases pc') (auto simp: sent_ok_def sendError_def)

lemma errors_ok_step: "errors_ok s \<Longrightarrow> conn_step cid s t \<or> env_step s t \<Longrightarrow> errors_ok t"
  by (elim disjE conn_stepE env_stepE)
     (auto simp: errors_ok_def set_once_def sendError_def close_do_def fwd_after_def pull_after_def forwarded_def
        send_next_def sent_ok_def dest!: startPull_flows split: send_pc.splits option.splits)

definition conn_inv :: "conn_sys \<Rightarrow> bool" where
  "conn_inv s = (once_ok (cs_conn s) \<and> threads_ok s \<and> errors_ok s)"

interpretation connection: inductive_invariant conn_init "\<lambda>s t. conn_step cid s t \<or> env_step s t" conn_inv for cid
proof
  fix s assume "conn_init s"
  then show "conn_inv s"
    using newConnection_spec
    by (fastforce simp: conn_init_def conn_inv_def once_ok_def threads_ok_def errors_ok_def untouched_def)
next
  fix s t assume "conn_inv s" "conn_step cid s t \<or> env_step s t"
  then show "conn_inv t"
    unfolding conn_inv_def using once_ok_step threads_ok_step errors_ok_step by blast
qed

lemma conn_reach_inv: "conn_reach cid s \<Longrightarrow> conn_inv s"
  unfolding conn_reach_def by (rule connection.reach_inv)

section \<open>Every run ends closed\<close>

primrec send_rank :: "send_pc \<Rightarrow> nat" where
  "send_rank SendHook = 4" | "send_rank SendRecord = 3" | "send_rank SendSignal = 2"

primrec fwd_rank :: "fwd_pc \<Rightarrow> nat" where
  "fwd_rank FSelect = 5" | "fwd_rank (FSend err pc) = send_rank pc" | "fwd_rank FClose = 1" | "fwd_rank FExit = 0"

primrec pull_rank :: "pull_pc \<Rightarrow> nat" where
  "pull_rank PStart = 5" | "pull_rank (PSend err pc) = send_rank pc" | "pull_rank PExit = 0"

primrec wait_rank :: "wait_pc \<Rightarrow> nat" where
  "wait_rank WSelect = 2" | "wait_rank WClose = 1" | "wait_rank WExit = 0"

primrec once_rank :: "sync_Once \<Rightarrow> nat" where
  "once_rank OnceFresh = 7" | "once_rank (OnceRunning as) = Suc (length as)" | "once_rank OnceDone = 0"

text \<open>The steps a connection can still take.\<close>

definition conn_rank :: "conn_sys \<Rightarrow> nat" where
  "conn_rank s = fwd_rank (cs_fwd s) + pull_rank (cs_pull s) + wait_rank (cs_wait s) + once_rank (once s)"

lemma fwd_after_rank: "fwd_rank (fwd_after err pc) < send_rank pc"
  by (cases pc) (simp_all add: fwd_after_def send_next_def)

lemma pull_after_rank: "pull_rank (pull_after err pc) < send_rank pc"
  by (cases pc) (simp_all add: pull_after_def send_next_def)

lemma forwarded_rank: "fwd_rank (forwarded e) < 5"
  by (cases e) (simp_all add: forwarded_def)

lemma close_body_length: "length (close_body p) < 6"
  using close_body_simps(6) [of p] by linarith

lemma sendError_threads [simp]:
  "cs_pull (sendError err pc s) = cs_pull s" "cs_wait (sendError err pc s) = cs_wait s"
  "cs_fwd (sendError err pc s) = cs_fwd s" "once (sendError err pc s) = once s"
  by (cases pc; simp add: sendError_def)+

lemma conn_step_rank: "conn_step cid s t \<Longrightarrow> conn_rank t < conn_rank s"
  by (erule conn_stepE)
     (use fwd_after_rank pull_after_rank forwarded_rank close_body_length in
       \<open>auto simp: conn_rank_def set_once_def close_do_def dest!: startPull_flows split: option.splits\<close>)

text \<open>Nothing is left to do for the connection itself.\<close>

definition quiescent :: "string \<Rightarrow> conn_sys \<Rightarrow> bool" where
  "quiescent cid s = (\<forall>t. \<not> conn_step cid s t)"

lemma quiescent_once: "quiescent cid s \<Longrightarrow> once s = OnceFresh \<or> once s = OnceDone"
  unfolding quiescent_def by (metis close_act close_end list.exhaust sync_Once.exhaust)

lemma quiescent_pull: "quiescent cid s \<Longrightarrow> cs_pull s = PExit"
proof (cases "cs_pull s")
  case PStart
  obtain call p where "startPull cid (cs_conn s) = (call, p)" by (metis surj_pair)
  then have "\<exists>t. conn_step cid s t" using pull_start [OF PStart, of cid call p None] by blast
  then show "quiescent cid s \<Longrightarrow> ?thesis" by (simp add: quiescent_def)
qed (auto simp: quiescent_def dest: pull_send)

lemma quiescent_fwd:
  "quiescent cid s \<Longrightarrow> cs_fwd s = FSelect \<and> \<not> cs_ctxDone s \<and> \<not> pc_done (cs_conn s) \<and> cs_protoErrorCh s = [] \<and> cs_muxErrorCh s = []
     \<or> cs_fwd s = FExit"
  unfolding quiescent_def using quiescent_once [of cid s, unfolded quiescent_def]
  by (metis fwd_ctx fwd_done fwd_proto fwd_mux fwd_send fwd_close fwd_exit fwd_pc.exhaust list.exhaust)

lemma quiescent_wait:
  "quiescent cid s \<Longrightarrow> cs_wait s = WSelect \<and> \<not> cs_ctxDone s \<and> \<not> pc_done (cs_conn s) \<and> pc_errorCh (cs_conn s) = 0
     \<or> cs_wait s = WExit"
  unfolding quiescent_def using quiescent_once [of cid s, unfolded quiescent_def]
  by (metis wait_ctx wait_done wait_error wait_close wait_exit wait_pc.exhaust bot_nat_0.not_eq_extremum)

lemma relpowp_rank: "(conn_step cid ^^ n) s t \<Longrightarrow> n + conn_rank t \<le> conn_rank s"
proof (induction n arbitrary: t)
  case (Suc n)
  then obtain u where "(conn_step cid ^^ n) s u" "conn_step cid u t" by auto
  then show ?case using Suc.IH conn_step_rank by fastforce
qed simp

lemma rank_bound: "conn_inv s \<Longrightarrow> conn_rank s \<le> 19"
proof -
  assume inv: "conn_inv s"
  have "send_rank pc \<le> 4" for pc by (cases pc) simp_all
  then have send: "send_rank pc \<le> 5" for pc using le_trans [of "send_rank pc" 4 5] by simp
  have "fwd_rank (cs_fwd s) \<le> 5" by (cases "cs_fwd s") (simp_all add: send)
  moreover have "pull_rank (cs_pull s) \<le> 5" by (cases "cs_pull s") (simp_all add: send)
  moreover have "wait_rank (cs_wait s) \<le> 2" by (cases "cs_wait s") simp_all
  moreover have "once_rank (once s) \<le> 7"
  proof (cases "once s")
    case (OnceRunning as)
    then have "length as \<le> length (close_body (cs_conn s))"
      using inv by (metis conn_inv_def once_ok_def sync_Once.simps(9) length_append le_add2)
    then show ?thesis using close_body_length [of "cs_conn s"] OnceRunning by simp
  qed simp_all
  ultimately show ?thesis by (simp add: conn_rank_def)
qed

lemma quiescent_closed:
  assumes "conn_inv s" "quiescent cid s"
    and "cs_ctxDone s \<or> once s \<noteq> OnceFresh \<or> 0 < pc_errorCh (cs_conn s) \<or> cs_protoErrorCh s \<noteq> [] \<or> cs_muxErrorCh s \<noteq> []"
  shows "cs_fwd s = FExit \<and> cs_wait s = WExit \<and> once s = OnceDone"
proof -
  have shut: "once s = OnceDone \<Longrightarrow> pc_done (cs_conn s)"
    using assms(1) once_ok_done by (auto simp: conn_inv_def)
  have exits: "cs_fwd s = FExit \<Longrightarrow> once s = OnceDone" "cs_wait s = WExit \<Longrightarrow> pc_done (cs_conn s)"
    using assms(1) by (auto simp: conn_inv_def threads_ok_def)
  show ?thesis
    using quiescent_fwd [OF assms(2)] quiescent_wait [OF assms(2)] quiescent_once [OF assms(2)] assms(3) shut exits
    by auto
qed

section \<open>The theorems\<close>

text \<open>
  C13: However \<^verbatim>\<open>Close\<close> is called, by the forwarder, by \<^verbatim>\<open>Wait\<close> and by the service, at
  whatever time, the parts of the connection are shut in one order and each at most once, so
  \<^verbatim>\<open>done\<close> is never closed twice; when a call of \<^verbatim>\<open>Close\<close> has returned all of them are, and when
  \<^verbatim>\<open>Wait\<close> has returned \<^verbatim>\<open>done\<close> is closed. The error channel never holds more than one value.
\<close>

theorem connection_closes_once:
  assumes "conn_reach cid s"
  defines "p \<equiv> cs_conn s"
  shows "prefix (pc_closed p) (close_body p) \<and> distinct (pc_closed p)
    \<and> pc_done p = (CloseDone \<in> set (pc_closed p))
    \<and> (once s = OnceDone \<longrightarrow> pc_closed p = close_body p)
    \<and> (cs_fwd s = FExit \<longrightarrow> pc_closed p = close_body p) \<and> (cs_wait s = WExit \<longrightarrow> pc_done p)
    \<and> pc_errorCh p \<le> 1"
proof -
  have inv: "once_ok p" "threads_ok s" "errors_ok s"
    using conn_reach_inv [OF assms(1)] by (simp_all add: conn_inv_def p_def)
  have pre: "prefix (pc_closed p) (close_body p)"
    using inv(1) by (auto simp: once_ok_def dest: sym [of "_ @ _"] split: sync_Once.splits)
  then have "distinct (pc_closed p)" using close_body_simps(4) [of p] by (metis prefix_def distinct_append)
  then show ?thesis
    using pre inv by (auto simp: once_ok_def threads_ok_def errors_ok_def p_def)
qed

text \<open>
  C14: The goroutines of a connection take at most nineteen steps, whatever they receive. Once the
  service is stopped, an error has arrived or \<^verbatim>\<open>Close\<close> was called, they stop only when the
  forwarder, the puller and \<^verbatim>\<open>Wait\<close> have all returned and the connection is shut completely: none
  is left blocked.
\<close>

theorem connection_ends:
  assumes "conn_reach cid s"
  shows "((conn_step cid ^^ n) s t \<longrightarrow> n \<le> 19)
    \<and> (\<exists>t. (conn_step cid)\<^sup>*\<^sup>* s t \<and> quiescent cid t)
    \<and> (quiescent cid s \<and> (cs_ctxDone s \<or> once s \<noteq> OnceFresh \<or> 0 < pc_errorCh (cs_conn s)
          \<or> cs_protoErrorCh s \<noteq> [] \<or> cs_muxErrorCh s \<noteq> []) \<longrightarrow>
        cs_fwd s = FExit \<and> cs_pull s = PExit \<and> cs_wait s = WExit \<and> pc_closed (cs_conn s) = close_body (cs_conn s))"
proof (intro conjI impI)
  assume "(conn_step cid ^^ n) s t"
  then show "n \<le> 19" using relpowp_rank rank_bound [OF conn_reach_inv [OF assms]] by fastforce
next
  show "\<exists>t. (conn_step cid)\<^sup>*\<^sup>* s t \<and> quiescent cid t"
  proof (induction "conn_rank s" arbitrary: s rule: less_induct)
    case less
    show ?case
    proof (cases "quiescent cid s")
      case False
      then obtain u where "conn_step cid s u" by (auto simp: quiescent_def)
      then show ?thesis using less conn_step_rank by (meson converse_rtranclp_into_rtranclp)
    qed auto
  qed
next
  assume q: "quiescent cid s \<and> (cs_ctxDone s \<or> once s \<noteq> OnceFresh \<or> 0 < pc_errorCh (cs_conn s)
    \<or> cs_protoErrorCh s \<noteq> [] \<or> cs_muxErrorCh s \<noteq> [])"
  then have "cs_fwd s = FExit \<and> cs_wait s = WExit \<and> once s = OnceDone"
    using quiescent_closed [OF conn_reach_inv [OF assms]] by blast
  moreover have "once_ok (cs_conn s)" using conn_reach_inv [OF assms] by (simp add: conn_inv_def)
  ultimately show "cs_fwd s = FExit" "cs_wait s = WExit" "pc_closed (cs_conn s) = close_body (cs_conn s)"
    by (simp_all add: once_ok_def)
  show "cs_pull s = PExit" using q quiescent_pull by blast
qed

text \<open>
  C25: An error that ends a connection is known when it has ended: when \<^verbatim>\<open>Wait\<close> was woken by the
  error channel, or the forwarder has got past an error it received, \<^verbatim>\<open>err()\<close> returns an error, and
  what it returns has been given to the error hooks.
\<close>

theorem connection_error_visible:
  assumes "conn_reach cid s"
    and "cs_woken s \<or> cs_received s \<noteq> None \<and> cs_fwd s \<in> {FClose, FExit} \<or> 0 < pc_errorCh (cs_conn s)"
  shows "\<exists>e. peerErr (cs_conn s) = Some e \<and> e \<in> set (cs_reported s)"
  using conn_reach_inv [OF assms(1)] assms(2) by (auto simp: peerErr_def conn_inv_def errors_ok_def)

text \<open>
  C26: A connection is made exactly when the deadline can be set and reset, the handshake finishes
  (or an error channel delivers a nil error, which counts as version 0), the topic is still
  registered and, for the version that needs it, the protocol is initialised. It is then open, with
  both sides of the protocol running and flows with the service's options. Otherwise the connection
  is shut completely before the error is returned, the protocol's sides included when they had started.
\<close>

theorem connection_construction:
  assumes "newNodeToNodePeerConnection now w m s peer server = (err, p)"
  shows "(err = None) = (cw_setDeadline w = None \<and> cw_resetDeadline w = None \<and> \<not> isl (topicOf m (ns_topic s)) \<and>
      (\<exists>v. (cw_event w = Finished v \<or> cw_event w \<in> {ProtoError None, MuxerError None} \<and> v = 0)
         \<and> (v = cw_ProtocolVersionDMQNtN1 w \<longrightarrow> cw_init w = None)))
    \<and> (if err = None
       then pc_closeOnce p = OnceFresh \<and> pc_closed p = [] \<and> \<not> pc_done p
         \<and> pc_messageSubmission p = Some \<lparr>mh_Client = True, mh_Server = True\<rparr>
         \<and> pc_flows p = Some (\<lparr>so_requestCount = requestCount s, so_holdInterval = requestInterval s\<rparr>, [])
       else pc_closeOnce p = OnceDone \<and> pc_done p \<and> pc_closed p = close_body p)"
proof
  obtain version e1 p1 where h: "handshake now w server (freshConnection peer) = ((version, e1), p1)"
    by (metis surj_pair)
  obtain e2 p2 where m: "startMessageSubmission m s w version p1 = (e2, p2)" by (metis surj_pair)
  have "(err = None) = (e1 = None \<and> e2 = None)"
    using assms h m by (auto simp: newNodeToNodePeerConnection_def split: if_splits)
  then show "(err = None) = (cw_setDeadline w = None \<and> cw_resetDeadline w = None \<and> \<not> isl (topicOf m (ns_topic s)) \<and>
      (\<exists>v. (cw_event w = Finished v \<or> cw_event w \<in> {ProtoError None, MuxerError None} \<and> v = 0)
         \<and> (v = cw_ProtocolVersionDMQNtN1 w \<longrightarrow> cw_init w = None)))"
    unfolding handshake_spec(2) [OF h] startMessageSubmission_spec(2) [OF m] messageSubmissionConfig_def
    using handshake_spec(3) [OF h] by auto
  show "if err = None
       then pc_closeOnce p = OnceFresh \<and> pc_closed p = [] \<and> \<not> pc_done p
         \<and> pc_messageSubmission p = Some \<lparr>mh_Client = True, mh_Server = True\<rparr>
         \<and> pc_flows p = Some (\<lparr>so_requestCount = requestCount s, so_holdInterval = requestInterval s\<rparr>, [])
       else pc_closeOnce p = OnceDone \<and> pc_done p \<and> pc_closed p = close_body p"
    using newConnection_spec [OF assms] by (auto simp: untouched_def split: option.splits)
qed

text \<open>
  The handshake takes a nil error, as a closed error channel gives, for a completed handshake with
  version 0; \<^verbatim>\<open>forwardErrors\<close> tells the two apart.
\<close>

theorem handshake_nil_error:
  assumes "cw_setDeadline w = None" "cw_resetDeadline w = None" "cw_event w = MuxerError None"
  shows "fst (handshake now w server p) = (0, None)"
  using assms by (simp add: handshake_def Let_def)

section \<open>Examples\<close>

definition ex_connect :: connect_world where
  "ex_connect = \<lparr>cw_setDeadline = None, cw_event = Finished 1, cw_resetDeadline = None, cw_init = None,
     cw_ProtocolVersionDMQNtN1 = 1\<rparr>"

definition ex_service :: NodeToNodeService where
  "ex_service = newNodeToNodeService ''a'' ex_node_config"

definition ex_connection :: nodeToNodePeerConnection where
  "ex_connection = snd (newNodeToNodePeerConnection 0 ex_connect ex_net_manager ex_service zero_Peer False)"

lemma ex_topic_registered: "\<not> isl (topicOf ex_net_manager ''a'')"
  using ex_started_ok by (auto simp: ex_started_def StartNodeToNode_def split: sum.splits)

lemma ex_connected: "newNodeToNodePeerConnection 0 ex_connect ex_net_manager ex_service zero_Peer False = (None, ex_connection)"
proof -
  obtain e p where n: "newNodeToNodePeerConnection 0 ex_connect ex_net_manager ex_service zero_Peer False = (e, p)"
    by (metis surj_pair)
  have "ns_topic ex_service = ''a''" by (simp add: ex_service_def newNodeToNodeService_def)
  then have "e = None"
    using n ex_topic_registered
    by (auto simp: newNodeToNodePeerConnection_def handshake_def startMessageSubmission_def messageSubmissionConfig_def
        ex_connect_def Let_def split: sum.splits if_splits)
  then show ?thesis using n by (simp add: ex_connection_def)
qed

text \<open>A running connection to which the muxer has reported an error that was forwarded.\<close>

definition ex_sys :: conn_sys where
  "ex_sys = \<lparr>cs_conn = ex_connection, cs_ctxDone = False, cs_protoErrorCh = [], cs_muxErrorCh = [Some (Sentinel NetErrClosed)],
     cs_fwd = FSelect, cs_pull = PStart, cs_wait = WSelect, cs_reported = [], cs_received = None, cs_woken = False\<rparr>"

lemma ex_sys_init: "conn_init (ex_sys\<lparr>cs_ctxDone := b\<rparr>)"
proof -
  have "\<exists>now w m srv peer server. newNodeToNodePeerConnection now w m srv peer server = (None, ex_connection)"
    using ex_connected by blast
  then show ?thesis by (simp add: conn_init_def ex_sys_def)
qed

lemma ex_sys_reach: "conn_reach cid (ex_sys\<lparr>cs_ctxDone := b\<rparr>)"
  unfolding conn_reach_def by (rule reach_init) (rule ex_sys_init)

lemma conn_reach_step: "conn_reach cid s \<Longrightarrow> conn_step cid s t \<Longrightarrow> conn_reach cid t"
  unfolding conn_reach_def by (rule reach_step) auto

lemma conn_reach_steps: "(conn_step cid)\<^sup>*\<^sup>* s t \<Longrightarrow> conn_reach cid s \<Longrightarrow> conn_reach cid t"
  by (induction rule: rtranclp_induct) (auto intro: conn_reach_step)

lemma ctxDone_steps: "(conn_step cid)\<^sup>*\<^sup>* s t \<Longrightarrow> cs_ctxDone s \<Longrightarrow> cs_ctxDone t"
proof (induction rule: rtranclp_induct)
  case (step t u)
  from step(2) show ?case using step.IH [OF step.prems]
    by (cases rule: conn_step.cases) (auto simp: set_once_def sendError_def split: send_pc.splits)
qed simp

abbreviation ex_error :: go_error where
  "ex_error \<equiv> Sentinel NetErrClosed"

definition ex_forwarded :: conn_sys where
  "ex_forwarded = ex_sys\<lparr>cs_muxErrorCh := [], cs_fwd := FClose, cs_received := Some ex_error, cs_reported := [ex_error],
     cs_conn := ex_connection\<lparr>pc_lastErr := Some ex_error, pc_errorCh := min 1 (Suc (pc_errorCh ex_connection))\<rparr>\<rparr>"

lemma ex_forwarded_reach: "conn_reach cid ex_forwarded"
proof -
  let ?s1 = "ex_sys\<lparr>cs_muxErrorCh := [], cs_fwd := FSend ex_error SendHook, cs_received := Some ex_error\<rparr>"
  let ?send = "\<lambda>pc s. (sendError ex_error pc s)\<lparr>cs_fwd := fwd_after ex_error pc\<rparr>"
  have "conn_step cid ex_sys ?s1"
    using fwd_mux [of ex_sys "Some ex_error" "[]" cid] by (simp add: ex_sys_def forwarded_def)
  moreover have "conn_reach cid ex_sys" using ex_sys_reach [of cid False] by (simp add: ex_sys_def)
  ultimately have 1: "conn_reach cid ?s1" by (rule conn_reach_step [rotated])
  have 2: "conn_reach cid (?send SendHook ?s1)" by (rule conn_reach_step [OF 1 fwd_send]) simp
  have 3: "conn_reach cid (?send SendRecord (?send SendHook ?s1))"
    by (rule conn_reach_step [OF 2 fwd_send]) (simp add: fwd_after_def send_next_def)
  have 4: "conn_reach cid (?send SendSignal (?send SendRecord (?send SendHook ?s1)))"
    by (rule conn_reach_step [OF 3 fwd_send]) (simp add: fwd_after_def send_next_def)
  then show ?thesis
    by (simp add: ex_forwarded_def ex_sys_def sendError_def fwd_after_def send_next_def)
qed

theorem connection_closes_once_witness:
  "pc_errorCh (cs_conn ex_forwarded) \<le> 1 \<and> distinct (pc_closed (cs_conn ex_forwarded))"
  using connection_closes_once [OF ex_forwarded_reach [of "''c''"]] by simp

theorem connection_ends_witness:
  "\<exists>t. (conn_step ''c'')\<^sup>*\<^sup>* (ex_sys\<lparr>cs_ctxDone := True\<rparr>) t \<and> cs_fwd t = FExit \<and> cs_pull t = PExit \<and> cs_wait t = WExit
     \<and> pc_closed (cs_conn t) = close_body (cs_conn t)"
proof -
  obtain t where t: "(conn_step ''c'')\<^sup>*\<^sup>* (ex_sys\<lparr>cs_ctxDone := True\<rparr>) t" "quiescent ''c'' t"
    using connection_ends [OF ex_sys_reach [of "''c''" True]] by blast
  then have "conn_reach ''c'' t" "cs_ctxDone t"
    using conn_reach_steps ex_sys_reach ctxDone_steps by (blast, simp)
  then show ?thesis using t connection_ends by blast
qed

theorem connection_error_visible_witness:
  "\<exists>e. peerErr (cs_conn ex_forwarded) = Some e \<and> e \<in> set (cs_reported ex_forwarded)"
  by (rule connection_error_visible [OF ex_forwarded_reach [of "''c''"]]) (simp add: ex_forwarded_def)

theorem connection_construction_witness:
  "pc_closed ex_connection = [] \<and> pc_messageSubmission ex_connection = Some \<lparr>mh_Client = True, mh_Server = True\<rparr>"
  using connection_construction [OF ex_connected] by simp

end
