(* ===== verification/Spec2Isabelle.thy ===== *)
theory Spec2Isabelle
  imports Topic_Node Reloading Ledger_Providers Peer_Connection
begin

text \<open>
  \<^bold>\<open>A verification of dmq-lib\<close>, the Go library of decentralised message queue (CIP-0137) nodes.

  \<^bold>\<open>The program.\<close> A \<^verbatim>\<open>Manager\<close> (\<^verbatim>\<open>manager.go\<close>) owns named topics. A topic
  (\<^verbatim>\<open>topic.go\<close>) keeps a bounded queue of signed messages, a table of recently seen message IDs
  and the channels of its local subscribers; every message, published locally, submitted by a
  client or received from a peer, passes one admission decision (\<^verbatim>\<open>submitSigned\<close>). The
  message-submission protocol (\<^verbatim>\<open>protocol.go\<close>) announces queued IDs to peers, fetches unseen
  messages from them and submits these to the topic. A node-to-node service (\<^verbatim>\<open>network.go\<close>)
  listens, dials peers with exponential backoff and runs that protocol on every connection;
  peers come from static lists, topology files and ledger snapshots (\<^verbatim>\<open>discovery.go\<close>). A
  \<^verbatim>\<open>TopicNode\<close> (\<^verbatim>\<open>topic_node.go\<close>) bundles one topic with its manager and service.
  \<^verbatim>\<open>payload.go\<close> builds payloads, \<^verbatim>\<open>cardano.go\<close> converts the clock to slots and KES periods.
  Messages are signed by a file signer (\<^verbatim>\<open>signer.go\<close>) or through a KES provider, in process or
  an external helper (\<^verbatim>\<open>kes_payload.go\<close>); either can be replaced at run time
  (\<^verbatim>\<open>reloading.go\<close>).

  \<^bold>\<open>The theories\<close>, in the order of their imports:

  \<^item> \<open>Dmq_Prelude\<close>: machine types, Go's time, string and map operations, reachable states and
    the locale of inductive invariants.
  \<^item> \<open>Stable_Sort\<close>: Go's stable sort by a comparison function; locales for the contract of the
    comparison and what the sort then guarantees.
  \<^item> \<open>Go_Errors\<close>: \<^verbatim>\<open>errors.go\<close>, error values, \<^verbatim>\<open>errors.Is\<close> and \<^verbatim>\<open>errors.Join\<close>.
  \<^item> \<open>Peer_Discovery\<close>: peers, topology and ledger relays, the ledger pools of a snapshot: the
    ninety-percent selection by stake and the exact content and order of the pools.
  \<^item> \<open>Peer_Selector\<close>: the peer selector: independence of the map order, exact replacement
    of sources, selection under quotas.
  \<^item> \<open>Dmq_Types\<close>: \<^verbatim>\<open>types.go\<close> and the configuration structs, with the sanity of the defaults.
  \<^item> \<open>Dmq_Payload\<close>: \<^verbatim>\<open>payload.go\<close>: the wire expiry is exact.
  \<^item> \<open>Topic_Runtime\<close>: the state and all operations of a topic. A topic is the record
    \<open>topicRuntime\<close>; its channels are a store, because a channel outlives its entry in the
    subscriber map; an operation that would panic has the result \<open>None\<close>; clock readings are
    arguments; hook calls are results.
  \<^item> \<open>Topic_Correctness\<close>: the step relation of a topic (every critical section in any order,
    with any clock reading), its invariant, and the lemmas on pruning, fan-out and admission.
  \<^item> \<open>Topic_Properties\<close>: the theorems on topics: exact admission, refusals, no panics,
    boundedness, duplicate suppression over time, queries, shutdown.
  \<^item> \<open>Topic_Refinement\<close>: the topic implements an abstract topic of mailboxes.
  \<^item> \<open>Ledger_Providers\<close>: the snapshot providers of \<^verbatim>\<open>discovery.go\<close> (dingo sources, local state
    queries): exact scaling of stake shares, the ninety-percent selection in terms of shares, relay
    conversions, unsupported sources, and the contract of a provider as a locale.
  \<^item> \<open>Dmq_Manager\<close>: the manager, the contract of a per-topic operation as a locale, its
    interpretations, all interleavings, isolation of topics and the final state.
  \<^item> \<open>Submission_Flow\<close>, \<open>Submission_Correctness\<close>: flows and callbacks of the protocols: exact
    announcements, no repetition, answers to held requests, acknowledgements, transfer of exactly
    the missing messages, replies of the local protocol.
  \<^item> \<open>Node_Service\<close>, \<open>Node_Correctness\<close>: the service: guards of starting, complete shutdown,
    reconnect backoff, one loop per address, and the race that leaks the listener.
  \<^item> \<open>Peer_Connection\<close>: the connection of a peer: construction from the outcomes of handshake and
    protocol start, and its goroutines with \<^verbatim>\<open>Wait\<close> and \<^verbatim>\<open>Close\<close> as a step relation: closed once
    and in order, bounded runs that end with everything returned, errors visible when it has ended.
  \<^item> \<open>Topic_Node\<close>: the single-topic node.
  \<^item> \<open>Cardano_Time\<close>: slots, epochs and KES periods, with 64-bit arithmetic.
  \<^item> \<open>Go_Encoding\<close>: white space, hexadecimal, base64 and big-endian encodings of the standard
    library, with their round trips.
  \<^item> \<open>Kes_Credentials\<close>: keys, operational certificates and their validity window: exact decoding,
    what a certificate's signature binds, when signing is possible.
  \<^item> \<open>Kes_Signer\<close>: the in-process and the external KES signer: signing exactly at the periods left,
    verified signatures only, termination of the key evolution.
  \<^item> \<open>File_Signer\<close>: the file signer: what it signs it verifies; credentials must match.
  \<^item> \<open>Kes_Provider\<close>: the provider interface as a locale, interpreted on all implementations, nil
    interface values included, and the signer that builds messages through a provider.
  \<^item> \<open>Reloading\<close>: the reloading wrappers share one locale (the last good value stays active); the
    contract of a message signer, interpreted on every signer, and publishing end to end.

  \<^bold>\<open>Conventions.\<close> Structs are records whose fields carry a short prefix, enumerations are
  datatypes, Go integers are words where they are unsigned and sized, and integers with explicit
  wrap-around (\<open>to_int64\<close>) or saturation (\<open>time_Sub\<close>) where the code's durations can leave
  64 bits; a \<^verbatim>\<open>big.Rat\<close> is a rational. A Go map that is iterated is an association list standing
  for one iteration order; results that must not depend on it are proved independent. Errors are
  values of \<open>go_error\<close> that keep the format and the wrapped errors. A mutex makes its critical
  section one step; nothing is assumed of the scheduling between critical sections. The function
  given to \<^verbatim>\<open>closeOnce\<close> is not one step: its effects are interleaved with the other goroutines.

  \<^bold>\<open>Code outside the repository\<close> is a parameter: the gOuroboros message operations are the
  record \<open>gouroboros\<close> (message ID, computed ID, TTL validator, encoder), with the documented
  behaviour the code relies on as \<open>message_id_laws\<close>; the KES scheme, ed25519, hashes, CBOR and key
  files are the record \<open>kes_lib\<close>, with \<open>kes_scheme\<close> and \<open>computed_id_law\<close> as laws; the helper
  process, authenticators, dingo's sources, the query client, the topology parser, sockets, the
  muxer, the handshake and files are functions or outcomes given to the definitions.

  \<^bold>\<open>Bounds and fuel.\<close> No definition runs on fuel: every loop is structural recursion, or has
  a measure (\<open>prune_loop\<close>, the numerals), or is a \<^verbatim>\<open>partial_function\<close> whose value \<open>None\<close> is
  not returning and which is proved to return (\<open>update_loop\<close>). A goroutine that waits for the
  outside (the held reply, the accept and reconnect loops) is a function of the finite sequence of
  outcomes it has seen so far, so its theorems hold of every prefix of a run; those of a connection
  are program counters of a step relation, whose runs have at most nineteen steps.

  \<^bold>\<open>Not modelled\<close>: logging; the inside of the muxer, the handshake and the protocol library;
  \<^verbatim>\<open>ReadTopology\<close> and \<^verbatim>\<open>ParseTopologyFile\<close>, which only call dingo's parser (a parameter of the
  configuration functions); the real clock. Byte slices are values, so aliasing of slices is not
  represented; the copies the code makes are identities in the model.

  \<^bold>\<open>Plan\<close>, in this order: the service and its connections in one step relation, with the wait
  group that \<^verbatim>\<open>Close\<close> waits for; two nodes exchanging messages over a connection; an explicit store
  for the slices whose copies matter.
\<close>

end
